(* ===== verification/JS_Prelude.thy ===== *)
theory JS_Prelude
  imports Main "HOL-Library.Sublist"
begin

text \<open>
  The part of the JavaScript runtime that \<^verbatim>\<open>src/run-e2e-tests.js\<close> relies on, shared by
  every component theory.

  \<^item> \<open>jsval\<close>: the values that can be thrown, rejected with, or returned as the error of a
    run: \<^verbatim>\<open>undefined\<close>, \<^verbatim>\<open>null\<close>, booleans, numbers, strings, error objects with the string
    in their \<^verbatim>\<open>stack\<close>, and every other object with the value of its \<^verbatim>\<open>stack\<close> property
    when it has one.  Only two observations are ever made on them by the script: the
    property read \<^verbatim>\<open>e.stack\<close> (\<open>get_stack\<close>, which throws a TypeError on \<^verbatim>\<open>undefined\<close> and
    \<^verbatim>\<open>null\<close>, is \<^verbatim>\<open>undefined\<close> on the other primitives and on an object without the
    property) and the truthiness test \<^verbatim>\<open>if (err)\<close> (\<open>truthy\<close>).  Numbers are integers: a
    fraction is truthy like a non-zero integer and \<^verbatim>\<open>NaN\<close> falsy like zero.
  \<^item> \<open>'a promise\<close>: the state in which a promise ends up (pending for ever, fulfilled,
    rejected), with \<open>both\<close> and \<open>promise_all\<close> for \<^verbatim>\<open>Promise.all\<close>.
  \<^item> \<open>('s, 'a) task\<close>: an asynchronous (or throwing) computation over a state \<open>'s\<close>:
    it returns the state it leaves and the final state of its promise.  \<open>await\<close> is
    sequencing, \<open>start\<close> calls an async function without waiting for it, \<open>try_catch\<close> is
    \<^verbatim>\<open>try { ... } catch (e) { ... }\<close>, \<open>all_tasks\<close> is \<^verbatim>\<open>Promise.all(xs.map(f))\<close>: every
    task is started, in order, before any result is looked at.  \<open>promise_all_at\<close> and
    \<open>all_tasks_at\<close> take the time at which each promise settles: the rejection that comes
    first in time wins, and whether the result is fulfilled, rejected or pending does not
    depend on the times (\<open>promise_all_at_Fulfilled_iff\<close>, \<open>promise_all_at_Pending_iff\<close>,
    \<open>promise_all_at_rejects_iff\<close>).
  \<^item> strings: \<open>re_test\<close> is \<^verbatim>\<open>RegExp.prototype.test\<close> for a pattern made of literal
    characters only (an unanchored substring search), \<open>show_nat\<close> is the decimal rendering
    of a non-negative integer in a template literal.
\<close>

named_theorems task_defs \<open>definitions of the task combinators\<close>
named_theorems task_apply \<open>the task combinators applied to a state\<close>

section \<open>Values\<close>

datatype jsval =
    JUndefined
  | JNull
  | JBool bool
  | JNumber int
  | JString string
  | JError string
  | JObject "jsval option"

fun truthy :: "jsval \<Rightarrow> bool" where
  "truthy JUndefined = False"
| "truthy JNull = False"
| "truthy (JBool b) = b"
| "truthy (JNumber n) = (n \<noteq> 0)"
| "truthy (JString s) = (s \<noteq> [])"
| "truthy (JError st) = True"
| "truthy (JObject stack) = True"

definition type_error :: jsval where
  "type_error = JError ''TypeError: Cannot read property stack''"

fun get_stack :: "jsval \<Rightarrow> jsval + jsval" where
  "get_stack JUndefined = Inl type_error"
| "get_stack JNull = Inl type_error"
| "get_stack (JBool b) = Inr JUndefined"
| "get_stack (JNumber n) = Inr JUndefined"
| "get_stack (JString s) = Inr JUndefined"
| "get_stack (JError st) = Inr (JString st)"
| "get_stack (JObject None) = Inr JUndefined"
| "get_stack (JObject (Some v)) = Inr v"

section \<open>Promises\<close>

datatype 'a promise = Pending | Fulfilled 'a | Rejected jsval

definition resolved_when :: "'a option \<Rightarrow> 'a promise" where
  "resolved_when x = (case x of Some v \<Rightarrow> Fulfilled v | None \<Rightarrow> Pending)"

fun both :: "'a promise \<Rightarrow> 'b promise \<Rightarrow> ('a \<times> 'b) promise" where
  "both (Rejected e) q = Rejected e"
| "both p (Rejected e) = Rejected e"
| "both Pending q = Pending"
| "both p Pending = Pending"
| "both (Fulfilled x) (Fulfilled y) = Fulfilled (x, y)"

fun promise_all :: "'a promise list \<Rightarrow> 'a list promise" where
  "promise_all [] = Fulfilled []"
| "promise_all (p # ps) = map_promise (\<lambda>(x, xs). x # xs) (both p (promise_all ps))"

section \<open>Tasks\<close>

type_synonym ('s, 'a) task = "'s \<Rightarrow> 's \<times> 'a promise"

definition settle :: "'a promise \<Rightarrow> ('s, 'a) task" where
  [task_defs]: "settle p = (\<lambda>s. (s, p))"

definition resolve :: "'a \<Rightarrow> ('s, 'a) task" where
  [task_defs]: "resolve x = settle (Fulfilled x)"

definition reject :: "jsval \<Rightarrow> ('s, 'a) task" where
  [task_defs]: "reject e = settle (Rejected e)"

definition start :: "('s, 'a) task \<Rightarrow> ('a promise \<Rightarrow> ('s, 'b) task) \<Rightarrow> ('s, 'b) task" where
  [task_defs]: "start m k = (\<lambda>s. case m s of (s', p) \<Rightarrow> k p s')"

definition awaitp :: "'a promise \<Rightarrow> ('a \<Rightarrow> ('s, 'b) task) \<Rightarrow> ('s, 'b) task" where
  [task_defs]: "awaitp p f =
     (case p of Fulfilled x \<Rightarrow> f x | Rejected e \<Rightarrow> reject e | Pending \<Rightarrow> settle Pending)"

definition await :: "('s, 'a) task \<Rightarrow> ('a \<Rightarrow> ('s, 'b) task) \<Rightarrow> ('s, 'b) task" where
  [task_defs]: "await m f = start m (\<lambda>p. awaitp p f)"

definition try_catch :: "('s, 'a) task \<Rightarrow> (jsval \<Rightarrow> ('s, 'a) task) \<Rightarrow> ('s, 'a) task" where
  [task_defs]: "try_catch m h =
     start m (\<lambda>p. case p of Rejected e \<Rightarrow> h e | _ \<Rightarrow> settle p)"

fun start_all :: "('s, 'a) task list \<Rightarrow> 's \<Rightarrow> 's \<times> 'a promise list" where
  "start_all [] s = (s, [])"
| "start_all (t # ts) s =
     (case t s of (s', p) \<Rightarrow> (case start_all ts s' of (s'', ps) \<Rightarrow> (s'', p # ps)))"

definition all_tasks :: "('s, 'a) task list \<Rightarrow> ('s, 'a list) task" where
  "all_tasks ts = (\<lambda>s. case start_all ts s of (s', ps) \<Rightarrow> (s', promise_all ps))"

fun rejections :: "(nat \<times> 'a promise) list \<Rightarrow> (nat \<times> jsval) list" where
  "rejections [] = []"
| "rejections ((t, Rejected e) # tps) = (t, e) # rejections tps"
| "rejections (tp # tps) = rejections tps"

definition first_rejection :: "(nat \<times> 'a promise) list \<Rightarrow> jsval option" where
  "first_rejection tps =
     (case rejections tps of [] \<Rightarrow> None | r # rs \<Rightarrow> Some (snd (arg_min_list fst (r # rs))))"

definition promise_all_at :: "nat list \<Rightarrow> 'a promise list \<Rightarrow> 'a list promise" where
  "promise_all_at ts ps =
     (case first_rejection (zip ts ps) of Some e \<Rightarrow> Rejected e | None \<Rightarrow> promise_all ps)"

definition all_tasks_at :: "nat list \<Rightarrow> ('s, 'a) task list \<Rightarrow> ('s, 'a list) task" where
  "all_tasks_at ts tasks = (\<lambda>s. case start_all tasks s of (s', ps) \<Rightarrow> (s', promise_all_at ts ps))"

fun each_task :: "('a \<Rightarrow> ('s, 'b) task) \<Rightarrow> 'a list \<Rightarrow> ('s, 'b list) task" where
  "each_task f [] = resolve []"
| "each_task f (x # xs) =
     await (f x) (\<lambda>y. await (each_task f xs) (\<lambda>ys. resolve (y # ys)))"

fun seq_tasks :: "('a \<Rightarrow> ('s, unit) task) \<Rightarrow> 'a list \<Rightarrow> ('s, unit) task" where
  "seq_tasks f [] = resolve ()"
| "seq_tasks f (x # xs) = await (f x) (\<lambda>_. seq_tasks f xs)"

section \<open>Strings\<close>

fun re_test :: "string \<Rightarrow> string \<Rightarrow> bool" where
  "re_test pat [] = (pat = [])"
| "re_test pat (c # cs) = (prefix pat (c # cs) \<or> re_test pat cs)"

definition digit_char :: "nat \<Rightarrow> char" where
  "digit_char d = char_of (48 + d)"

definition digit_val :: "char \<Rightarrow> nat" where
  "digit_val c = of_char c - 48"

fun show_nat :: "nat \<Rightarrow> string" where
  "show_nat n =
     (if n < 10 then [digit_char n] else show_nat (n div 10) @ [digit_char (n mod 10)])"

definition read_nat :: "string \<Rightarrow> nat" where
  "read_nat cs = foldl (\<lambda>acc c. 10 * acc + digit_val c) 0 cs"

declare show_nat.simps [simp del]

section \<open>Lemmas on values\<close>

fun_cases get_stack_InlE: "get_stack e = Inl t"
fun_cases get_stack_InrE: "get_stack e = Inr v"

lemma get_stack_throws_iff: "(\<exists>t. get_stack e = Inl t) \<longleftrightarrow> e = JUndefined \<or> e = JNull"
  by (auto elim: get_stack_InlE)

lemma get_stack_Inl: "get_stack e = Inl t \<Longrightarrow> t = type_error"
  by (auto elim: get_stack_InlE)

lemma get_stack_Inr_iff:
  "(\<exists>v. get_stack e = Inr v) \<longleftrightarrow> e \<noteq> JUndefined \<and> e \<noteq> JNull"
  by (cases e rule: get_stack.cases) simp_all

lemma get_stack_primitive:
  "get_stack (JBool b) = Inr v \<or> get_stack (JNumber n) = Inr v \<or> get_stack (JString s) = Inr v \<Longrightarrow>
   v = JUndefined"
  by auto

lemma get_stack_Inr_cases:
  assumes "get_stack e = Inr v"
  obtains (primitive) "v = JUndefined" and "\<not> truthy v"
    | (error) st where "e = JError st" and "v = JString st"
    | (object) "e = JObject (Some v)"
  using assms by (cases e rule: get_stack.cases) auto

lemma get_stack_not_self: "get_stack e = Inr v \<Longrightarrow> v \<noteq> e"
proof (cases e rule: get_stack.cases)
  case (8 w)
  assume "get_stack e = Inr v"
  with 8 have "size v < size e"
    by simp
  then show ?thesis
    by auto
qed auto

lemma truthy_type_error [simp]: "truthy type_error"
  by (simp add: type_error_def)

lemma get_stack_type_error [simp]:
  "get_stack type_error = Inr (JString ''TypeError: Cannot read property stack'')"
  by (simp add: type_error_def)

section \<open>Lemmas on promises\<close>

lemma resolved_when_simps [simp]:
  "resolved_when (Some v) = Fulfilled v"
  "resolved_when None = Pending"
  "resolved_when x = Fulfilled v \<longleftrightarrow> x = Some v"
  "resolved_when x = Pending \<longleftrightarrow> x = None"
  "resolved_when x \<noteq> Rejected e"
  by (cases x; simp add: resolved_when_def)+

lemma both_Fulfilled_iff [simp]:
  "both p q = Fulfilled z \<longleftrightarrow> p = Fulfilled (fst z) \<and> q = Fulfilled (snd z)"
  by (cases p; cases q; cases z) auto

lemma both_Fulfilled_left [simp]: "both (Fulfilled x) q = map_promise (Pair x) q"
  by (cases q) simp_all

lemma both_Pending_iff:
  "both p q = Pending \<longleftrightarrow>
     (p = Pending \<and> (\<forall>e. q \<noteq> Rejected e)) \<or> (q = Pending \<and> (\<exists>x. p = Fulfilled x))"
  by (cases p; cases q) auto

lemma both_Rejected_iff:
  "both p q = Rejected e \<longleftrightarrow>
     p = Rejected e \<or> ((\<forall>e'. p \<noteq> Rejected e') \<and> q = Rejected e)"
  by (cases p; cases q) auto

lemma map_promise_eq_Fulfilled_iff [simp]:
  "map_promise f p = Fulfilled y \<longleftrightarrow> (\<exists>x. p = Fulfilled x \<and> y = f x)"
  by (cases p) auto

lemma map_promise_eq_Rejected_iff [simp]:
  "map_promise f p = Rejected e \<longleftrightarrow> p = Rejected e"
  by (cases p) auto

lemma map_promise_eq_Pending_iff [simp]:
  "map_promise f p = Pending \<longleftrightarrow> p = Pending"
  by (cases p) auto

lemma promise_all_map_Fulfilled [simp]: "promise_all (map Fulfilled xs) = Fulfilled xs"
  by (induction xs) simp_all

lemma promise_all_Fulfilled_iff:
  "promise_all ps = Fulfilled xs \<longleftrightarrow> ps = map Fulfilled xs"
proof (induction ps arbitrary: xs)
  case Nil
  then show ?case by auto
next
  case (Cons p ps)
  show ?case
    by (cases xs) (auto simp: Cons.IH)
qed

lemma promise_all_Rejected_mem: "promise_all ps = Rejected e \<Longrightarrow> Rejected e \<in> set ps"
  by (induction ps) (auto simp: both_Rejected_iff)

lemma promise_all_rejects_iff:
  "(\<exists>e. promise_all ps = Rejected e) \<longleftrightarrow> (\<exists>e. Rejected e \<in> set ps)"
proof (induction ps)
  case Nil
  then show ?case by simp
next
  case (Cons p ps)
  then show ?case
    by (cases p) (auto simp: both_Rejected_iff)
qed

lemma promise_all_Pending_iff:
  "promise_all ps = Pending \<longleftrightarrow> Pending \<in> set ps \<and> (\<forall>e. Rejected e \<notin> set ps)"
proof (induction ps)
  case Nil
  then show ?case by simp
next
  case (Cons p ps)
  have "promise_all ps = Pending \<or> (\<exists>xs. promise_all ps = Fulfilled xs) \<or>
      (\<exists>e. promise_all ps = Rejected e)"
    by (cases "promise_all ps") auto
  then show ?case
    using Cons.IH promise_all_rejects_iff [of ps]
    by (cases p) (auto simp: both_Pending_iff promise_all_Fulfilled_iff)
qed

lemma promise_all_map_Pending:
  "promise_all (map f xs) = Pending \<Longrightarrow> \<exists>x \<in> set xs. f x = Pending"
  by (metis promise_all_Pending_iff imageE list.set_map)

lemma rejections_zip_map_promise:
  "rejections (zip ts (map (map_promise f) ps)) = rejections (zip ts ps)"
proof (induction ps arbitrary: ts)
  case Nil
  show ?case by simp
next
  case (Cons p ps)
  then show ?case
    by (cases ts; cases p) simp_all
qed

lemma promise_all_map_promise:
  "promise_all (map (map_promise f) ps) = map_promise (map f) (promise_all ps)"
proof (induction ps)
  case Nil
  show ?case by simp
next
  case (Cons p ps)
  then show ?case
    by (cases p; cases "promise_all ps") simp_all
qed

section \<open>Lemmas on tasks\<close>

lemma settle_apply [task_apply]: "settle p s = (s, p)"
  by (simp add: settle_def)

lemma resolve_apply [task_apply]: "resolve x s = (s, Fulfilled x)"
  by (simp add: resolve_def settle_def)

lemma reject_apply [task_apply]: "reject e s = (s, Rejected e)"
  by (simp add: reject_def settle_def)

lemma start_apply [task_apply]: "start m k s = k (snd (m s)) (fst (m s))"
  by (simp add: start_def split: prod.splits)

lemma await_apply [task_apply]:
  "await m f s =
     (case snd (m s) of Fulfilled x \<Rightarrow> f x (fst (m s))
      | Rejected e \<Rightarrow> (fst (m s), Rejected e)
      | Pending \<Rightarrow> (fst (m s), Pending))"
  by (simp add: await_def start_def awaitp_def reject_def settle_def
      split: prod.splits promise.splits)

lemma await_Fulfilled: "m s = (s', Fulfilled x) \<Longrightarrow> await m f s = f x s'"
  by (simp add: await_apply)

lemma await_Rejected: "m s = (s', Rejected e) \<Longrightarrow> await m f s = (s', Rejected e)"
  by (simp add: await_apply)

lemma await_Pending: "m s = (s', Pending) \<Longrightarrow> await m f s = (s', Pending)"
  by (simp add: await_apply)

lemma await_resolve [simp]: "await (resolve x) f = f x"
  by (rule ext) (simp add: await_apply task_apply)

lemma await_reject [simp]: "await (reject e) f = reject e"
  by (rule ext) (simp add: await_apply task_apply)

lemma await_settle_Pending [simp]: "await (settle Pending) f = settle Pending"
  by (rule ext) (simp add: await_apply task_apply)

lemma await_resolve_right [simp]: "await m resolve = m"
proof (rule ext)
  fix s
  show "await m resolve s = m s"
    by (cases "m s") (simp add: await_apply task_apply split: promise.splits)
qed

lemma await_assoc: "await (await m f) g = await m (\<lambda>x. await (f x) g)"
  by (rule ext) (simp add: await_apply split: promise.splits)

lemma await_eq_Fulfilled_iff:
  "await m f s = (t, Fulfilled y) \<longleftrightarrow>
     (\<exists>x s'. m s = (s', Fulfilled x) \<and> f x s' = (t, Fulfilled y))"
  by (cases "m s") (auto simp: await_apply split: promise.splits)

lemma await_eq_Rejected_iff:
  "await m f s = (t, Rejected e) \<longleftrightarrow>
     m s = (t, Rejected e) \<or> (\<exists>x s'. m s = (s', Fulfilled x) \<and> f x s' = (t, Rejected e))"
  by (cases "m s") (auto simp: await_apply split: promise.splits)

lemma await_eq_Pending_iff:
  "await m f s = (t, Pending) \<longleftrightarrow>
     m s = (t, Pending) \<or> (\<exists>x s'. m s = (s', Fulfilled x) \<and> f x s' = (t, Pending))"
  by (cases "m s") (auto simp: await_apply split: promise.splits)

lemma try_catch_apply [task_apply]:
  "try_catch m h s =
     (case snd (m s) of Rejected e \<Rightarrow> h e (fst (m s)) | p \<Rightarrow> (fst (m s), p))"
  by (simp add: try_catch_def start_def settle_def split: prod.splits promise.splits)

lemma try_catch_resolve [simp]: "try_catch (resolve x) h = resolve x"
  by (rule ext) (simp add: try_catch_apply task_apply)

lemma try_catch_reject [simp]: "try_catch (reject e) h = h e"
  by (rule ext) (simp add: try_catch_apply task_apply)

lemma awaitp_resolve [simp]: "awaitp p resolve = settle p"
  by (cases p) (simp_all add: awaitp_def resolve_def reject_def)

lemma awaitp_apply [task_apply]:
  "awaitp p f s =
     (case p of Fulfilled x \<Rightarrow> f x s | Rejected e \<Rightarrow> (s, Rejected e) | Pending \<Rightarrow> (s, Pending))"
  by (simp add: awaitp_def reject_def settle_def split: promise.splits)

lemma both_map_Fulfilled [simp]:
  "both p (Fulfilled y) = map_promise (\<lambda>x. (x, y)) p"
  by (cases p) simp_all

lemma all_tasks_Nil [simp]: "all_tasks [] = resolve []"
  by (rule ext) (simp add: all_tasks_def task_apply)

lemma all_tasks_apply [task_apply]:
  "all_tasks ts s = (fst (start_all ts s), promise_all (snd (start_all ts s)))"
  by (simp add: all_tasks_def split_beta)

lemma start_all_length [simp]: "length (snd (start_all ts s)) = length ts"
  by (induction ts arbitrary: s) (simp_all add: split_beta)

section \<open>Promise.all with settle times\<close>

lemma rejections_mem: "(t, e) \<in> set (rejections tps) \<longleftrightarrow> (t, Rejected e) \<in> set tps"
  by (induction tps rule: rejections.induct) auto

lemma first_rejection_mem:
  "first_rejection tps = Some e \<Longrightarrow> \<exists>t. (t, Rejected e) \<in> set tps"
proof -
  assume a: "first_rejection tps = Some e"
  then obtain r rs where rs: "rejections tps = r # rs" and "e = snd (arg_min_list fst (r # rs))"
    by (auto simp: first_rejection_def split: list.splits)
  moreover have "arg_min_list fst (r # rs) \<in> set (r # rs)"
    by (rule arg_min_list_in) simp
  ultimately have "(fst (arg_min_list fst (r # rs)), e) \<in> set (rejections tps)"
    by simp
  then show ?thesis
    by (auto simp: rejections_mem)
qed

lemma first_rejection_None_iff:
  "first_rejection tps = None \<longleftrightarrow> (\<forall>t e. (t, Rejected e) \<notin> set tps)"
proof -
  have "rejections tps = [] \<longleftrightarrow> (\<forall>t e. (t, e) \<notin> set (rejections tps))"
    by (cases "rejections tps") auto
  then show ?thesis
    by (auto simp: first_rejection_def rejections_mem split: list.splits)
qed

lemma promise_all_at_Nil [simp]: "promise_all_at ts [] = Fulfilled []"
  by (simp add: promise_all_at_def first_rejection_def)

lemma promise_all_at_Rejected_mem:
  "promise_all_at ts ps = Rejected e \<Longrightarrow> Rejected e \<in> set ps"
  by (auto simp: promise_all_at_def split: option.splits
      dest: promise_all_Rejected_mem first_rejection_mem set_zip_rightD)

lemma promise_all_at_Fulfilled_iff:
  "promise_all_at ts ps = Fulfilled xs \<longleftrightarrow> promise_all ps = Fulfilled xs"
  by (auto simp: promise_all_at_def promise_all_Fulfilled_iff split: option.splits
      dest!: first_rejection_mem set_zip_rightD)

lemma promise_all_at_Pending_iff:
  "promise_all_at ts ps = Pending \<longleftrightarrow> promise_all ps = Pending"
  by (auto simp: promise_all_at_def promise_all_Pending_iff split: option.splits
      dest!: first_rejection_mem set_zip_rightD)

lemma promise_all_at_rejects_iff:
  "(\<exists>e. promise_all_at ts ps = Rejected e) \<longleftrightarrow> (\<exists>e. promise_all ps = Rejected e)"
proof -
  have "(\<exists>e. q = Rejected e) \<longleftrightarrow> q \<noteq> Pending \<and> (\<forall>xs. q \<noteq> Fulfilled xs)" for q :: "'a list promise"
    by (cases q) auto
  then show ?thesis
    by (simp add: promise_all_at_Fulfilled_iff promise_all_at_Pending_iff)
qed

lemma promise_all_at_no_rejection:
  "\<forall>e. Rejected e \<notin> set ps \<Longrightarrow> promise_all_at ts ps = promise_all ps"
  by (auto simp: promise_all_at_def split: option.splits dest!: first_rejection_mem set_zip_rightD)

lemma arg_min_list_const:
  "arg_min_list (\<lambda>x. c :: nat) (x # xs) = x"
  by (induction xs arbitrary: x) (simp_all add: Let_def)

text \<open>
  The rejection that \<open>promise_all_at\<close> reports is one whose time is least
  (\<open>promise_all_at_first\<close>); when all promises settle at the same time it is the first in
  the list, which is what \<open>promise_all\<close> reports (\<open>promise_all_at_same_time\<close>).
\<close>

lemma arg_min_list_least:
  "xs \<noteq> [] \<Longrightarrow> x \<in> set xs \<Longrightarrow> f (arg_min_list f xs) \<le> (f x :: nat)"
proof (induction f xs rule: arg_min_list.induct)
  case (1 f y)
  then show ?case by simp
next
  case (2 f y z zs)
  then show ?case
    by (auto simp: Let_def)
next
  case (3 f)
  then show ?case by simp
qed

lemma first_rejection_least:
  assumes "first_rejection tps = Some e"
  shows "\<exists>t. (t, Rejected e) \<in> set tps \<and> (\<forall>t' e'. (t', Rejected e') \<in> set tps \<longrightarrow> t \<le> t')"
proof -
  from assms obtain r rs where rs: "rejections tps = r # rs"
    and e: "e = snd (arg_min_list fst (r # rs))"
    by (auto simp: first_rejection_def split: list.splits)
  let ?m = "arg_min_list fst (r # rs)"
  have "?m \<in> set (r # rs)"
    by (rule arg_min_list_in) simp
  with rs e have m: "(fst ?m, Rejected e) \<in> set tps"
    by (simp add: rejections_mem [symmetric])
  have "fst ?m \<le> t'" if "(t', Rejected e') \<in> set tps" for t' e'
  proof -
    from that rs have "(t', e') \<in> set (r # rs)"
      by (simp add: rejections_mem [symmetric])
    then show ?thesis
      using arg_min_list_least [of "r # rs" "(t', e')" fst] by simp
  qed
  with m show ?thesis
    by blast
qed

lemma promise_all_at_first:
  assumes "promise_all_at ts ps = Rejected e" and "length ts = length ps"
  shows "\<exists>i < length ps. ps ! i = Rejected e \<and>
    (\<forall>j < length ps. \<forall>e'. ps ! j = Rejected e' \<longrightarrow> ts ! i \<le> ts ! j)"
proof (cases "first_rejection (zip ts ps)")
  case None
  with assms(1) have "promise_all ps = Rejected e"
    by (simp add: promise_all_at_def)
  then have "Rejected e \<in> set ps"
    by (rule promise_all_Rejected_mem)
  then obtain i where "i < length ps" and "ps ! i = Rejected e"
    by (auto simp: in_set_conv_nth)
  with None assms(2) have False
    by (auto simp: first_rejection_None_iff in_set_zip)
  then show ?thesis ..
next
  case (Some e')
  with assms(1) have e': "e' = e"
    by (simp add: promise_all_at_def)
  from first_rejection_least [OF Some] obtain t where t: "(t, Rejected e') \<in> set (zip ts ps)"
    and least: "\<forall>t' e''. (t', Rejected e'') \<in> set (zip ts ps) \<longrightarrow> t \<le> t'"
    by blast
  from t obtain i where i: "i < length ps" "ts ! i = t" "ps ! i = Rejected e'"
    by (auto simp: in_set_zip)
  have "ts ! i \<le> ts ! j" if "j < length ps" "ps ! j = Rejected e''" for j e''
  proof -
    from that assms(2) have "(ts ! j, Rejected e'') \<in> set (zip ts ps)"
      by (auto simp: in_set_zip)
    with least i show ?thesis
      by auto
  qed
  with i e' show ?thesis
    by blast
qed

lemma arg_min_list_same:
  "(\<forall>y \<in> set (x # xs). f y = (c :: nat)) \<Longrightarrow> arg_min_list f (x # xs) = x"
  by (induction xs arbitrary: x) (auto simp: Let_def)

lemma promise_all_rejections:
  "rejections (zip ts ps) = (t, e) # rs \<Longrightarrow> length ts = length ps \<Longrightarrow>
   promise_all ps = Rejected e"
proof (induction ps arbitrary: ts)
  case Nil
  then show ?case by simp
next
  case (Cons p ps)
  then obtain u us where ts: "ts = u # us" and len: "length us = length ps"
    by (cases ts) auto
  show ?case
  proof (cases p)
    case (Rejected e')
    with Cons.prems ts show ?thesis by simp
  next
    case Pending
    with Cons.prems ts have "rejections (zip us ps) = (t, e) # rs"
      by simp
    with Cons.IH len Pending show ?thesis by simp
  next
    case (Fulfilled x)
    with Cons.prems ts have "rejections (zip us ps) = (t, e) # rs"
      by simp
    with Cons.IH len Fulfilled show ?thesis by simp
  qed
qed

lemma promise_all_at_same_time:
  "promise_all_at (map (\<lambda>p. c) ps) ps = promise_all ps"
proof (cases "rejections (zip (map (\<lambda>p. c) ps) ps)")
  case Nil
  then show ?thesis
    by (simp add: promise_all_at_def first_rejection_def)
next
  case (Cons r rs)
  obtain t e where r: "r = (t, e)"
    by (cases r)
  have "\<forall>x \<in> set (r # rs). fst x = c"
  proof
    fix x assume x: "x \<in> set (r # rs)"
    obtain a b where ab: "x = (a, b)"
      by (cases x)
    from x have "(a, b) \<in> set (rejections (zip (map (\<lambda>p. c) ps) ps))"
      unfolding Cons ab .
    then have "(a, Rejected b) \<in> set (zip (map (\<lambda>p. c) ps) ps)"
      by (simp only: rejections_mem)
    then show "fst x = c"
      by (auto simp: ab in_set_zip)
  qed
  then have "arg_min_list fst (r # rs) = r"
    by (rule arg_min_list_same)
  with Cons r show ?thesis
    using promise_all_rejections [of "map (\<lambda>p. c) ps" ps t e rs]
    by (simp add: promise_all_at_def first_rejection_def)
qed

lemma all_tasks_at_apply [task_apply]:
  "all_tasks_at ts tasks s = (fst (start_all tasks s), promise_all_at ts (snd (start_all tasks s)))"
  by (simp add: all_tasks_at_def split_beta)

lemma start_all_append:
  "start_all (ts @ us) s =
     (fst (start_all us (fst (start_all ts s))),
      snd (start_all ts s) @ snd (start_all us (fst (start_all ts s))))"
  by (induction ts arbitrary: s) (simp_all add: split_beta)

text \<open>
  The \<^verbatim>\<open>reduce\<close> idiom over promises, \<^verbatim>\<open>xs.reduce(async (chain, x) => { await chain; ... },
  Promise.resolve())\<close>, is a left fold over tasks.  It is the sequential loop \<open>seq_tasks\<close>.
\<close>

lemma foldl_await_chain:
  "foldl (\<lambda>chain x. await chain (\<lambda>_. f x)) c xs = await c (\<lambda>_. seq_tasks f xs)"
proof (induction xs arbitrary: c)
  case Nil
  show ?case by simp
next
  case (Cons x xs)
  show ?case by (simp add: Cons.IH await_assoc)
qed

lemma foldl_await_seq_tasks:
  "foldl (\<lambda>chain x. await chain (\<lambda>_. f x)) (resolve ()) xs = seq_tasks f xs"
  by (simp add: foldl_await_chain)

lemma seq_tasks_append:
  "seq_tasks f (xs @ ys) = await (seq_tasks f xs) (\<lambda>_. seq_tasks f ys)"
  by (induction xs) (simp_all add: await_assoc)

section \<open>Lemmas on strings\<close>

lemma re_test_iff_sublist: "re_test pat s \<longleftrightarrow> sublist pat s"
  by (induction s) (auto simp: sublist_Cons_right)

lemma re_test_append: "re_test pat (ps @ pat @ ss)"
  by (simp add: re_test_iff_sublist)

lemma re_test_Nil [simp]: "re_test [] s"
  by (simp add: re_test_iff_sublist)

lemma digit_val_digit_char: "d < 10 \<Longrightarrow> digit_val (digit_char d) = d"
  by (simp add: digit_val_def digit_char_def of_char_of)

lemma show_nat_nonempty: "show_nat n \<noteq> []"
  by (subst show_nat.simps) simp

lemma read_nat_snoc: "read_nat (cs @ [c]) = 10 * read_nat cs + digit_val c"
  by (simp add: read_nat_def)

lemma read_show_nat [simp]: "read_nat (show_nat n) = n"
proof (induction n rule: show_nat.induct)
  case (1 n)
  show ?case
  proof (cases "n < 10")
    case True
    then show ?thesis
      by (subst show_nat.simps) (simp add: read_nat_def digit_val_digit_char)
  next
    case False
    with "1.IH" have "read_nat (show_nat (n div 10)) = n div 10" by simp
    with False show ?thesis
      by (subst show_nat.simps) (simp add: read_nat_snoc digit_val_digit_char)
  qed
qed

lemma show_nat_inject [simp]: "show_nat m = show_nat n \<longleftrightarrow> m = n"
  by (metis read_show_nat)

end
