(* ===== verification/World.thy ===== *)
theory World
  imports JS_Prelude
begin

text \<open>
  What the script shares with the outside: the handles it gets from its three libraries
  (selenium-assistant, mocha, express/http), the effects it has on them, and the answers
  they give.

  \<^item> \<open>browser\<close>, \<open>driver\<close>, \<open>suite\<close>, \<open>mocha\<close>, \<open>server\<close>: the objects the script holds, with
    the fields it reads or writes.  A timeout that the script never set is \<open>None\<close>.
  \<^item> \<open>event\<close>: one constructor per call that is visible outside the process; \<open>proc\<close> is
    the process state: the events so far (\<open>trace\<close>, oldest first) and the next fresh
    object identity (\<open>fresh\<close>).
  \<^item> \<open>env\<close>: the answers of the outside, one field per library call whose result the
    script depends on, and the times at which the answers of the concurrent calls arrive
    (\<open>sessionTime\<close>, \<open>readdirTime\<close>, \<open>killTime\<close>).  They are parameters of every theorem.
  \<^item> the library calls themselves, as tasks over \<open>proc\<close>.
  \<^item> \<open>wf_proc\<close>: every identity in the trace is below \<open>fresh\<close> (\<open>ids_below\<close> is the same
    for a list of events); \<open>extends\<close>: a later state only adds events and identities.
  \<^item> The server has no failure path in the script: the promise of \<^verbatim>\<open>startServer\<close> is
    resolved by the \<^verbatim>\<open>listening\<close> event or never, so \<open>listenResult\<close> is an option.
  \<^item> Creating a driver has two ways to fail: \<^verbatim>\<open>getSeleniumDriver\<close> throws (\<open>driverResult\<close>),
    or it returns a driver whose session fails later.  A driver is a thenable, so
    \<^verbatim>\<open>Promise.all\<close> waits for its session: \<open>session\<close> is the promise it waits for, fulfilled
    with the driver, rejected, or pending for ever (\<open>sessionResult\<close>).  A driver that is
    no thenable is one whose session is fulfilled.
  \<^item> A run of Mocha reports its number of failures to the callback of \<^verbatim>\<open>mocha.run\<close>, or
    never calls it (\<open>runResult\<close> is \<open>None\<close>).
  \<^item> \<^verbatim>\<open>require\<close> of a module returns its exports or throws (\<open>moduleResult\<close> is the error).
    The exports are not values of the model: the calls into a module are the definitions
    of this theory.
  \<^item> \<open>outcome\<close>: how the process ends: with a code, with a rejection that no handler took
    (\<open>Unhandled\<close>), with an exception thrown by the module body itself (\<open>Uncaught\<close>), or
    never (\<open>Hung\<close>).
\<close>

named_theorems lib_defs \<open>definitions of the library calls\<close>
named_theorems extends_intros \<open>each operation only adds events\<close>
named_theorems wf_intros \<open>each operation keeps the trace well formed\<close>

section \<open>Handles\<close>

record browser =
  releaseName :: string
  browserId :: string
  arguments :: "string list"

record driver =
  driverId :: nat
  ofBrowser :: browser
  scriptTimeout :: "nat option"

record suite =
  title :: string
  ctxDriver :: "driver option"
  ctxAddress :: "string option"

record mocha =
  mochaId :: nat
  files :: "string list"
  suiteTimeout :: "nat option"
  suites :: "suite list"

record server =
  port :: nat
  staticRoot :: string

section \<open>Events and process state\<close>

datatype event =
    Listen string
  | GetDriver nat browser
  | SetScriptTimeout nat nat
  | ReadDir string
  | Require nat string
  | Run mocha
  | ConsoleLog string
  | ConsoleError jsval
  | KillDriver nat
  | CloseServer
  | ProcessExit nat

record proc =
  trace :: "event list"
  fresh :: nat

datatype outcome = Exit nat | Unhandled jsval | Uncaught jsval | Hung

definition init_proc :: proc where
  "init_proc = \<lparr>trace = [], fresh = 0\<rparr>"

definition log :: "event \<Rightarrow> proc \<Rightarrow> proc" where
  "log ev s = s\<lparr>trace := trace s @ [ev]\<rparr>"

definition logs :: "event list \<Rightarrow> proc \<Rightarrow> proc" where
  "logs evs s = s\<lparr>trace := trace s @ evs\<rparr>"

definition advance :: "nat \<Rightarrow> event list \<Rightarrow> proc \<Rightarrow> proc" where
  "advance n evs s = \<lparr>trace = trace s @ evs, fresh = fresh s + n\<rparr>"

definition emit :: "event \<Rightarrow> (proc, unit) task" where
  "emit ev = (\<lambda>s. (log ev s, Fulfilled ()))"

section \<open>Answers of the outside\<close>

record env =
  moduleResult :: "string \<Rightarrow> jsval option"
  localBrowsers :: "browser list"
  listenResult :: "nat option"
  driverResult :: "browser \<Rightarrow> jsval option"
  sessionResult :: "driver \<Rightarrow> unit promise"
  readdirResult :: "string \<Rightarrow> string list promise"
  requireResult :: "nat \<Rightarrow> string \<Rightarrow> jsval + string list"
  runResult :: "mocha \<Rightarrow> nat option"
  killResult :: "driver \<Rightarrow> unit promise"
  sessionTime :: "driver \<Rightarrow> nat"
  readdirTime :: "string \<Rightarrow> nat"
  killTime :: "driver \<Rightarrow> nat"

section \<open>Library calls\<close>

definition require :: "env \<Rightarrow> string \<Rightarrow> jsval + unit" where
  [lib_defs]: "require env name = (case moduleResult env name of Some e \<Rightarrow> Inl e | None \<Rightarrow> Inr ())"

definition listen :: "env \<Rightarrow> string \<Rightarrow> (proc, server) task" where
  [lib_defs]: "listen env dir =
     (\<lambda>s. (log (Listen dir) s,
            map_promise (\<lambda>p. \<lparr>port = p, staticRoot = dir\<rparr>) (resolved_when (listenResult env))))"

definition closeServer :: "server \<Rightarrow> (proc, unit) task" where
  [lib_defs]: "closeServer srv = emit CloseServer"

definition addArguments :: "string \<Rightarrow> browser \<Rightarrow> browser" where
  [lib_defs]: "addArguments a b = b\<lparr>arguments := arguments b @ [a]\<rparr>"

definition getSeleniumDriver :: "env \<Rightarrow> browser \<Rightarrow> (proc, driver) task" where
  [lib_defs]: "getSeleniumDriver env b =
     (\<lambda>s. case driverResult env b of
             Some e \<Rightarrow> (s, Rejected e)
           | None \<Rightarrow>
               (s\<lparr>trace := trace s @ [GetDriver (fresh s) b], fresh := Suc (fresh s)\<rparr>,
                Fulfilled \<lparr>driverId = fresh s, ofBrowser = b, scriptTimeout = None\<rparr>))"

definition setScriptTimeout :: "nat \<Rightarrow> driver \<Rightarrow> (proc, driver) task" where
  [lib_defs]: "setScriptTimeout ms d =
     (\<lambda>s. (log (SetScriptTimeout (driverId d) ms) s,
            Fulfilled (d\<lparr>scriptTimeout := Some ms\<rparr>)))"

definition session :: "env \<Rightarrow> driver \<Rightarrow> driver promise" where
  [lib_defs]: "session env d = map_promise (\<lambda>u. d) (sessionResult env d)"

definition killWebDriver :: "env \<Rightarrow> driver \<Rightarrow> (proc, unit) task" where
  [lib_defs]: "killWebDriver env d = (\<lambda>s. (log (KillDriver (driverId d)) s, killResult env d))"

definition readdir :: "env \<Rightarrow> string \<Rightarrow> (proc, string list) task" where
  [lib_defs]: "readdir env path = (\<lambda>s. (log (ReadDir path) s, readdirResult env path))"

definition new_Mocha :: "(proc, mocha) task" where
  [lib_defs]: "new_Mocha =
     (\<lambda>s. (s\<lparr>fresh := Suc (fresh s)\<rparr>,
            Fulfilled \<lparr>mochaId = fresh s, files = [], suiteTimeout = None, suites = []\<rparr>))"

definition addFile :: "string \<Rightarrow> mocha \<Rightarrow> mocha" where
  [lib_defs]: "addFile f m = m\<lparr>files := files m @ [f]\<rparr>"

definition new_suite :: "string \<Rightarrow> suite" where
  [lib_defs]: "new_suite t = \<lparr>title = t, ctxDriver = None, ctxAddress = None\<rparr>"

fun load_each :: "env \<Rightarrow> string list \<Rightarrow> mocha \<Rightarrow> (proc, mocha) task" where
  "load_each env [] m = resolve m"
| "load_each env (f # fs) m =
     await (emit (Require (mochaId m) f)) (\<lambda>_.
       case requireResult env (mochaId m) f of
         Inl e \<Rightarrow> reject e
       | Inr ts \<Rightarrow> load_each env fs (m\<lparr>suites := suites m @ map new_suite ts\<rparr>))"

definition loadFiles :: "env \<Rightarrow> mocha \<Rightarrow> (proc, mocha) task" where
  [lib_defs]: "loadFiles env m = load_each env (files m) m"

definition set_timeout :: "nat \<Rightarrow> mocha \<Rightarrow> mocha" where
  [lib_defs]: "set_timeout ms m = m\<lparr>suiteTimeout := Some ms\<rparr>"

definition mocha_run :: "env \<Rightarrow> mocha \<Rightarrow> (proc, nat) task" where
  [lib_defs]: "mocha_run env m = (\<lambda>s. (log (Run m) s, resolved_when (runResult env m)))"

definition console_log :: "string \<Rightarrow> (proc, unit) task" where
  [lib_defs]: "console_log msg = emit (ConsoleLog msg)"

definition console_error :: "jsval \<Rightarrow> (proc, unit) task" where
  [lib_defs]: "console_error v = emit (ConsoleError v)"

definition process_exit :: "nat \<Rightarrow> proc \<Rightarrow> proc \<times> outcome" where
  [lib_defs]: "process_exit code s = (log (ProcessExit code) s, Exit code)"

section \<open>Well-formed traces, growing states\<close>

fun event_ids :: "event \<Rightarrow> nat list" where
  "event_ids (GetDriver i b) = [i]"
| "event_ids (SetScriptTimeout i ms) = [i]"
| "event_ids (Require i f) = [i]"
| "event_ids (Run m) = [mochaId m]"
| "event_ids (KillDriver i) = [i]"
| "event_ids ev = []"

fun is_teardown :: "event \<Rightarrow> bool" where
  "is_teardown (KillDriver i) = True"
| "is_teardown CloseServer = True"
| "is_teardown ev = False"

fun runs :: "event list \<Rightarrow> mocha list" where
  "runs [] = []"
| "runs (Run m # evs) = m # runs evs"
| "runs (ev # evs) = runs evs"

definition wf_proc :: "proc \<Rightarrow> bool" where
  "wf_proc s \<longleftrightarrow> list_all (\<lambda>ev. list_all (\<lambda>i. i < fresh s) (event_ids ev)) (trace s)"

definition extends :: "proc \<Rightarrow> proc \<Rightarrow> bool" where
  "extends s s' \<longleftrightarrow> prefix (trace s) (trace s') \<and> fresh s \<le> fresh s'"

definition added :: "proc \<Rightarrow> proc \<Rightarrow> event list" where
  "added s s' = drop (length (trace s)) (trace s')"

definition ids_below :: "nat \<Rightarrow> event list \<Rightarrow> bool" where
  "ids_below n evs \<longleftrightarrow> list_all (\<lambda>ev. list_all (\<lambda>i. i < n) (event_ids ev)) evs"

section \<open>Lemmas\<close>

text \<open>
  Every state change of the model is an \<open>advance\<close>: some events are appended and some
  identities are used up.  The lemmas below bring each change into that form.
\<close>

lemma trace_advance [simp]: "trace (advance n evs s) = trace s @ evs"
  by (simp add: advance_def)

lemma fresh_advance [simp]: "fresh (advance n evs s) = fresh s + n"
  by (simp add: advance_def)

lemma advance_0_Nil [simp]: "advance 0 [] s = s"
  by (simp add: advance_def)

lemma advance_advance [simp]:
  "advance m bs (advance n as s) = advance (n + m) (as @ bs) s"
  by (simp add: advance_def)

lemma log_advance: "log ev s = advance 0 [ev] s"
  by (simp add: log_def advance_def)

lemma logs_advance: "logs evs s = advance 0 evs s"
  by (simp add: logs_def advance_def)

lemma alloc_advance: "s\<lparr>fresh := Suc (fresh s)\<rparr> = advance (Suc 0) [] s"
  by (simp add: advance_def)

lemma alloc_log_advance:
  "s\<lparr>trace := trace s @ evs, fresh := Suc (fresh s)\<rparr> = advance (Suc 0) evs s"
  by (simp add: advance_def)

lemmas to_advance = log_advance logs_advance alloc_advance alloc_log_advance

lemma advance_eq_iff [simp]:
  "advance n as s = advance m bs s \<longleftrightarrow> n = m \<and> as = bs"
  by (auto simp: advance_def)

lemma trace_log [simp]: "trace (log ev s) = trace s @ [ev]"
  by (simp add: log_def)

lemma fresh_log [simp]: "fresh (log ev s) = fresh s"
  by (simp add: log_def)

lemma trace_logs [simp]: "trace (logs evs s) = trace s @ evs"
  by (simp add: logs_def)

lemma fresh_logs [simp]: "fresh (logs evs s) = fresh s"
  by (simp add: logs_def)

lemma emit_apply [task_apply]: "emit ev s = (log ev s, Fulfilled ())"
  by (simp add: emit_def)

lemma extends_refl [simp, extends_intros]: "extends s s"
  by (simp add: extends_def)

lemma extends_trans [trans]: "extends s t \<Longrightarrow> extends t u \<Longrightarrow> extends s u"
  by (auto simp: extends_def)

lemma extends_advance [simp, extends_intros]: "extends s (advance n evs s)"
  by (simp add: extends_def)

lemma extends_iff_advance: "extends s t \<longleftrightarrow> (\<exists>n evs. t = advance n evs s)"
proof
  assume "extends s t"
  then obtain evs where "trace t = trace s @ evs" and "fresh s \<le> fresh t"
    by (auto simp: extends_def prefix_def)
  then have "t = advance (fresh t - fresh s) evs s"
    by (simp add: advance_def)
  then show "\<exists>n evs. t = advance n evs s" by blast
qed auto

lemma added_self [simp]: "added s s = []"
  by (simp add: added_def)

lemma added_advance [simp]: "added s (advance n evs s) = evs"
  by (simp add: added_def)

lemma extends_trace: "extends s s' \<Longrightarrow> trace s' = trace s @ added s s'"
  by (auto simp: extends_iff_advance)

lemma added_trans:
  "extends s t \<Longrightarrow> extends t u \<Longrightarrow> added s u = added s t @ added t u"
  by (auto simp: extends_def added_def prefix_def)

lemma wf_init_proc [simp, wf_intros]: "wf_proc init_proc"
  by (simp add: wf_proc_def init_proc_def)

lemma wf_proc_advance [wf_intros]:
  assumes "wf_proc s"
    and "list_all (\<lambda>ev. list_all (\<lambda>i. i < fresh s + n) (event_ids ev)) evs"
  shows "wf_proc (advance n evs s)"
  using assms unfolding wf_proc_def list_all_iff by fastforce

lemma wf_proc_ids:
  "wf_proc s \<Longrightarrow> ev \<in> set (trace s) \<Longrightarrow> i \<in> set (event_ids ev) \<Longrightarrow> i < fresh s"
  unfolding wf_proc_def list_all_iff by blast

lemma runs_append [simp]: "runs (as @ bs) = runs as @ runs bs"
  by (induction as rule: runs.induct) simp_all

lemma runs_Nil_iff: "runs evs = [] \<longleftrightarrow> list_all (\<lambda>ev. \<forall>m. ev \<noteq> Run m) evs"
  by (induction evs rule: runs.induct) simp_all

section \<open>Library calls as advances\<close>

lemma listen_apply:
  "listen env dir s =
     (advance 0 [Listen dir] s,
      map_promise (\<lambda>p. \<lparr>port = p, staticRoot = dir\<rparr>) (resolved_when (listenResult env)))"
  by (simp add: listen_def to_advance)

lemma closeServer_apply: "closeServer srv s = (advance 0 [CloseServer] s, Fulfilled ())"
  by (simp add: closeServer_def emit_def to_advance)

lemma console_log_apply: "console_log msg s = (advance 0 [ConsoleLog msg] s, Fulfilled ())"
  by (simp add: console_log_def emit_def to_advance)

lemma console_error_apply: "console_error v s = (advance 0 [ConsoleError v] s, Fulfilled ())"
  by (simp add: console_error_def emit_def to_advance)

lemma process_exit_apply: "process_exit code s = (advance 0 [ProcessExit code] s, Exit code)"
  by (simp add: process_exit_def to_advance)

lemma killWebDriver_apply:
  "killWebDriver env d s = (advance 0 [KillDriver (driverId d)] s, killResult env d)"
  by (simp add: killWebDriver_def to_advance)

lemma readdir_apply: "readdir env path s = (advance 0 [ReadDir path] s, readdirResult env path)"
  by (simp add: readdir_def to_advance)

lemma new_Mocha_apply:
  "new_Mocha s =
     (advance (Suc 0) [] s,
      Fulfilled \<lparr>mochaId = fresh s, files = [], suiteTimeout = None, suites = []\<rparr>)"
  by (simp add: new_Mocha_def to_advance)

lemma mocha_run_apply:
  "mocha_run env m s = (advance 0 [Run m] s, resolved_when (runResult env m))"
  by (simp add: mocha_run_def to_advance)

lemma getSeleniumDriver_apply:
  "getSeleniumDriver env b s =
     (case driverResult env b of
        Some e \<Rightarrow> (s, Rejected e)
      | None \<Rightarrow>
          (advance (Suc 0) [GetDriver (fresh s) b] s,
           Fulfilled \<lparr>driverId = fresh s, ofBrowser = b, scriptTimeout = None\<rparr>))"
  by (simp add: getSeleniumDriver_def to_advance split: option.splits)

lemma setScriptTimeout_apply:
  "setScriptTimeout ms d s =
     (advance 0 [SetScriptTimeout (driverId d) ms] s, Fulfilled (d\<lparr>scriptTimeout := Some ms\<rparr>))"
  by (simp add: setScriptTimeout_def to_advance)

lemmas lib_apply = listen_apply closeServer_apply console_log_apply console_error_apply
  process_exit_apply killWebDriver_apply readdir_apply new_Mocha_apply mocha_run_apply
  getSeleniumDriver_apply setScriptTimeout_apply

section \<open>Identities in the trace\<close>

lemma ids_below_Nil [simp]: "ids_below n []"
  by (simp add: ids_below_def)

lemma ids_below_Cons [simp]:
  "ids_below n (ev # evs) \<longleftrightarrow> list_all (\<lambda>i. i < n) (event_ids ev) \<and> ids_below n evs"
  by (simp add: ids_below_def)

lemma ids_below_append [simp]: "ids_below n (as @ bs) \<longleftrightarrow> ids_below n as \<and> ids_below n bs"
  by (simp add: ids_below_def)

lemma ids_below_mono: "ids_below m evs \<Longrightarrow> m \<le> n \<Longrightarrow> ids_below n evs"
  unfolding ids_below_def list_all_iff by fastforce

lemma ids_belowI:
  "(\<And>ev. ev \<in> set evs \<Longrightarrow> event_ids ev = [] \<or> (\<exists>j. event_ids ev = [j] \<and> j < n)) \<Longrightarrow>
   ids_below n evs"
  unfolding ids_below_def list_all_iff by fastforce

lemma wf_proc_iff: "wf_proc s \<longleftrightarrow> ids_below (fresh s) (trace s)"
  by (simp add: wf_proc_def ids_below_def)

lemma wf_advance [wf_intros]:
  "wf_proc s \<Longrightarrow> ids_below (fresh s + n) evs \<Longrightarrow> wf_proc (advance n evs s)"
  by (auto simp: wf_proc_iff intro: ids_below_mono)

end
