(* ===== verification/Scenario.thy ===== *)
theory Scenario
  imports World
begin

text \<open>
  Concrete worlds, on which the theorems of the development are instantiated.

  \<open>demo_env\<close> is the scenario of the specification: three installed browsers of which one
  is a stable Chrome, two element directories of which \<^verbatim>\<open>unit-a\<close> holds an e2e test and
  \<^verbatim>\<open>unit-b\<close> does not, a server that listens on port 8080, suites that pass.  The other
  worlds differ from it in one answer each; \<open>thrown_env v\<close> is the family of worlds in
  which a test file throws the value \<open>v\<close> when it is loaded.  \<open>demo_server\<close>, \<open>demo_driver\<close>, \<open>demo_mocha\<close>
  and \<open>demo_build\<close> are the handles and the events of a discovery in these worlds.  The
  lemmas give the answers of each world, so that a proof evaluates an operation on a world
  without unfolding it.
\<close>

definition chrome :: browser where
  "chrome = \<lparr>releaseName = ''stable'', browserId = ''chrome'', arguments = []\<rparr>"

definition firefox :: browser where
  "firefox = \<lparr>releaseName = ''stable'', browserId = ''firefox'', arguments = []\<rparr>"

definition chrome_beta :: browser where
  "chrome_beta = \<lparr>releaseName = ''beta'', browserId = ''chrome'', arguments = []\<rparr>"

definition chrome_headless :: browser where
  "chrome_headless =
     \<lparr>releaseName = ''stable'', browserId = ''chrome'', arguments = [''--headless'']\<rparr>"

definition demo_fs :: "string \<Rightarrow> string list promise" where
  "demo_fs path =
     (if path = ''elements'' then Fulfilled [''unit-a'', ''unit-b'']
      else if path = ''elements/unit-a/'' then Fulfilled [''unit-a.js'', ''unit-a.e2etest.js'']
      else if path = ''elements/unit-b/'' then Fulfilled [''unit-b.js'']
      else Rejected (JError ''ENOENT''))"

definition demo_env :: env where
  "demo_env =
     \<lparr>moduleResult = (\<lambda>name. None),
      localBrowsers = [chrome, firefox, chrome_beta],
      listenResult = Some 8080,
      driverResult = (\<lambda>b. None),
      sessionResult = (\<lambda>d. Fulfilled ()),
      readdirResult = demo_fs,
      requireResult = (\<lambda>i f. Inr [''unit-a e2e'']),
      runResult = (\<lambda>m. Some 0),
      killResult = (\<lambda>d. Fulfilled ()),
      sessionTime = (\<lambda>d. 0),
      readdirTime = (\<lambda>path. 0),
      killTime = (\<lambda>d. 0)\<rparr>"

definition failing_env :: env where
  "failing_env = demo_env\<lparr>runResult := (\<lambda>m. Some 2)\<rparr>"

definition no_browser_env :: env where
  "no_browser_env = demo_env\<lparr>localBrowsers := [firefox, chrome_beta]\<rparr>"

definition two_chrome_env :: env where
  "two_chrome_env = demo_env\<lparr>localBrowsers := [chrome, firefox, chrome]\<rparr>"

definition broken_fs_env :: env where
  "broken_fs_env = demo_env\<lparr>readdirResult := (\<lambda>path. Rejected (JError ''ENOENT''))\<rparr>"

definition thrown_string_env :: env where
  "thrown_string_env = demo_env\<lparr>requireResult := (\<lambda>i f. Inl (JString ''boom''))\<rparr>"

definition thrown_error_env :: env where
  "thrown_error_env = demo_env\<lparr>requireResult := (\<lambda>i f. Inl (JError ''Error: boom''))\<rparr>"

definition thrown_env :: "jsval \<Rightarrow> env" where
  "thrown_env v = demo_env\<lparr>requireResult := (\<lambda>i f. Inl v)\<rparr>"

definition ghost_env :: env where
  "ghost_env = demo_env\<lparr>readdirResult :=
     (\<lambda>path. if path = ''elements'' then Fulfilled [''unit-a'', ''ghost''] else demo_fs path)\<rparr>"

definition deaf_server_env :: env where
  "deaf_server_env = demo_env\<lparr>listenResult := None\<rparr>"

definition no_driver_env :: env where
  "no_driver_env = demo_env\<lparr>localBrowsers := [chrome, chrome_headless],
     driverResult :=
       (\<lambda>b. if arguments b = [''--no-sandbox''] then None else Some (JError ''no driver''))\<rparr>"

definition stuck_kill_env :: env where
  "stuck_kill_env = demo_env\<lparr>killResult := (\<lambda>d. Rejected (JError ''kill failed''))\<rparr>"

definition void_kill_env :: env where
  "void_kill_env = demo_env\<lparr>killResult := (\<lambda>d. Rejected JUndefined)\<rparr>"

definition race_kill_env :: env where
  "race_kill_env = two_chrome_env\<lparr>killResult :=
     (\<lambda>d. if driverId d = 0 then Rejected (JError ''first kill failed'')
          else Rejected (JError ''second kill failed''))\<rparr>"

definition no_session_env :: env where
  "no_session_env = two_chrome_env\<lparr>sessionResult :=
     (\<lambda>d. if driverId d = 1 then Rejected (JError ''session not created'')
          else Fulfilled ())\<rparr>"

definition silent_run_env :: env where
  "silent_run_env = demo_env\<lparr>runResult := (\<lambda>m. None)\<rparr>"

definition cached_env :: env where
  "cached_env = two_chrome_env\<lparr>requireResult :=
     (\<lambda>i f. if i = 2 then Inr [''unit-a e2e''] else Inr [])\<rparr>"

definition no_module_env :: env where
  "no_module_env = demo_env\<lparr>moduleResult :=
     (\<lambda>name. if name = ''selenium-assistant''
        then Some (JError ''Error: Cannot find module selenium-assistant'') else None)\<rparr>"

definition demo_server :: server where
  "demo_server = \<lparr>port = 8080, staticRoot = ''docs''\<rparr>"

definition demo_driver :: driver where
  "demo_driver =
     \<lparr>driverId = 0, ofBrowser = chrome\<lparr>arguments := [''--no-sandbox'']\<rparr>,
      scriptTimeout = Some 60000\<rparr>"

definition second_driver :: driver where
  "second_driver = demo_driver\<lparr>driverId := 1\<rparr>"

definition demo_mocha :: "nat \<Rightarrow> mocha" where
  "demo_mocha i =
     \<lparr>mochaId = i, files = [''./elements/unit-a/unit-a.e2etest''], suiteTimeout = Some 60000,
      suites = [\<lparr>title = ''unit-a e2e'', ctxDriver = None, ctxAddress = None\<rparr>]\<rparr>"

definition demo_build :: "nat \<Rightarrow> event list" where
  "demo_build i =
     [ReadDir ''elements'', ReadDir ''elements/unit-a/'', ReadDir ''elements/unit-b/'',
      Require i ''./elements/unit-a/unit-a.e2etest'']"

lemmas scenario_defs = demo_env_def failing_env_def no_browser_env_def two_chrome_env_def
  broken_fs_env_def thrown_string_env_def thrown_error_env_def ghost_env_def deaf_server_env_def no_driver_env_def
  stuck_kill_env_def

section \<open>The answers of the demo world\<close>

lemma demo_env_simps [simp]:
  "localBrowsers demo_env = [chrome, firefox, chrome_beta]"
  "listenResult demo_env = Some 8080"
  "driverResult demo_env b = None"
  "sessionResult demo_env d = Fulfilled ()"
  "readdirResult demo_env = demo_fs"
  "requireResult demo_env i f = Inr [''unit-a e2e'']"
  "runResult demo_env m = Some 0"
  "killResult demo_env d = Fulfilled ()"
  by (simp_all add: demo_env_def)

lemma demo_fs_simps [simp]:
  "demo_fs ''elements'' = Fulfilled [''unit-a'', ''unit-b'']"
  "demo_fs ''elements/unit-a/'' = Fulfilled [''unit-a.js'', ''unit-a.e2etest.js'']"
  "demo_fs ''elements/unit-b/'' = Fulfilled [''unit-b.js'']"
  by (simp_all add: demo_fs_def)

lemma browser_simps [simp]:
  "releaseName chrome = ''stable''" "browserId chrome = ''chrome''" "arguments chrome = []"
  "releaseName firefox = ''stable''" "browserId firefox = ''firefox''"
  "releaseName chrome_beta = ''beta''" "browserId chrome_beta = ''chrome''"
  "releaseName chrome_headless = ''stable''" "browserId chrome_headless = ''chrome''"
  "arguments chrome_headless = [''--headless'']"
  by (simp_all add: chrome_def firefox_def chrome_beta_def chrome_headless_def)

lemma failing_env_simps [simp]:
  "localBrowsers failing_env = [chrome, firefox, chrome_beta]"
  "listenResult failing_env = Some 8080"
  "driverResult failing_env b = None"
  "sessionResult failing_env d = Fulfilled ()"
  "readdirResult failing_env = demo_fs"
  "requireResult failing_env i f = Inr [''unit-a e2e'']"
  "runResult failing_env m = Some 2"
  "killResult failing_env d = Fulfilled ()"
  by (simp_all add: failing_env_def)

lemma no_browser_env_simps [simp]:
  "localBrowsers no_browser_env = [firefox, chrome_beta]"
  "listenResult no_browser_env = Some 8080"
  "driverResult no_browser_env b = None"
  "sessionResult no_browser_env d = Fulfilled ()"
  "readdirResult no_browser_env = demo_fs"
  "requireResult no_browser_env i f = Inr [''unit-a e2e'']"
  "runResult no_browser_env m = Some 0"
  "killResult no_browser_env d = Fulfilled ()"
  by (simp_all add: no_browser_env_def)

lemma two_chrome_env_simps [simp]:
  "localBrowsers two_chrome_env = [chrome, firefox, chrome]"
  "listenResult two_chrome_env = Some 8080"
  "driverResult two_chrome_env b = None"
  "sessionResult two_chrome_env d = Fulfilled ()"
  "readdirResult two_chrome_env = demo_fs"
  "requireResult two_chrome_env i f = Inr [''unit-a e2e'']"
  "runResult two_chrome_env m = Some 0"
  "killResult two_chrome_env d = Fulfilled ()"
  by (simp_all add: two_chrome_env_def)

lemma broken_fs_env_simps [simp]:
  "localBrowsers broken_fs_env = [chrome, firefox, chrome_beta]"
  "listenResult broken_fs_env = Some 8080"
  "driverResult broken_fs_env b = None"
  "sessionResult broken_fs_env d = Fulfilled ()"
  "requireResult broken_fs_env i f = Inr [''unit-a e2e'']"
  "runResult broken_fs_env m = Some 0"
  "killResult broken_fs_env d = Fulfilled ()"
  "readdirResult broken_fs_env path = Rejected (JError ''ENOENT'')"
  by (simp_all add: broken_fs_env_def)

lemma thrown_string_env_simps [simp]:
  "localBrowsers thrown_string_env = [chrome, firefox, chrome_beta]"
  "listenResult thrown_string_env = Some 8080"
  "driverResult thrown_string_env b = None"
  "sessionResult thrown_string_env d = Fulfilled ()"
  "readdirResult thrown_string_env = demo_fs"
  "requireResult thrown_string_env i f = Inl (JString ''boom'')"
  "runResult thrown_string_env m = Some 0"
  "killResult thrown_string_env d = Fulfilled ()"
  by (simp_all add: thrown_string_env_def)

lemma thrown_error_env_simps [simp]:
  "localBrowsers thrown_error_env = [chrome, firefox, chrome_beta]"
  "listenResult thrown_error_env = Some 8080"
  "driverResult thrown_error_env b = None"
  "sessionResult thrown_error_env d = Fulfilled ()"
  "readdirResult thrown_error_env = demo_fs"
  "requireResult thrown_error_env i f = Inl (JError ''Error: boom'')"
  "runResult thrown_error_env m = Some 0"
  "killResult thrown_error_env d = Fulfilled ()"
  by (simp_all add: thrown_error_env_def)

lemma thrown_env_simps [simp]:
  "localBrowsers (thrown_env v) = [chrome, firefox, chrome_beta]"
  "listenResult (thrown_env v) = Some 8080"
  "driverResult (thrown_env v) b = None"
  "sessionResult (thrown_env v) d = Fulfilled ()"
  "readdirResult (thrown_env v) = demo_fs"
  "requireResult (thrown_env v) i f = Inl v"
  "runResult (thrown_env v) m = Some 0"
  "killResult (thrown_env v) d = Fulfilled ()"
  by (simp_all add: thrown_env_def)

lemma thrown_string_env_eq: "thrown_string_env = thrown_env (JString ''boom'')"
  by (simp add: thrown_string_env_def thrown_env_def)

lemma thrown_error_env_eq: "thrown_error_env = thrown_env (JError ''Error: boom'')"
  by (simp add: thrown_error_env_def thrown_env_def)

lemma deaf_server_env_simps [simp]:
  "localBrowsers deaf_server_env = [chrome, firefox, chrome_beta]"
  "listenResult deaf_server_env = None"
  "driverResult deaf_server_env b = None"
  "sessionResult deaf_server_env d = Fulfilled ()"
  "readdirResult deaf_server_env = demo_fs"
  "requireResult deaf_server_env i f = Inr [''unit-a e2e'']"
  "runResult deaf_server_env m = Some 0"
  "killResult deaf_server_env d = Fulfilled ()"
  by (simp_all add: deaf_server_env_def)

lemma stuck_kill_env_simps [simp]:
  "localBrowsers stuck_kill_env = [chrome, firefox, chrome_beta]"
  "listenResult stuck_kill_env = Some 8080"
  "driverResult stuck_kill_env b = None"
  "sessionResult stuck_kill_env d = Fulfilled ()"
  "readdirResult stuck_kill_env = demo_fs"
  "requireResult stuck_kill_env i f = Inr [''unit-a e2e'']"
  "runResult stuck_kill_env m = Some 0"
  "killResult stuck_kill_env d = Rejected (JError ''kill failed'')"
  by (simp_all add: stuck_kill_env_def)

lemma void_kill_env_simps [simp]:
  "localBrowsers void_kill_env = [chrome, firefox, chrome_beta]"
  "listenResult void_kill_env = Some 8080"
  "driverResult void_kill_env b = None"
  "sessionResult void_kill_env d = Fulfilled ()"
  "readdirResult void_kill_env = demo_fs"
  "requireResult void_kill_env i f = Inr [''unit-a e2e'']"
  "runResult void_kill_env m = Some 0"
  "killResult void_kill_env d = Rejected JUndefined"
  "moduleResult void_kill_env name = None"
  "readdirTime void_kill_env path = 0" "killTime void_kill_env d = 0"
  "sessionTime void_kill_env d = 0"
  by (simp_all add: void_kill_env_def demo_env_def)

lemma no_driver_env_simps [simp]:
  "localBrowsers no_driver_env = [chrome, chrome_headless]"
  "listenResult no_driver_env = Some 8080"
  "driverResult no_driver_env b =
     (if arguments b = [''--no-sandbox''] then None else Some (JError ''no driver''))"
  "killResult no_driver_env d = Fulfilled ()"
  "sessionResult no_driver_env d = Fulfilled ()"
  by (simp_all add: no_driver_env_def)

lemma race_kill_env_simps [simp]:
  "localBrowsers race_kill_env = [chrome, firefox, chrome]"
  "listenResult race_kill_env = Some 8080"
  "driverResult race_kill_env b = None"
  "sessionResult race_kill_env d = Fulfilled ()"
  "readdirResult race_kill_env = demo_fs"
  "requireResult race_kill_env i f = Inr [''unit-a e2e'']"
  "runResult race_kill_env m = Some 0"
  "killResult race_kill_env d =
     (if driverId d = 0 then Rejected (JError ''first kill failed'')
      else Rejected (JError ''second kill failed''))"
  by (simp_all add: race_kill_env_def two_chrome_env_def demo_env_def)

lemma no_session_env_simps [simp]:
  "localBrowsers no_session_env = [chrome, firefox, chrome]"
  "listenResult no_session_env = Some 8080"
  "driverResult no_session_env b = None"
  "sessionResult no_session_env d =
     (if driverId d = 1 then Rejected (JError ''session not created'') else Fulfilled ())"
  "sessionTime no_session_env d = 0"
  by (simp_all add: no_session_env_def two_chrome_env_def demo_env_def)

lemma silent_run_env_simps [simp]:
  "localBrowsers silent_run_env = [chrome, firefox, chrome_beta]"
  "listenResult silent_run_env = Some 8080"
  "driverResult silent_run_env b = None"
  "sessionResult silent_run_env d = Fulfilled ()"
  "readdirResult silent_run_env = demo_fs"
  "requireResult silent_run_env i f = Inr [''unit-a e2e'']"
  "runResult silent_run_env m = None"
  "killResult silent_run_env d = Fulfilled ()"
  by (simp_all add: silent_run_env_def demo_env_def)

lemma cached_env_simps [simp]:
  "localBrowsers cached_env = [chrome, firefox, chrome]"
  "listenResult cached_env = Some 8080"
  "driverResult cached_env b = None"
  "sessionResult cached_env d = Fulfilled ()"
  "readdirResult cached_env = demo_fs"
  "requireResult cached_env i f = (if i = 2 then Inr [''unit-a e2e''] else Inr [])"
  "runResult cached_env m = Some 0"
  "killResult cached_env d = Fulfilled ()"
  by (simp_all add: cached_env_def two_chrome_env_def demo_env_def)

lemma second_driver_simps [simp]:
  "driverId second_driver = 1"
  "ofBrowser second_driver = chrome\<lparr>arguments := [''--no-sandbox'']\<rparr>"
  "scriptTimeout second_driver = Some 60000"
  by (simp_all add: second_driver_def demo_driver_def)

lemma demo_driver_simps [simp]:
  "driverId demo_driver = 0"
  "ofBrowser demo_driver = chrome\<lparr>arguments := [''--no-sandbox'']\<rparr>"
  "scriptTimeout demo_driver = Some 60000"
  by (simp_all add: demo_driver_def)

lemma ghost_env_simps [simp]:
  "readdirResult ghost_env ''elements'' = Fulfilled [''unit-a'', ''ghost'']"
  "readdirResult ghost_env ''elements/unit-a/'' = Fulfilled [''unit-a.js'', ''unit-a.e2etest.js'']"
  "readdirResult ghost_env ''elements/ghost/'' = Rejected (JError ''ENOENT'')"
  by (simp_all add: ghost_env_def demo_fs_def)

lemma settle_time_simps [simp]:
  "readdirTime demo_env path = 0" "killTime demo_env d = 0"
  "sessionTime demo_env d = 0"
  "readdirTime failing_env path = 0" "killTime failing_env d = 0"
  "sessionTime failing_env d = 0"
  "readdirTime no_browser_env path = 0" "killTime no_browser_env d = 0"
  "sessionTime no_browser_env d = 0"
  "readdirTime two_chrome_env path = 0" "killTime two_chrome_env d = 0"
  "sessionTime two_chrome_env d = 0"
  "readdirTime broken_fs_env path = 0" "killTime broken_fs_env d = 0"
  "sessionTime broken_fs_env d = 0"
  "readdirTime thrown_string_env path = 0" "killTime thrown_string_env d = 0"
  "sessionTime thrown_string_env d = 0"
  "readdirTime thrown_error_env path = 0" "killTime thrown_error_env d = 0"
  "sessionTime thrown_error_env d = 0"
  "readdirTime ghost_env path = 0" "killTime ghost_env d = 0"
  "sessionTime ghost_env d = 0"
  "readdirTime deaf_server_env path = 0" "killTime deaf_server_env d = 0"
  "sessionTime deaf_server_env d = 0"
  "readdirTime stuck_kill_env path = 0" "killTime stuck_kill_env d = 0"
  "sessionTime stuck_kill_env d = 0"
  "readdirTime no_driver_env path = 0" "killTime no_driver_env d = 0"
  "sessionTime no_driver_env d = 0"
  "readdirTime race_kill_env path = 0" "killTime race_kill_env d = 0"
  "sessionTime race_kill_env d = 0"
  "readdirTime silent_run_env path = 0" "killTime silent_run_env d = 0"
  "sessionTime silent_run_env d = 0"
  "readdirTime cached_env path = 0" "killTime cached_env d = 0"
  "sessionTime cached_env d = 0"
  by (simp_all add: scenario_defs race_kill_env_def silent_run_env_def cached_env_def)

lemma module_simps [simp]:
  "moduleResult demo_env name = None" "moduleResult failing_env name = None"
  "moduleResult no_browser_env name = None" "moduleResult two_chrome_env name = None"
  "moduleResult broken_fs_env name = None" "moduleResult thrown_string_env name = None"
  "moduleResult thrown_error_env name = None" "moduleResult ghost_env name = None"
  "moduleResult deaf_server_env name = None" "moduleResult stuck_kill_env name = None"
  "moduleResult no_driver_env name = None" "moduleResult race_kill_env name = None"
  "moduleResult no_session_env name = None" "moduleResult silent_run_env name = None"
  "moduleResult cached_env name = None" "moduleResult (thrown_env v) name = None"
  by (simp_all add: scenario_defs race_kill_env_def no_session_env_def silent_run_env_def
      cached_env_def thrown_env_def)

lemma no_module_env_simps [simp]:
  "moduleResult no_module_env ''http'' = None"
  "moduleResult no_module_env ''mz/fs'' = None"
  "moduleResult no_module_env ''express'' = None"
  "moduleResult no_module_env ''selenium-assistant'' =
     Some (JError ''Error: Cannot find module selenium-assistant'')"
  by (simp_all add: no_module_env_def)

end
