(* ===== verification/Browser.thy ===== *)
theory Browser
  imports Scenario
begin

text \<open>
  The Browser Provisioner: \<^verbatim>\<open>browserFilter\<close> (lines 7-10), \<^verbatim>\<open>unsandboxChrome\<close> (lines 42-50)
  and the pipeline of \<^verbatim>\<open>main\<close> that turns the installed browsers into drivers (lines
  60-67).  \<open>provision\<close> is that pipeline: \<open>selected\<close> is the filter and the first map (lines
  60-62), followed by a second map whose callback
  (\<open>open_driver\<close>) starts a driver and sets its script timeout; a callback that throws
  ends the pipeline, and the drivers started before it stay open.

  The lemmas give the selection (\<open>browserFilter_iff\<close>), the effect of the sandbox flag on
  selected and on other browsers, and the result and the events of \<open>provision\<close> both when
  every driver starts and when one does not (\<open>provision_sem\<close>: the state is advanced by
  the events of the drivers that started, the result is \<open>open_result\<close>), and that
  \<open>provision\<close> keeps the trace well formed.  The property at the end states the contract of
  the provisioner.
\<close>

section \<open>Operations\<close>

definition browserFilter :: "browser \<Rightarrow> bool" where
  "browserFilter browser \<longleftrightarrow>
     releaseName browser = ''stable'' \<and> browserId browser \<in> set [''chrome'']"

definition unsandboxChrome :: "browser \<Rightarrow> browser" where
  "unsandboxChrome browser =
     (let isChrome = (releaseName browser = ''stable'' \<and> browserId browser \<in> set [''chrome''])
      in if \<not> isChrome then browser else addArguments ''--no-sandbox'' browser)"

definition selected :: "env \<Rightarrow> browser list" where
  "selected env = map unsandboxChrome (filter browserFilter (localBrowsers env))"

definition open_driver :: "env \<Rightarrow> browser \<Rightarrow> (proc, driver) task" where
  "open_driver env b = await (getSeleniumDriver env b) (setScriptTimeout 60000)"

definition provision :: "env \<Rightarrow> (proc, driver list) task" where
  "provision env = each_task (open_driver env) (selected env)"

section \<open>Reference definitions\<close>

definition driver_of :: "nat \<times> browser \<Rightarrow> driver" where
  "driver_of ib = \<lparr>driverId = fst ib, ofBrowser = snd ib, scriptTimeout = Some 60000\<rparr>"

definition driver_events :: "nat \<times> browser \<Rightarrow> event list" where
  "driver_events ib = [GetDriver (fst ib) (snd ib), SetScriptTimeout (fst ib) 60000]"

definition open_events :: "nat \<Rightarrow> browser list \<Rightarrow> event list" where
  "open_events i bs = concat (map driver_events (enumerate i bs))"

definition starts :: "env \<Rightarrow> browser \<Rightarrow> bool" where
  "starts env b \<longleftrightarrow> driverResult env b = None"

fun startable :: "env \<Rightarrow> browser list \<Rightarrow> browser list" where
  "startable env [] = []"
| "startable env (b # bs) = (if starts env b then b # startable env bs else [])"

fun open_result :: "env \<Rightarrow> nat \<Rightarrow> browser list \<Rightarrow> driver list promise" where
  "open_result env i [] = Fulfilled []"
| "open_result env i (b # bs) =
     (case driverResult env b of
        Some e \<Rightarrow> Rejected e
      | None \<Rightarrow> map_promise ((#) (driver_of (i, b))) (open_result env (Suc i) bs))"

section \<open>Selection and the sandbox flag\<close>

lemma browserFilter_iff:
  "browserFilter b \<longleftrightarrow> releaseName b = ''stable'' \<and> browserId b = ''chrome''"
  by (simp add: browserFilter_def)

lemma unsandboxChrome_selected:
  "browserFilter b \<Longrightarrow> unsandboxChrome b = b\<lparr>arguments := arguments b @ [''--no-sandbox'']\<rparr>"
  by (simp add: unsandboxChrome_def browserFilter_def addArguments_def)

lemma unsandboxChrome_other: "\<not> browserFilter b \<Longrightarrow> unsandboxChrome b = b"
  by (simp add: unsandboxChrome_def browserFilter_def)

lemma unsandboxChrome_eq:
  "unsandboxChrome b = (if browserFilter b then addArguments ''--no-sandbox'' b else b)"
  by (simp add: unsandboxChrome_def browserFilter_def)

lemma releaseName_unsandboxChrome [simp]: "releaseName (unsandboxChrome b) = releaseName b"
  by (simp add: unsandboxChrome_eq addArguments_def)

lemma browserId_unsandboxChrome [simp]: "browserId (unsandboxChrome b) = browserId b"
  by (simp add: unsandboxChrome_eq addArguments_def)

lemma browserFilter_unsandboxChrome [simp]:
  "browserFilter (unsandboxChrome b) = browserFilter b"
  by (simp add: browserFilter_def)

lemma arguments_unsandboxChrome:
  "arguments (unsandboxChrome b) =
     (if browserFilter b then arguments b @ [''--no-sandbox''] else arguments b)"
  by (simp add: unsandboxChrome_eq addArguments_def)

lemma selected_all_chrome: "list_all browserFilter (selected env)"
  by (simp add: selected_def list_all_iff)

lemma selected_flagged:
  "list_all (\<lambda>b. arguments b \<noteq> [] \<and> last (arguments b) = ''--no-sandbox'') (selected env)"
  by (simp add: selected_def list_all_iff arguments_unsandboxChrome)

lemma selected_eq:
  "selected env = map (addArguments ''--no-sandbox'') (filter browserFilter (localBrowsers env))"
  by (simp add: selected_def unsandboxChrome_eq cong: map_cong)

section \<open>Opening the drivers\<close>

lemma open_driver_apply:
  "open_driver env b s =
     (case driverResult env b of
        Some e \<Rightarrow> (s, Rejected e)
      | None \<Rightarrow> (advance (Suc 0) (driver_events (fresh s, b)) s, Fulfilled (driver_of (fresh s, b))))"
  by (simp add: open_driver_def await_apply lib_apply driver_of_def driver_events_def
      split: option.splits)

lemma open_events_Nil [simp]: "open_events i [] = []"
  by (simp add: open_events_def)

lemma open_events_Cons [simp]:
  "open_events i (b # bs) = driver_events (i, b) @ open_events (Suc i) bs"
  by (simp add: open_events_def)

lemma each_open_driver_sem:
  "each_task (open_driver env) bs s =
     (advance (length (startable env bs)) (open_events (fresh s) (startable env bs)) s,
      open_result env (fresh s) bs)"
proof (induction bs arbitrary: s)
  case Nil
  show ?case by (simp add: task_apply)
next
  case (Cons b bs)
  show ?case
  proof (cases "driverResult env b")
    case (Some e)
    then have "open_driver env b s = (s, Rejected e)"
      by (simp add: open_driver_apply)
    then show ?thesis
      by (simp add: await_apply Some starts_def)
  next
    case None
    let ?s = "advance (Suc 0) (driver_events (fresh s, b)) s"
    have 1: "open_driver env b s = (?s, Fulfilled (driver_of (fresh s, b)))"
      by (simp add: open_driver_apply None)
    have 2: "each_task (open_driver env) bs ?s =
        (advance (Suc (length (startable env bs)))
           (driver_events (fresh s, b) @ open_events (Suc (fresh s)) (startable env bs)) s,
         open_result env (Suc (fresh s)) bs)"
      using Cons.IH [of ?s] by simp
    show ?thesis
      by (cases "open_result env (Suc (fresh s)) bs")
        (simp_all add: await_apply 1 2 task_apply None starts_def)
  qed
qed

lemma provision_sem:
  "provision env s =
     (advance (length (startable env (selected env)))
        (open_events (fresh s) (startable env (selected env))) s,
      open_result env (fresh s) (selected env))"
  by (simp add: provision_def each_open_driver_sem)

lemma startable_all: "list_all (starts env) bs \<Longrightarrow> startable env bs = bs"
  by (induction bs) simp_all

lemma startable_prefix: "prefix (startable env bs) bs"
  by (induction bs) simp_all

lemma startable_starts: "list_all (starts env) (startable env bs)"
  by (induction bs) simp_all

lemma open_result_Fulfilled_iff:
  "open_result env i bs = Fulfilled ds \<longleftrightarrow>
     list_all (starts env) bs \<and> ds = map driver_of (enumerate i bs)"
  by (induction bs arbitrary: i ds) (auto simp: starts_def split: option.splits)

lemma open_result_not_Pending [simp]: "open_result env i bs \<noteq> Pending"
  by (induction bs arbitrary: i) (auto split: option.splits)

lemma open_result_Rejected_iff:
  "open_result env i bs = Rejected e \<longleftrightarrow>
     (\<exists>b cs. bs = startable env bs @ b # cs \<and> driverResult env b = Some e)"
proof (induction bs arbitrary: i)
  case Nil
  show ?case by simp
next
  case (Cons a bs)
  show ?case
  proof (cases "driverResult env a")
    case None
    then show ?thesis
      using Cons.IH [of "Suc i"] by (auto simp: starts_def)
  next
    case (Some e')
    then show ?thesis by (auto simp: starts_def)
  qed
qed

lemma map_driverId_driver_of [simp]:
  "map (driverId \<circ> driver_of) (enumerate n bs) = [n..<n + length bs]"
  by (simp add: driver_of_def comp_def map_fst_enumerate)

lemma map_ofBrowser_driver_of [simp]:
  "map (ofBrowser \<circ> driver_of) (enumerate n bs) = bs"
  by (simp add: driver_of_def comp_def map_snd_enumerate)

lemma scriptTimeout_driver_of:
  "list_all (\<lambda>d. scriptTimeout d = Some 60000) (map driver_of (enumerate n bs))"
  by (simp add: list_all_iff driver_of_def)

lemma event_ids_open_events:
  "ev \<in> set (open_events i bs) \<Longrightarrow> \<exists>j. event_ids ev = [j] \<and> i \<le> j \<and> j < i + length bs"
  by (auto simp: open_events_def driver_events_def in_set_enumerate_eq)

lemma ids_below_open_events: "ids_below (i + length bs) (open_events i bs)"
  by (rule ids_belowI) (use event_ids_open_events in blast)

lemma GetDriver_open_events:
  "(j, b) \<in> set (enumerate i bs) \<Longrightarrow> GetDriver j b \<in> set (open_events i bs)"
  by (force simp: open_events_def driver_events_def)

lemma runs_open_events [simp]: "runs (open_events i bs) = []"
  by (induction bs arbitrary: i) (simp_all add: driver_events_def)

lemma selected_driver:
  assumes "d \<in> set (map driver_of (enumerate i (selected env)))"
  shows "scriptTimeout d = Some 60000" and "browserFilter (ofBrowser d)"
    and "''--no-sandbox'' \<in> set (arguments (ofBrowser d))"
    and "GetDriver (driverId d) (ofBrowser d) \<in> set (open_events i (selected env))"
proof -
  from assms obtain j b where d: "d = driver_of (j, b)" and jb: "(j, b) \<in> set (enumerate i (selected env))"
    by auto
  from jb have b: "b \<in> set (selected env)"
    by (auto simp: in_set_enumerate_eq)
  show "scriptTimeout d = Some 60000"
    by (simp add: d driver_of_def)
  from b selected_all_chrome [of env] show "browserFilter (ofBrowser d)"
    by (simp add: d driver_of_def list_all_iff)
  from b show "''--no-sandbox'' \<in> set (arguments (ofBrowser d))"
    by (auto simp: d driver_of_def selected_def arguments_unsandboxChrome)
  from jb show "GetDriver (driverId d) (ofBrowser d) \<in> set (open_events i (selected env))"
    by (simp add: d driver_of_def GetDriver_open_events)
qed

lemma wf_provision [wf_intros]: "wf_proc s \<Longrightarrow> wf_proc (fst (provision env s))"
  by (simp add: provision_sem wf_advance ids_below_open_events)

lemma startable_append_failed:
  "list_all (starts env) bs \<Longrightarrow> driverResult env b = Some e \<Longrightarrow>
   startable env (bs @ b # cs) = bs"
  by (induction bs) (simp_all add: starts_def)

lemma open_result_append_failed:
  "list_all (starts env) bs \<Longrightarrow> driverResult env b = Some e \<Longrightarrow>
   open_result env i (bs @ b # cs) = Rejected e"
  by (induction bs arbitrary: i) (simp_all add: starts_def)

section \<open>Properties\<close>

lemma selected_demo_env: "selected demo_env = [addArguments ''--no-sandbox'' chrome]"
  by (simp add: selected_eq browserFilter_iff)

lemma provision_demo_env:
  "provision demo_env init_proc =
     (advance 1 [GetDriver 0 (addArguments ''--no-sandbox'' chrome), SetScriptTimeout 0 60000]
        init_proc,
      Fulfilled [driver_of (0, addArguments ''--no-sandbox'' chrome)])"
  by (simp add: provision_sem selected_demo_env starts_def driver_events_def init_proc_def)

text \<open>
  C5 (Browser Provisioner, selection): when the pipeline of \<^verbatim>\<open>main\<close> returns drivers, they
  belong, in the order of enumeration, to exactly the installed browsers whose release
  is \<^verbatim>\<open>stable\<close> and whose id is \<^verbatim>\<open>chrome\<close>, each with \<^verbatim>\<open>--no-sandbox\<close> appended to its
  arguments; every driver has the script timeout 60000, and the drivers have consecutive
  fresh identities, so no two of them are the same session.
\<close>

theorem provision_opens_stable_chrome:
  assumes "provision env s = (t, Fulfilled drivers)"
  shows "map ofBrowser drivers =
      map (addArguments ''--no-sandbox'')
        (filter (\<lambda>b. releaseName b = ''stable'' \<and> browserId b = ''chrome'') (localBrowsers env)) \<and>
    list_all (\<lambda>d. scriptTimeout d = Some 60000) drivers \<and>
    map driverId drivers = [fresh s..<fresh s + length drivers]"
proof -
  from assms have "open_result env (fresh s) (selected env) = Fulfilled drivers"
    by (simp add: provision_sem)
  then have drivers: "drivers = map driver_of (enumerate (fresh s) (selected env))"
    by (simp add: open_result_Fulfilled_iff)
  have "selected env = map (addArguments ''--no-sandbox'')
      (filter (\<lambda>b. releaseName b = ''stable'' \<and> browserId b = ''chrome'') (localBrowsers env))"
    by (simp add: selected_eq browserFilter_iff [abs_def])
  with drivers show ?thesis
    by (simp add: scriptTimeout_driver_of)
qed

theorem provision_opens_stable_chrome_witness:
  "map ofBrowser [driver_of (0, addArguments ''--no-sandbox'' chrome)] =
     [addArguments ''--no-sandbox'' chrome] \<and>
   map driverId [driver_of (0, addArguments ''--no-sandbox'' chrome)] = [0]"
  using provision_opens_stable_chrome [OF provision_demo_env]
  by (simp add: init_proc_def)

end
