(* ===== verification/Server.thy ===== *)
theory Server
  imports Scenario
begin

text \<open>
  The Server Launcher: \<^verbatim>\<open>startServer\<close> (lines 12-19) and the address that \<^verbatim>\<open>main\<close> assembles
  from the port the operating system chose (line 71).  The promise of \<open>startServer\<close> is
  resolved by the \<^verbatim>\<open>listening\<close> event only, so a server that never listens leaves it
  pending; this is the answer \<open>listenResult\<close> of the outside.

  The lemmas: what \<open>startServer\<close> returns and logs, and that the address determines the
  port.
\<close>

section \<open>Operations\<close>

definition startServer :: "env \<Rightarrow> (proc, server) task" where
  "startServer env = listen env ''docs''"

definition address_of :: "server \<Rightarrow> string" where
  "address_of srv = ''http://localhost:'' @ show_nat (port srv)"

section \<open>Lemmas\<close>

lemma startServer_apply:
  "startServer env s =
     (log (Listen ''docs'') s,
      map_promise (\<lambda>p. \<lparr>port = p, staticRoot = ''docs''\<rparr>) (resolved_when (listenResult env)))"
  by (simp add: startServer_def listen_def)

lemma startServer_Fulfilled_iff:
  "snd (startServer env s) = Fulfilled srv \<longleftrightarrow>
     (\<exists>p. listenResult env = Some p \<and> srv = \<lparr>port = p, staticRoot = ''docs''\<rparr>)"
  by (auto simp: startServer_apply)

lemma startServer_state [simp]: "fst (startServer env s) = log (Listen ''docs'') s"
  by (simp add: startServer_apply)

lemma address_of_inject: "address_of a = address_of b \<longleftrightarrow> port a = port b"
  by (simp add: address_of_def)

lemma address_of_prefix: "prefix ''http://localhost:'' (address_of srv)"
  by (simp add: address_of_def)

lemma address_of_8080 [simp]:
  "address_of \<lparr>port = 8080, staticRoot = root\<rparr> = ''http://localhost:8080''"
  by (simp add: address_of_def show_nat.simps digit_char_def char_of_def bit_Suc_0_iff)

end
