(* ===== verification/Discovery.thy ===== *)
theory Discovery
  imports Scenario
begin

text \<open>
  Suite Discovery: \<^verbatim>\<open>buildMocha\<close> (lines 21-40).  A new Mocha instance is made, the
  directory \<^verbatim>\<open>elements\<close> is listed, every entry's own directory is listed (all the reads
  are issued before any result is looked at), an entry is kept when one of its file names
  contains \<^verbatim>\<open>.e2etest.js\<close>, and for every entry kept the file
  \<^verbatim>\<open>./elements/<name>/<name>.e2etest\<close> is added to the instance.  The timeout of the root
  suite is set to 60000 and the files are loaded.

  \<open>scan_element\<close> is the callback of lines 25-31, \<open>scan_elements\<close> the \<^verbatim>\<open>Promise.all\<close> of lines
  24-32 over these callbacks, \<open>register\<close> the chain of lines 33-36.
  \<open>kept\<close>, \<open>discovered\<close>, \<open>loaded_suites\<close>, \<open>build_events\<close> and \<open>build_result\<close> are reference
  definitions: what a discovery reads, registers, loads and returns, computed from the
  answers of the file system and of the module loader; \<open>cached_after\<close> describes a module
  loader that evaluates a file once.  \<open>buildMocha_sem\<close> states that
  \<open>buildMocha\<close> does exactly that, on every path, failures included.  The properties at
  the end state what is registered, which elements contribute, what the pattern accepts,
  and what happens when a directory cannot be listed or a file throws.
\<close>

section \<open>Operations\<close>

definition e2etest_re :: string where
  "e2etest_re = ''.e2etest.js''"

definition has_e2etest :: "string list \<Rightarrow> bool" where
  "has_e2etest names \<longleftrightarrow> list_ex (\<lambda>f. re_test e2etest_re f) names"

definition element_dir :: "string \<Rightarrow> string" where
  "element_dir element = ''elements/'' @ element @ ''/''"

definition scan_time :: "env \<Rightarrow> string \<Rightarrow> nat" where
  "scan_time env element = readdirTime env (element_dir element)"

definition scan_element :: "env \<Rightarrow> string \<Rightarrow> (proc, string) task" where
  "scan_element env element =
     await (readdir env (element_dir element)) (\<lambda>files.
       if has_e2etest files then resolve element else resolve '''')"

definition suite_file :: "string \<Rightarrow> string" where
  "suite_file name = ''./elements/'' @ name @ ''/'' @ name @ ''.e2etest''"

definition register :: "string list \<Rightarrow> mocha \<Rightarrow> mocha" where
  "register filteredElements mocha =
     foldl (\<lambda>m name. addFile (suite_file name) m) mocha
       (filter (\<lambda>name. truthy (JString name)) filteredElements)"

definition scan_elements :: "env \<Rightarrow> string list \<Rightarrow> (proc, string list) task" where
  "scan_elements env elements =
     all_tasks_at (map (scan_time env) elements) (map (scan_element env) elements)"

definition buildMocha :: "env \<Rightarrow> (proc, mocha) task" where
  "buildMocha env =
     await new_Mocha (\<lambda>mocha.
     await (readdir env ''elements'') (\<lambda>elements.
     await (scan_elements env elements) (\<lambda>filteredElements.
     loadFiles env (set_timeout 60000 (register filteredElements mocha)))))"

section \<open>Reference definitions\<close>

definition scan_result :: "env \<Rightarrow> string \<Rightarrow> string promise" where
  "scan_result env element =
     map_promise (\<lambda>files. if has_e2etest files then element else '''')
       (readdirResult env (element_dir element))"

definition scan_all :: "env \<Rightarrow> string list \<Rightarrow> string list promise" where
  "scan_all env es = promise_all_at (map (scan_time env) es) (map (scan_result env) es)"

definition readable :: "env \<Rightarrow> string \<Rightarrow> bool" where
  "readable env element \<longleftrightarrow>
     (case readdirResult env (element_dir element) of Fulfilled names \<Rightarrow> True | _ \<Rightarrow> False)"

definition kept :: "env \<Rightarrow> string \<Rightarrow> bool" where
  "kept env element \<longleftrightarrow>
     element \<noteq> [] \<and>
     (case readdirResult env (element_dir element) of
        Fulfilled names \<Rightarrow> has_e2etest names | _ \<Rightarrow> False)"

definition discovered :: "env \<Rightarrow> string list \<Rightarrow> string list" where
  "discovered env elements = map suite_file (filter (kept env) elements)"

definition titles_of :: "env \<Rightarrow> nat \<Rightarrow> string \<Rightarrow> string list" where
  "titles_of env i f = (case requireResult env i f of Inr ts \<Rightarrow> ts | Inl e \<Rightarrow> [])"

definition loads :: "env \<Rightarrow> nat \<Rightarrow> string \<Rightarrow> bool" where
  "loads env i f \<longleftrightarrow> (case requireResult env i f of Inr ts \<Rightarrow> True | Inl e \<Rightarrow> False)"

definition loaded_suites :: "env \<Rightarrow> nat \<Rightarrow> string list \<Rightarrow> suite list" where
  "loaded_suites env i fs = concat (map (\<lambda>f. map new_suite (titles_of env i f)) fs)"

fun required :: "env \<Rightarrow> nat \<Rightarrow> string list \<Rightarrow> string list" where
  "required env i [] = []"
| "required env i (f # fs) = f # (if loads env i f then required env i fs else [])"

fun load_error :: "env \<Rightarrow> nat \<Rightarrow> string list \<Rightarrow> jsval option" where
  "load_error env i [] = None"
| "load_error env i (f # fs) =
     (case requireResult env i f of Inl e \<Rightarrow> Some e | Inr ts \<Rightarrow> load_error env i fs)"

definition built :: "env \<Rightarrow> nat \<Rightarrow> string list \<Rightarrow> mocha" where
  "built env i elements =
     \<lparr>mochaId = i, files = discovered env elements, suiteTimeout = Some 60000,
      suites = loaded_suites env i (discovered env elements)\<rparr>"

definition scan_events :: "string list \<Rightarrow> event list" where
  "scan_events elements = ReadDir ''elements'' # map (\<lambda>e. ReadDir (element_dir e)) elements"

definition build_events :: "env \<Rightarrow> nat \<Rightarrow> event list" where
  "build_events env i =
     (case readdirResult env ''elements'' of
        Fulfilled es \<Rightarrow>
          scan_events es @
          (case scan_all env es of
             Fulfilled ns \<Rightarrow> map (Require i) (required env i (discovered env es))
           | _ \<Rightarrow> [])
      | _ \<Rightarrow> [ReadDir ''elements''])"

definition build_result :: "env \<Rightarrow> nat \<Rightarrow> mocha promise" where
  "build_result env i =
     (case readdirResult env ''elements'' of
        Fulfilled es \<Rightarrow>
          (case scan_all env es of
             Fulfilled ns \<Rightarrow>
               (case load_error env i (discovered env es) of
                  None \<Rightarrow> Fulfilled (built env i es)
                | Some e \<Rightarrow> Rejected e)
           | Rejected e \<Rightarrow> Rejected e
           | Pending \<Rightarrow> Pending)
      | Rejected e \<Rightarrow> Rejected e
      | Pending \<Rightarrow> Pending)"

definition cached_after :: "env \<Rightarrow> nat \<Rightarrow> bool" where
  "cached_after env n \<longleftrightarrow>
     (\<forall>j f. n < j \<longrightarrow> loads env n f \<longrightarrow> requireResult env j f = Inr [])"

section \<open>The naming convention\<close>

lemma has_e2etest_iff: "has_e2etest fs \<longleftrightarrow> (\<exists>f \<in> set fs. sublist ''.e2etest.js'' f)"
  by (simp add: has_e2etest_def e2etest_re_def list_ex_iff re_test_iff_sublist)

lemma has_e2etest_Nil [simp]: "\<not> has_e2etest []"
  by (simp add: has_e2etest_def)

lemma has_e2etest_append: "has_e2etest (fs @ gs) \<longleftrightarrow> has_e2etest fs \<or> has_e2etest gs"
  by (auto simp: has_e2etest_iff)

lemma has_e2etest_suffix: "has_e2etest [name @ ''.e2etest.js'']"
  unfolding has_e2etest_iff by (simp add: sublist_append_leftI)

section \<open>Registration\<close>

lemma files_addFile [simp]: "files (addFile f m) = files m @ [f]"
  by (simp add: addFile_def)

lemma register_fold:
  "foldl (\<lambda>m name. addFile (suite_file name) m) m names =
     m\<lparr>files := files m @ map suite_file names\<rparr>"
  by (induction names arbitrary: m) (simp_all add: addFile_def)

lemma register_eq:
  "register names m = m\<lparr>files := files m @ map suite_file (filter (\<lambda>n. n \<noteq> []) names)\<rparr>"
  by (simp add: register_def register_fold)

lemma files_register [simp]:
  "files (register names m) = files m @ map suite_file (filter (\<lambda>n. n \<noteq> []) names)"
  by (simp add: register_eq)

lemma mochaId_register [simp]: "mochaId (register names m) = mochaId m"
  by (simp add: register_eq)

lemma suites_register [simp]: "suites (register names m) = suites m"
  by (simp add: register_eq)

section \<open>Reading the directories\<close>

lemma scan_element_apply:
  "scan_element env e s = (advance 0 [ReadDir (element_dir e)] s, scan_result env e)"
  by (cases "readdirResult env (element_dir e)")
    (simp_all add: scan_element_def scan_result_def readdir_apply await_apply task_apply)

lemma start_all_scan:
  "start_all (map (scan_element env) es) s =
     (advance 0 (map (\<lambda>e. ReadDir (element_dir e)) es) s, map (scan_result env) es)"
proof (induction es arbitrary: s)
  case Nil
  show ?case by simp
next
  case (Cons e es)
  have "scan_element env e s = (advance 0 [ReadDir (element_dir e)] s, scan_result env e)"
    by (rule scan_element_apply)
  then show ?case
    by (simp add: Cons.IH)
qed

lemma all_scan_apply:
  "scan_elements env es s =
     (advance 0 (map (\<lambda>e. ReadDir (element_dir e)) es) s, scan_all env es)"
  by (simp add: scan_elements_def all_tasks_at_apply start_all_scan scan_all_def)

lemma scan_all_Fulfilled_iff:
  "scan_all env es = Fulfilled ns \<longleftrightarrow> promise_all (map (scan_result env) es) = Fulfilled ns"
  by (simp add: scan_all_def promise_all_at_Fulfilled_iff)

lemma scan_all_Fulfilled:
  "promise_all (map (scan_result env) es) = Fulfilled ns \<Longrightarrow> scan_all env es = Fulfilled ns"
  by (simp add: scan_all_Fulfilled_iff)

lemma scan_all_Pending_iff:
  "scan_all env es = Pending \<longleftrightarrow> promise_all (map (scan_result env) es) = Pending"
  by (simp add: scan_all_def promise_all_at_Pending_iff)

lemma scan_all_Rejected:
  "scan_all env es = Rejected e \<Longrightarrow> \<exists>x \<in> set es. scan_result env x = Rejected e"
  unfolding scan_all_def by (metis promise_all_at_Rejected_mem imageE list.set_map)

lemma scan_result_Fulfilled_iff:
  "scan_result env e = Fulfilled n \<longleftrightarrow>
     (\<exists>fs. readdirResult env (element_dir e) = Fulfilled fs \<and>
        n = (if has_e2etest fs then e else []))"
  by (simp add: scan_result_def)

lemma scan_result_kept:
  "scan_result env e = Fulfilled n \<Longrightarrow> n \<noteq> [] \<longleftrightarrow> kept env e"
  by (auto simp: scan_result_Fulfilled_iff kept_def split: if_splits)

lemma scan_result_name:
  "scan_result env e = Fulfilled n \<Longrightarrow> n \<noteq> [] \<Longrightarrow> n = e"
  by (auto simp: scan_result_Fulfilled_iff split: if_splits)

lemma filter_scan_results:
  "map (scan_result env) es = map Fulfilled ns \<Longrightarrow>
   filter (\<lambda>n. n \<noteq> []) ns = filter (kept env) es"
proof (induction es arbitrary: ns)
  case Nil
  then show ?case by simp
next
  case (Cons e es)
  then obtain n ns' where ns: "ns = n # ns'" and n: "scan_result env e = Fulfilled n"
    and rest: "map (scan_result env) es = map Fulfilled ns'"
    by (cases ns) auto
  from Cons.IH [OF rest] scan_result_kept [OF n] scan_result_name [OF n]
  show ?case by (auto simp: ns)
qed

lemma promise_all_scan_readable:
  "list_all (readable env) es \<Longrightarrow> \<exists>ns. promise_all (map (scan_result env) es) = Fulfilled ns"
proof (induction es)
  case Nil
  show ?case by simp
next
  case (Cons e es)
  then obtain ns fs where ns: "promise_all (map (scan_result env) es) = Fulfilled ns"
    and "readdirResult env (element_dir e) = Fulfilled fs"
    by (auto simp: readable_def split: promise.splits)
  then have "scan_result env e = Fulfilled (if has_e2etest fs then e else [])"
    by (simp add: scan_result_def)
  with ns show ?case by simp
qed

lemma promise_all_scan_Fulfilled_iff:
  "(\<exists>ns. promise_all (map (scan_result env) es) = Fulfilled ns) \<longleftrightarrow> list_all (readable env) es"
proof
  assume "\<exists>ns. promise_all (map (scan_result env) es) = Fulfilled ns"
  then obtain ns where "map (scan_result env) es = map Fulfilled ns"
    by (auto simp: promise_all_Fulfilled_iff)
  then show "list_all (readable env) es"
  proof (induction es arbitrary: ns)
    case Nil
    show ?case by simp
  next
    case (Cons e es)
    then obtain n ns' where "scan_result env e = Fulfilled n"
      and "map (scan_result env) es = map Fulfilled ns'"
      by (cases ns) auto
    with Cons.IH show ?case
      by (auto simp: readable_def scan_result_Fulfilled_iff)
  qed
qed (rule promise_all_scan_readable)

section \<open>Loading the files\<close>

lemma loaded_suites_Cons:
  "loaded_suites env i (f # fs) = map new_suite (titles_of env i f) @ loaded_suites env i fs"
  by (simp add: loaded_suites_def)

lemma load_each_apply:
  "load_each env fs m s =
     (advance 0 (map (Require (mochaId m)) (required env (mochaId m) fs)) s,
      case load_error env (mochaId m) fs of
        None \<Rightarrow> Fulfilled (m\<lparr>suites := suites m @ loaded_suites env (mochaId m) fs\<rparr>)
      | Some e \<Rightarrow> Rejected e)"
proof (induction fs arbitrary: m s)
  case Nil
  show ?case by (simp add: loaded_suites_def task_apply)
next
  case (Cons f fs)
  let ?s = "advance 0 [Require (mochaId m) f] s"
  have emit: "emit (Require (mochaId m) f) s = (?s, Fulfilled ())"
    by (simp add: emit_def to_advance)
  show ?case
  proof (cases "requireResult env (mochaId m) f")
    case (Inl e)
    then show ?thesis
      by (simp add: await_apply emit task_apply loads_def)
  next
    case (Inr ts)
    let ?m = "m\<lparr>suites := suites m @ map new_suite ts\<rparr>"
    have suites: "suites ?m @ loaded_suites env (mochaId m) fs =
        suites m @ loaded_suites env (mochaId m) (f # fs)"
      by (simp add: loaded_suites_Cons titles_of_def Inr)
    have "load_each env (f # fs) m s = load_each env fs ?m ?s"
      by (simp add: await_apply emit Inr)
    also have "\<dots> =
        (advance 0 (map (Require (mochaId m)) (f # required env (mochaId m) fs)) s,
         case load_error env (mochaId m) fs of
           None \<Rightarrow> Fulfilled (m\<lparr>suites := suites m @ loaded_suites env (mochaId m) (f # fs)\<rparr>)
         | Some e \<Rightarrow> Rejected e)"
      using suites by (simp add: Cons.IH split: option.splits)
    finally show ?thesis
      by (simp add: Inr loads_def)
  qed
qed

lemma loadFiles_apply:
  "loadFiles env m s =
     (advance 0 (map (Require (mochaId m)) (required env (mochaId m) (files m))) s,
      case load_error env (mochaId m) (files m) of
        None \<Rightarrow> Fulfilled (m\<lparr>suites := suites m @ loaded_suites env (mochaId m) (files m)\<rparr>)
      | Some e \<Rightarrow> Rejected e)"
  by (simp add: loadFiles_def load_each_apply)

lemma load_error_None_iff: "load_error env i fs = None \<longleftrightarrow> list_all (loads env i) fs"
  by (induction fs) (auto simp: loads_def split: sum.splits)

lemma required_all: "list_all (loads env i) fs \<Longrightarrow> required env i fs = fs"
  by (induction fs) auto

lemma required_prefix: "prefix (required env i fs) fs"
  by (induction fs) auto

lemma load_error_append_failed:
  "list_all (loads env i) fs \<Longrightarrow> requireResult env i f = Inl e \<Longrightarrow>
   load_error env i (fs @ f # gs) = Some e \<and> required env i (fs @ f # gs) = fs @ [f]"
  by (induction fs) (auto simp: loads_def split: sum.splits)

lemma load_error_Some_iff:
  "load_error env i fs = Some e \<longleftrightarrow>
     (\<exists>gs f hs. fs = gs @ f # hs \<and> list_all (loads env i) gs \<and>
        requireResult env i f = Inl e \<and> required env i fs = gs @ [f])"
proof (induction fs)
  case Nil
  show ?case by simp
next
  case (Cons g fs)
  show ?case
  proof (cases "requireResult env i g")
    case (Inl e')
    have "(\<exists>gs f hs. g # fs = gs @ f # hs \<and> list_all (loads env i) gs \<and>
        requireResult env i f = Inl e \<and> required env i (g # fs) = gs @ [f]) \<longleftrightarrow> e' = e"
      using Inl by (auto simp: loads_def Cons_eq_append_conv)
    with Inl show ?thesis by auto
  next
    case (Inr ts)
    have "(\<exists>gs f hs. g # fs = gs @ f # hs \<and> list_all (loads env i) gs \<and>
        requireResult env i f = Inl e \<and> required env i (g # fs) = gs @ [f]) \<longleftrightarrow>
      (\<exists>gs f hs. fs = gs @ f # hs \<and> list_all (loads env i) gs \<and>
        requireResult env i f = Inl e \<and> required env i fs = gs @ [f])"
      using Inr by (auto simp: loads_def Cons_eq_append_conv)
    with Inr Cons.IH show ?thesis by simp
  qed
qed

section \<open>The whole discovery\<close>

text \<open>
  \<open>buildMocha\<close> depends on the state only through the identity it gives to the new
  instance: it appends \<open>build_events\<close> and returns \<open>build_result\<close>.
\<close>

lemma register_scanned:
  assumes "promise_all (map (scan_result env) es) = Fulfilled ns"
  shows "set_timeout 60000
      (register ns \<lparr>mochaId = i, files = [], suiteTimeout = None, suites = []\<rparr>) =
    \<lparr>mochaId = i, files = discovered env es, suiteTimeout = Some 60000, suites = []\<rparr>"
  using filter_scan_results [of env es ns] assms
  by (simp add: promise_all_Fulfilled_iff set_timeout_def register_eq discovered_def)

lemma buildMocha_sem:
  "buildMocha env s =
     (advance (Suc 0) (build_events env (fresh s)) s, build_result env (fresh s))"
proof (cases "readdirResult env ''elements''")
  case es: (Fulfilled es)
  show ?thesis
  proof (cases "scan_all env es")
    case ns: (Fulfilled ns)
    then have ns': "promise_all (map (scan_result env) es) = Fulfilled ns"
      by (simp add: scan_all_Fulfilled_iff)
    show ?thesis
      unfolding buildMocha_def
      by (simp add: await_apply new_Mocha_apply readdir_apply all_scan_apply loadFiles_apply
          register_scanned [OF ns'] build_events_def build_result_def built_def scan_events_def
          es ns split: option.splits)
  qed (simp_all add: buildMocha_def await_apply new_Mocha_apply readdir_apply all_scan_apply
      build_events_def build_result_def scan_events_def es)
qed (simp_all add: buildMocha_def await_apply new_Mocha_apply readdir_apply
    build_events_def build_result_def)

lemma build_result_Fulfilled_iff:
  "build_result env i = Fulfilled m \<longleftrightarrow>
     (\<exists>es. readdirResult env ''elements'' = Fulfilled es \<and> list_all (readable env) es \<and>
        list_all (loads env i) (discovered env es) \<and> m = built env i es)"
proof
  assume "build_result env i = Fulfilled m"
  then obtain es ns where es: "readdirResult env ''elements'' = Fulfilled es"
    and ns: "promise_all (map (scan_result env) es) = Fulfilled ns"
    and ok: "load_error env i (discovered env es) = None" and m: "m = built env i es"
    by (auto simp: build_result_def scan_all_Fulfilled_iff split: promise.splits option.splits)
  from ns have "list_all (readable env) es"
    using promise_all_scan_Fulfilled_iff by blast
  with es ok m show "\<exists>es. readdirResult env ''elements'' = Fulfilled es \<and>
      list_all (readable env) es \<and> list_all (loads env i) (discovered env es) \<and>
      m = built env i es"
    by (auto simp: load_error_None_iff)
next
  assume "\<exists>es. readdirResult env ''elements'' = Fulfilled es \<and> list_all (readable env) es \<and>
      list_all (loads env i) (discovered env es) \<and> m = built env i es"
  then obtain es where es: "readdirResult env ''elements'' = Fulfilled es"
    and "list_all (readable env) es" and ok: "list_all (loads env i) (discovered env es)"
    and m: "m = built env i es"
    by blast
  then obtain ns where "promise_all (map (scan_result env) es) = Fulfilled ns"
    using promise_all_scan_readable by blast
  moreover from ok have "load_error env i (discovered env es) = None"
    by (simp add: load_error_None_iff)
  ultimately show "build_result env i = Fulfilled m"
    using es m by (simp add: build_result_def scan_all_Fulfilled)
qed

lemma build_events_ok:
  "readdirResult env ''elements'' = Fulfilled es \<Longrightarrow> list_all (readable env) es \<Longrightarrow>
   list_all (loads env i) (discovered env es) \<Longrightarrow>
   build_events env i = scan_events es @ map (Require i) (discovered env es)"
  using promise_all_scan_readable [of env es]
  by (auto simp: build_events_def required_all scan_all_Fulfilled)

lemma mochaId_built [simp]: "mochaId (built env i es) = i"
  by (simp add: built_def)

lemma files_built [simp]: "files (built env i es) = discovered env es"
  by (simp add: built_def)

lemma suiteTimeout_built [simp]: "suiteTimeout (built env i es) = Some 60000"
  by (simp add: built_def)

lemma suites_built [simp]:
  "suites (built env i es) = loaded_suites env i (discovered env es)"
  by (simp add: built_def)

lemma build_result_mochaId: "build_result env i = Fulfilled m \<Longrightarrow> mochaId m = i"
  by (auto simp: build_result_Fulfilled_iff)

lemma event_ids_build_events:
  "ev \<in> set (build_events env i) \<Longrightarrow> event_ids ev = [] \<or> event_ids ev = [i]"
  by (auto simp: build_events_def scan_events_def split: promise.splits)

lemma suite_file_inject [simp]: "suite_file a = suite_file b \<longleftrightarrow> a = b"
proof
  assume "suite_file a = suite_file b"
  then have eq: "a @ ''/'' @ a @ ''.e2etest'' = b @ ''/'' @ b @ ''.e2etest''"
    by (simp add: suite_file_def)
  then have "length (a @ ''/'' @ a @ ''.e2etest'') = length (b @ ''/'' @ b @ ''.e2etest'')"
    by (rule arg_cong)
  then have "length a = length b"
    by simp
  with eq show "a = b"
    by simp
qed simp

lemma buildMocha_Fulfilled:
  assumes "buildMocha env s = (t, Fulfilled m)" and "readdirResult env ''elements'' = Fulfilled es"
  shows "m = built env (fresh s) es" and "list_all (readable env) es"
    and "list_all (loads env (fresh s)) (discovered env es)"
    and "t = advance (Suc 0) (scan_events es @ map (Require (fresh s)) (discovered env es)) s"
proof -
  from assms have "build_result env (fresh s) = Fulfilled m"
    and t: "t = advance (Suc 0) (build_events env (fresh s)) s"
    by (simp_all add: buildMocha_sem)
  with assms(2) show "m = built env (fresh s) es" and r: "list_all (readable env) es"
    and l: "list_all (loads env (fresh s)) (discovered env es)"
    by (auto simp: build_result_Fulfilled_iff)
  from t show "t = advance (Suc 0) (scan_events es @ map (Require (fresh s)) (discovered env es)) s"
    by (simp add: build_events_ok [OF assms(2) r l])
qed

lemma kept_iff:
  "kept env e \<longleftrightarrow>
     e \<noteq> [] \<and> (\<exists>names. readdirResult env (element_dir e) = Fulfilled names \<and>
       (\<exists>f \<in> set names. sublist ''.e2etest.js'' f))"
  by (auto simp: kept_def has_e2etest_iff split: promise.splits)

lemma scan_result_Pending_iff:
  "scan_result env e = Pending \<longleftrightarrow> readdirResult env (element_dir e) = Pending"
  by (simp add: scan_result_def)

lemma build_result_Pending:
  "build_result env i = Pending \<Longrightarrow> \<exists>path. readdirResult env path = Pending"
  by (auto simp: build_result_def scan_result_Pending_iff scan_all_Pending_iff
      dest!: promise_all_map_Pending split: promise.splits option.splits)

lemma ids_below_build_events: "ids_below (Suc i) (build_events env i)"
  by (rule ids_belowI) (use event_ids_build_events in fastforce)

lemma wf_buildMocha [wf_intros]: "wf_proc s \<Longrightarrow> wf_proc (fst (buildMocha env s))"
  by (simp add: buildMocha_sem wf_advance ids_below_build_events)

section \<open>Scenarios\<close>

lemmas discovery_eval = build_result_def build_events_def scan_result_def scan_events_def
  scan_all_def scan_time_def promise_all_at_def first_rejection_def
  element_dir_def has_e2etest_def e2etest_re_def discovered_def kept_def built_def
  loaded_suites_def titles_of_def new_suite_def suite_file_def loads_def

lemma buildMocha_demo_env:
  "buildMocha demo_env s = (advance (Suc 0) (demo_build (fresh s)) s, Fulfilled (demo_mocha (fresh s)))"
  by (simp add: buildMocha_sem discovery_eval demo_mocha_def demo_build_def)

lemma buildMocha_failing_env:
  "buildMocha failing_env s =
     (advance (Suc 0) (demo_build (fresh s)) s, Fulfilled (demo_mocha (fresh s)))"
  by (simp add: buildMocha_sem discovery_eval demo_mocha_def demo_build_def)

lemma buildMocha_silent_run_env:
  "buildMocha silent_run_env s =
     (advance (Suc 0) (demo_build (fresh s)) s, Fulfilled (demo_mocha (fresh s)))"
  by (simp add: buildMocha_sem discovery_eval demo_mocha_def demo_build_def)

lemma buildMocha_two_chrome_env:
  "buildMocha two_chrome_env s =
     (advance (Suc 0) (demo_build (fresh s)) s, Fulfilled (demo_mocha (fresh s)))"
  by (simp add: buildMocha_sem discovery_eval demo_mocha_def demo_build_def)

section \<open>The module cache\<close>

text \<open>
  The module loader of the runtime evaluates a file once.  \<open>cached_after env n\<close> says that
  the outside behaves like that from the instance \<open>n\<close> on: a file that was loaded for the
  instance \<open>n\<close> yields no suite for a later instance.  An instance that is built later than
  \<open>n\<close> then has no suite at all, because every discovery registers the same files.
\<close>

lemma loaded_suites_cached:
  assumes "cached_after env n" and "n < j" and "list_all (loads env n) fs"
  shows "loaded_suites env j fs = []"
  using assms by (auto simp: loaded_suites_def titles_of_def cached_after_def list_all_iff)

lemma build_result_cached:
  assumes "cached_after env n" and "n < j"
    and "build_result env n = Fulfilled m0" and "build_result env j = Fulfilled m"
  shows "suites m = []"
proof -
  from assms(3) obtain es where es: "readdirResult env ''elements'' = Fulfilled es"
    and l: "list_all (loads env n) (discovered env es)"
    by (auto simp: build_result_Fulfilled_iff)
  with assms(4) have "m = built env j es"
    by (auto simp: build_result_Fulfilled_iff)
  with loaded_suites_cached [OF assms(1,2) l] show ?thesis
    by (simp add: built_def)
qed

section \<open>Properties\<close>

text \<open>
  C6 (Suite Discovery, registration): the Mocha instance that \<^verbatim>\<open>buildMocha\<close> returns has a
  fresh identity and the timeout 60000, and its files are, in the order of the listing of
  \<^verbatim>\<open>elements\<close>, the paths \<^verbatim>\<open>./elements/<name>/<name>.e2etest\<close> of the elements that are kept:
  those with a name that is not empty and a directory that holds a file whose name
  matches the pattern.  The path is built from the name of the directory alone; the name
  of the file that matched does not enter it.
\<close>

theorem buildMocha_registers:
  assumes "buildMocha env s = (t, Fulfilled m)"
    and "readdirResult env ''elements'' = Fulfilled es"
  shows "files m = map suite_file (filter (kept env) es) \<and>
    suiteTimeout m = Some 60000 \<and> mochaId m = fresh s \<and> fresh t = Suc (fresh s)"
  by (simp add: buildMocha_Fulfilled [OF assms] discovered_def)

theorem buildMocha_registers_witness:
  "files (demo_mocha 0) = map suite_file (filter (kept demo_env) [''unit-a'', ''unit-b'']) \<and>
   files (demo_mocha 0) = [''./elements/unit-a/unit-a.e2etest'']"
  using buildMocha_registers [of demo_env init_proc _ "demo_mocha 0" "[''unit-a'', ''unit-b'']"]
  by (simp add: buildMocha_demo_env init_proc_def demo_mocha_def)

text \<open>
  C11 (Suite Discovery, which elements contribute): for an element \<open>e\<close> of the listing, the
  path of \<open>e\<close> is among the files of the instance that \<^verbatim>\<open>buildMocha\<close> returns if and only if
  the name \<open>e\<close> is not empty and the directory of \<open>e\<close> holds at least one file whose name
  contains \<^verbatim>\<open>.e2etest.js\<close>.
\<close>

theorem buildMocha_registered_iff:
  assumes "buildMocha env s = (t, Fulfilled m)"
    and "readdirResult env ''elements'' = Fulfilled es"
    and "e \<in> set es"
  shows "suite_file e \<in> set (files m) \<longleftrightarrow>
     e \<noteq> [] \<and> (\<exists>names. readdirResult env (element_dir e) = Fulfilled names \<and>
       (\<exists>f \<in> set names. sublist ''.e2etest.js'' f))"
  using assms(3)
  by (auto simp: buildMocha_Fulfilled(1) [OF assms(1,2)] discovered_def kept_iff)

theorem buildMocha_registered_iff_witness:
  "suite_file ''unit-b'' \<notin> set (files (demo_mocha 0)) \<and>
   suite_file ''unit-a'' \<in> set (files (demo_mocha 0))"
  using buildMocha_registered_iff [of demo_env init_proc _ "demo_mocha 0"
      "[''unit-a'', ''unit-b'']" "''unit-b''"]
    buildMocha_registered_iff [of demo_env init_proc _ "demo_mocha 0"
      "[''unit-a'', ''unit-b'']" "''unit-a''"]
  by (simp add: buildMocha_demo_env init_proc_def demo_mocha_def suite_file_def)

lemma has_e2etest_examples:
  "has_e2etest [''unit.e2etest.json'']" "has_e2etest [''unit.e2etest.js.map'']"
  "\<not> has_e2etest [''unit.e2etest.ts'']"
  by (simp_all add: has_e2etest_def e2etest_re_def)

text \<open>
  C21 (Suite Discovery, a directory that cannot be listed): when the listing of \<^verbatim>\<open>elements\<close>
  names an element whose directory cannot be listed, \<^verbatim>\<open>buildMocha\<close> has asked for the listing
  of every element directory, loads no file and returns no Mocha instance.
\<close>

theorem buildMocha_unreadable:
  assumes "readdirResult env ''elements'' = Fulfilled es"
    and "e \<in> set es"
    and "\<forall>names. readdirResult env (element_dir e) \<noteq> Fulfilled names"
  shows "fst (buildMocha env s) = advance (Suc 0) (scan_events es) s \<and>
    (\<forall>m. snd (buildMocha env s) \<noteq> Fulfilled m)"
proof -
  from assms(2,3) have "\<not> list_all (readable env) es"
    by (auto simp: list_all_iff readable_def split: promise.splits)
  then have "\<forall>ns. scan_all env es \<noteq> Fulfilled ns"
    using promise_all_scan_Fulfilled_iff [of env es] by (auto simp: scan_all_Fulfilled_iff)
  with assms(1) show ?thesis
    by (cases "scan_all env es")
      (simp_all add: buildMocha_sem build_events_def build_result_def)
qed

theorem buildMocha_unreadable_witness:
  "fst (buildMocha ghost_env init_proc) =
     advance (Suc 0)
       [ReadDir ''elements'', ReadDir ''elements/unit-a/'', ReadDir ''elements/ghost/'']
       init_proc \<and>
   (\<forall>m. snd (buildMocha ghost_env init_proc) \<noteq> Fulfilled m)"
  using buildMocha_unreadable [of ghost_env "[''unit-a'', ''ghost'']" "''ghost''" init_proc]
  by (simp add: element_dir_def scan_events_def)

text \<open>
  C22 (Suite Discovery, a test file that throws): when every element directory can be
  listed and the file \<open>f\<close> is the first registered file that throws when it is loaded,
  \<^verbatim>\<open>buildMocha\<close> is rejected with what \<open>f\<close> threw; the files before \<open>f\<close> and \<open>f\<close> itself have been
  loaded, the files after it have not.
\<close>

theorem buildMocha_load_failure:
  assumes "readdirResult env ''elements'' = Fulfilled es"
    and "list_all (readable env) es"
    and "map suite_file (filter (kept env) es) = fs @ f # gs"
    and "list_all (\<lambda>g. \<exists>ts. requireResult env (fresh s) g = Inr ts) fs"
    and "requireResult env (fresh s) f = Inl e"
  shows "buildMocha env s =
     (advance (Suc 0) (scan_events es @ map (Require (fresh s)) (fs @ [f])) s, Rejected e)"
proof -
  from assms(4) have "list_all (loads env (fresh s)) fs"
    by (auto simp: list_all_iff loads_def)
  with assms(3,5) have "load_error env (fresh s) (discovered env es) = Some e"
    and "required env (fresh s) (discovered env es) = fs @ [f]"
    by (simp_all add: discovered_def load_error_append_failed)
  moreover from assms(2) obtain ns where "scan_all env es = Fulfilled ns"
    using promise_all_scan_readable scan_all_Fulfilled by blast
  ultimately show ?thesis
    using assms(1) by (simp add: buildMocha_sem build_events_def build_result_def)
qed

theorem buildMocha_load_failure_witness:
  "buildMocha thrown_error_env init_proc =
     (advance (Suc 0) (demo_build 0) init_proc, Rejected (JError ''Error: boom''))"
  using buildMocha_load_failure [of thrown_error_env "[''unit-a'', ''unit-b'']" "[]"
      "''./elements/unit-a/unit-a.e2etest''" "[]" init_proc "JError ''Error: boom''"]
  by (simp add: readable_def kept_def element_dir_def has_e2etest_def e2etest_re_def
      suite_file_def scan_events_def demo_build_def init_proc_def)

end
