(* ===== verification/Sequencer.thy ===== *)
theory Sequencer
  imports Discovery
begin

text \<open>
  The Execution Sequencer: \<^verbatim>\<open>runMocha\<close> (lines 89-94) and \<^verbatim>\<open>runTests\<close> (lines 96-110).
  \<open>runTests\<close> is the \<^verbatim>\<open>reduce\<close> of the source, a left fold that chains one task per driver
  to the promise of the drivers before it; \<open>run_driver\<close> is the body of its callback after
  \<^verbatim>\<open>await chain\<close>, and \<open>set_ctx\<close> the \<^verbatim>\<open>forEach\<close> of lines 102-105.
  A run of Mocha that never calls back leaves the promise of \<^verbatim>\<open>runMocha\<close> pending
  (\<open>run_verdict\<close>).

  \<open>drive_events\<close>, \<open>drive_result\<close> (one driver) and \<open>tests_events\<close>, \<open>tests_result\<close>,
  \<open>tests_started\<close> (the chain) are reference definitions: the events, the result and the
  number of Mocha instances of a run, by recursion over the drivers.

  The lemmas: the fold is the sequential loop \<open>seq_tasks\<close> (\<open>runTests_Cons\<close>); \<open>run_driver\<close>
  and \<open>runTests\<close> do what the reference definitions say (\<open>run_driver_sem\<close>, \<open>runTests_sem\<close>);
  the chain stops at the first driver whose run is not fulfilled (\<open>tests_stop\<close>); the
  operations keep the trace well formed.  The properties at the end state the equivalence
  with the loop, the stop at the first failure, and that every driver gets its own instance.
\<close>

section \<open>Operations\<close>

definition set_ctx :: "driver \<Rightarrow> string \<Rightarrow> mocha \<Rightarrow> mocha" where
  "set_ctx driver address m =
     m\<lparr>suites := map (\<lambda>s. s\<lparr>ctxDriver := Some driver, ctxAddress := Some address\<rparr>) (suites m)\<rparr>"

definition run_done :: "nat \<Rightarrow> (proc, unit) task" where
  "run_done code = (if code = 0 then resolve () else reject JUndefined)"

definition runMocha :: "env \<Rightarrow> mocha \<Rightarrow> (proc, unit) task" where
  "runMocha env m = await (mocha_run env m) run_done"

definition run_driver :: "env \<Rightarrow> string \<Rightarrow> driver \<Rightarrow> (proc, unit) task" where
  "run_driver env address driver =
     await (buildMocha env) (\<lambda>m.
     await (runMocha env (set_ctx driver address m)) (\<lambda>_. resolve ()))"

definition runTests :: "env \<Rightarrow> string \<Rightarrow> driver list \<Rightarrow> (proc, unit) task" where
  "runTests env address drivers =
     foldl (\<lambda>chain driver. await chain (\<lambda>_. run_driver env address driver))
       (resolve ()) drivers"

section \<open>Reference definitions\<close>

definition run_verdict :: "nat option \<Rightarrow> unit promise" where
  "run_verdict r =
     (case r of
        None \<Rightarrow> Pending
      | Some code \<Rightarrow> if code = 0 then Fulfilled () else Rejected JUndefined)"

definition drive_events :: "env \<Rightarrow> string \<Rightarrow> driver \<Rightarrow> nat \<Rightarrow> event list" where
  "drive_events env a d i =
     build_events env i @
     (case build_result env i of Fulfilled m \<Rightarrow> [Run (set_ctx d a m)] | _ \<Rightarrow> [])"

definition drive_result :: "env \<Rightarrow> string \<Rightarrow> driver \<Rightarrow> nat \<Rightarrow> unit promise" where
  "drive_result env a d i =
     (case build_result env i of
        Fulfilled m \<Rightarrow> run_verdict (runResult env (set_ctx d a m))
      | Rejected e \<Rightarrow> Rejected e
      | Pending \<Rightarrow> Pending)"

definition passes :: "env \<Rightarrow> string \<Rightarrow> driver \<Rightarrow> nat \<Rightarrow> bool" where
  "passes env a d i \<longleftrightarrow> drive_result env a d i = Fulfilled ()"

fun tests_events :: "env \<Rightarrow> string \<Rightarrow> driver list \<Rightarrow> nat \<Rightarrow> event list" where
  "tests_events env a [] i = []"
| "tests_events env a (d # ds) i =
     drive_events env a d i @
     (if passes env a d i then tests_events env a ds (Suc i) else [])"

fun tests_result :: "env \<Rightarrow> string \<Rightarrow> driver list \<Rightarrow> nat \<Rightarrow> unit promise" where
  "tests_result env a [] i = Fulfilled ()"
| "tests_result env a (d # ds) i =
     (if passes env a d i then tests_result env a ds (Suc i) else drive_result env a d i)"

fun tests_started :: "env \<Rightarrow> string \<Rightarrow> driver list \<Rightarrow> nat \<Rightarrow> nat" where
  "tests_started env a [] i = 0"
| "tests_started env a (d # ds) i =
     Suc (if passes env a d i then tests_started env a ds (Suc i) else 0)"

section \<open>One run\<close>

lemma mochaId_set_ctx [simp]: "mochaId (set_ctx d a m) = mochaId m"
  by (simp add: set_ctx_def)

lemma files_set_ctx [simp]: "files (set_ctx d a m) = files m"
  by (simp add: set_ctx_def)

lemma suiteTimeout_set_ctx [simp]: "suiteTimeout (set_ctx d a m) = suiteTimeout m"
  by (simp add: set_ctx_def)

lemma suites_set_ctx:
  "suites (set_ctx d a m) =
     map (\<lambda>s. \<lparr>title = title s, ctxDriver = Some d, ctxAddress = Some a\<rparr>) (suites m)"
  by (simp add: set_ctx_def)

lemma map_title_set_ctx [simp]: "map title (suites (set_ctx d a m)) = map title (suites m)"
  by (simp add: set_ctx_def comp_def)

lemma set_ctx_injected:
  "list_all (\<lambda>s. ctxDriver s = Some d \<and> ctxAddress s = Some a) (suites (set_ctx d a m))"
  by (simp add: set_ctx_def list_all_iff)

lemma run_verdict_simps [simp]:
  "run_verdict None = Pending"
  "run_verdict (Some 0) = Fulfilled ()"
  "code \<noteq> 0 \<Longrightarrow> run_verdict (Some code) = Rejected JUndefined"
  by (simp_all add: run_verdict_def)

lemma run_verdict_Fulfilled_iff: "run_verdict r = Fulfilled u \<longleftrightarrow> r = Some 0"
  by (auto simp: run_verdict_def split: option.splits)

lemma run_verdict_Pending_iff: "run_verdict r = Pending \<longleftrightarrow> r = None"
  by (auto simp: run_verdict_def split: option.splits)

lemma run_verdict_Rejected_iff:
  "run_verdict r = Rejected e \<longleftrightarrow> e = JUndefined \<and> (\<exists>code. r = Some code \<and> code \<noteq> 0)"
  by (auto simp: run_verdict_def split: option.splits)

lemma runMocha_apply:
  "runMocha env m s = (advance 0 [Run m] s, run_verdict (runResult env m))"
  by (cases "runResult env m")
    (simp_all add: runMocha_def run_done_def mocha_run_apply await_apply task_apply
      run_verdict_def)

lemma run_driver_sem:
  "run_driver env a d s =
     (advance (Suc 0) (drive_events env a d (fresh s)) s, drive_result env a d (fresh s))"
  by (cases "build_result env (fresh s)")
    (simp_all add: run_driver_def await_apply buildMocha_sem runMocha_apply task_apply
      drive_events_def drive_result_def)

lemma drive_result_Fulfilled_iff:
  "drive_result env a d i = Fulfilled u \<longleftrightarrow>
     (\<exists>m. build_result env i = Fulfilled m \<and> runResult env (set_ctx d a m) = Some 0)"
  by (auto simp: drive_result_def run_verdict_Fulfilled_iff split: promise.splits)

lemma drive_result_failed:
  "build_result env i = Fulfilled m \<Longrightarrow> runResult env (set_ctx d a m) = Some code \<Longrightarrow>
   code \<noteq> 0 \<Longrightarrow> drive_result env a d i = Rejected JUndefined"
  by (simp add: drive_result_def)

lemma event_ids_drive_events:
  "ev \<in> set (drive_events env a d i) \<Longrightarrow> event_ids ev = [] \<or> event_ids ev = [i]"
proof (cases "ev \<in> set (build_events env i)")
  case True
  then show ?thesis by (rule event_ids_build_events)
next
  case False
  assume "ev \<in> set (drive_events env a d i)"
  with False obtain m where "build_result env i = Fulfilled m" and "ev = Run (set_ctx d a m)"
    by (cases "build_result env i") (auto simp: drive_events_def)
  then show ?thesis
    by (simp add: build_result_mochaId)
qed

section \<open>The chain\<close>

lemma runTests_Nil [simp]: "runTests env a [] = resolve ()"
  by (simp add: runTests_def)

lemma runTests_Cons:
  "runTests env a (d # ds) = await (run_driver env a d) (\<lambda>_. runTests env a ds)"
  by (simp add: runTests_def foldl_await_chain)

lemma runTests_append:
  "runTests env a (ds @ es) = await (runTests env a ds) (\<lambda>_. runTests env a es)"
  by (simp add: runTests_def foldl_await_chain seq_tasks_append)

lemma runTests_sem:
  "runTests env a ds s =
     (advance (tests_started env a ds (fresh s)) (tests_events env a ds (fresh s)) s,
      tests_result env a ds (fresh s))"
proof (induction ds arbitrary: s)
  case Nil
  show ?case by (simp add: task_apply)
next
  case (Cons d ds)
  let ?s = "advance (Suc 0) (drive_events env a d (fresh s)) s"
  have 1: "run_driver env a d s = (?s, drive_result env a d (fresh s))"
    by (rule run_driver_sem)
  show ?case
  proof (cases "passes env a d (fresh s)")
    case True
    then have "drive_result env a d (fresh s) = Fulfilled ()"
      by (simp add: passes_def)
    with 1 have "runTests env a (d # ds) s = runTests env a ds ?s"
      by (simp add: runTests_Cons await_apply)
    with True show ?thesis
      by (simp add: Cons.IH)
  next
    case False
    then have "drive_result env a d (fresh s) \<noteq> Fulfilled ()"
      by (simp add: passes_def)
    with 1 False show ?thesis
      by (cases "drive_result env a d (fresh s)") (simp_all add: runTests_Cons await_apply)
  qed
qed

section \<open>Properties of the chain\<close>

lemma tests_result_Fulfilled_iff:
  "tests_result env a ds i = Fulfilled u \<longleftrightarrow>
     list_all (\<lambda>(j, d). passes env a d j) (enumerate i ds)"
  by (induction ds arbitrary: i) (auto simp: passes_def)

lemma tests_started_le: "tests_started env a ds i \<le> length ds"
  by (induction ds arbitrary: i) auto

lemma tests_started_all:
  "tests_result env a ds i = Fulfilled u \<Longrightarrow> tests_started env a ds i = length ds"
  by (induction ds arbitrary: i) (auto simp: passes_def split: if_splits)

lemma tests_stop:
  "tests_result env a ds i = Fulfilled u \<Longrightarrow> \<not> passes env a d (i + length ds) \<Longrightarrow>
   tests_result env a (ds @ d # es) i = drive_result env a d (i + length ds) \<and>
   tests_events env a (ds @ d # es) i =
     tests_events env a ds i @ drive_events env a d (i + length ds) \<and>
   tests_started env a (ds @ d # es) i = Suc (length ds)"
  by (induction ds arbitrary: i) (auto simp: passes_def split: if_splits)

lemma event_ids_tests_events:
  "ev \<in> set (tests_events env a ds i) \<Longrightarrow>
   event_ids ev = [] \<or> (\<exists>j. event_ids ev = [j] \<and> i \<le> j \<and> j < i + tests_started env a ds i)"
proof (induction ds arbitrary: i)
  case Nil
  then show ?case by simp
next
  case (Cons d ds)
  from Cons.prems consider "ev \<in> set (drive_events env a d i)"
    | "passes env a d i" and "ev \<in> set (tests_events env a ds (Suc i))"
    by (auto split: if_splits)
  then show ?case
  proof cases
    case 1
    then show ?thesis
      using event_ids_drive_events [of ev env a d i] by auto
  next
    case 2
    then show ?thesis
      using Cons.IH [of "Suc i"] by auto
  qed
qed

lemma runs_build_events [simp]: "runs (build_events env i) = []"
  by (auto simp: build_events_def scan_events_def runs_Nil_iff list_all_iff split: promise.splits)

lemma runs_drive_events:
  "runs (drive_events env a d i) =
     (case build_result env i of Fulfilled m \<Rightarrow> [set_ctx d a m] | _ \<Rightarrow> [])"
  by (simp add: drive_events_def split: promise.splits)

lemma runs_tests_events_ids:
  "tests_result env a ds i = Fulfilled u \<Longrightarrow>
   map mochaId (runs (tests_events env a ds i)) = [i..<i + length ds]"
proof (induction ds arbitrary: i)
  case Nil
  show ?case by simp
next
  case (Cons d ds)
  then have d: "passes env a d i" and ds: "tests_result env a ds (Suc i) = Fulfilled u"
    by (simp_all split: if_splits add: passes_def)
  from d obtain m where "build_result env i = Fulfilled m"
    by (auto simp: passes_def drive_result_Fulfilled_iff)
  moreover have "[i..<i + length (d # ds)] = i # [Suc i..<Suc i + length ds]"
    by (subst upt_rec) simp
  ultimately show ?case
    using d by (simp add: runs_drive_events Cons.IH [OF ds] build_result_mochaId del: upt_Suc)
qed

lemma runs_tests_events_ctx:
  "tests_result env a ds i = Fulfilled u \<Longrightarrow>
   list_all2 (\<lambda>m d. list_all (\<lambda>su. ctxDriver su = Some d \<and> ctxAddress su = Some a) (suites m))
     (runs (tests_events env a ds i)) ds"
proof (induction ds arbitrary: i)
  case Nil
  show ?case by simp
next
  case (Cons d ds)
  then have d: "passes env a d i" and ds: "tests_result env a ds (Suc i) = Fulfilled u"
    by (simp_all split: if_splits add: passes_def)
  from d obtain m where "build_result env i = Fulfilled m"
    by (auto simp: passes_def drive_result_Fulfilled_iff)
  with d show ?case
    by (simp add: runs_drive_events Cons.IH [OF ds] set_ctx_injected)
qed

lemma runs_tests_events_built:
  "m \<in> set (runs (tests_events env a ds i)) \<Longrightarrow>
   \<exists>d \<in> set ds. \<exists>j m0. build_result env j = Fulfilled m0 \<and> m = set_ctx d a m0"
proof (induction ds arbitrary: i)
  case Nil
  then show ?case by simp
next
  case (Cons d ds)
  show ?case
  proof (cases "m \<in> set (runs (drive_events env a d i))")
    case True
    then obtain m0 where "build_result env i = Fulfilled m0" and "m = set_ctx d a m0"
      by (cases "build_result env i") (simp_all add: runs_drive_events)
    then show ?thesis
      by auto
  next
    case False
    with Cons.prems have "m \<in> set (runs (tests_events env a ds (Suc i)))"
      by (simp split: if_splits)
    from Cons.IH [OF this] show ?thesis
      by auto
  qed
qed

lemma runs_tests_events_no_suites:
  assumes "\<And>j m. i \<le> j \<Longrightarrow> build_result env j = Fulfilled m \<Longrightarrow> suites m = []"
  shows "list_all (\<lambda>m. suites m = []) (runs (tests_events env a ds i))"
  using assms
proof (induction ds arbitrary: i)
  case Nil
  show ?case by simp
next
  case (Cons d ds)
  have "list_all (\<lambda>m. suites m = []) (runs (tests_events env a ds (Suc i)))"
    by (rule Cons.IH) (rule Cons.prems, rule Suc_leD)
  with Cons.prems [of i] show ?case
    by (auto simp: runs_drive_events suites_set_ctx split: promise.splits)
qed

lemma runs_tests_events_cached:
  assumes "cached_after env i" and "tests_result env a (d # ds) i = Fulfilled ()"
  shows "list_all (\<lambda>m. suites m = []) (tl (runs (tests_events env a (d # ds) i)))"
proof -
  from assms(2) obtain m0 where m0: "build_result env i = Fulfilled m0"
    and p: "passes env a d i"
    by (auto simp: passes_def drive_result_Fulfilled_iff split: if_splits)
  have "list_all (\<lambda>m. suites m = []) (runs (tests_events env a ds (Suc i)))"
    by (rule runs_tests_events_no_suites)
      (rule build_result_cached [OF assms(1) _ m0], rule Suc_le_lessD)
  with p m0 show ?thesis
    by (simp add: runs_drive_events)
qed

lemma drive_result_Pending:
  "drive_result env a d i = Pending \<Longrightarrow>
   (\<exists>path. readdirResult env path = Pending) \<or> (\<exists>m. runResult env m = None)"
  by (auto simp: drive_result_def run_verdict_Pending_iff dest: build_result_Pending
      split: promise.splits)

lemma tests_result_Pending:
  "tests_result env a ds i = Pending \<Longrightarrow>
   (\<exists>path. readdirResult env path = Pending) \<or> (\<exists>m. runResult env m = None)"
  by (induction ds arbitrary: i) (auto dest: drive_result_Pending split: if_splits)

lemma ids_below_drive_events: "ids_below (Suc i) (drive_events env a d i)"
  by (rule ids_belowI) (use event_ids_drive_events in fastforce)

lemma wf_run_driver [wf_intros]: "wf_proc s \<Longrightarrow> wf_proc (fst (run_driver env a d s))"
  by (simp add: run_driver_sem wf_advance ids_below_drive_events)

lemma ids_below_tests_events:
  "ids_below (i + tests_started env a ds i) (tests_events env a ds i)"
  by (rule ids_belowI) (use event_ids_tests_events in fastforce)

lemma wf_runTests [wf_intros]: "wf_proc s \<Longrightarrow> wf_proc (fst (runTests env a ds s))"
  by (simp add: runTests_sem wf_advance ids_below_tests_events)

section \<open>Properties\<close>

text \<open>
  C4 (Execution Sequencer, first failure): when the runs for the drivers \<open>ds\<close> have passed and
  the Mocha instance built for the next driver \<open>d\<close> reports a number of failures other than
  zero, \<^verbatim>\<open>runTests\<close> ends right after that run, rejected with \<^verbatim>\<open>undefined\<close> (the argument
  that \<^verbatim>\<open>reject()\<close> gets in \<^verbatim>\<open>runMocha\<close>); the drivers \<open>es\<close> after \<open>d\<close> get no Mocha instance
  and no run.
\<close>

theorem runTests_stops_at_first_failure:
  assumes "runTests env a ds s = (s1, Fulfilled ())"
    and "buildMocha env s1 = (s2, Fulfilled m)"
    and "runResult env (set_ctx d a m) = Some code" and "code \<noteq> 0"
  shows "runTests env a (ds @ d # es) s = (log (Run (set_ctx d a m)) s2, Rejected JUndefined)"
proof -
  from assms(2-4) have "run_driver env a d s1 = (log (Run (set_ctx d a m)) s2, Rejected JUndefined)"
    by (simp add: run_driver_def await_apply runMocha_apply to_advance)
  with assms(1) show ?thesis
    by (simp add: runTests_append runTests_Cons await_apply task_apply)
qed

theorem runTests_stops_at_first_failure_witness:
  "runTests failing_env ''http://localhost:8080'' ([] @ demo_driver # [demo_driver]) init_proc =
     (log (Run (set_ctx demo_driver ''http://localhost:8080'' (demo_mocha 0)))
        (advance (Suc 0) (demo_build 0) init_proc),
      Rejected JUndefined)"
  using runTests_stops_at_first_failure [of failing_env "''http://localhost:8080''" "[]"
      init_proc init_proc "advance (Suc 0) (demo_build 0) init_proc" "demo_mocha 0" demo_driver
      2 "[demo_driver]"]
  by (simp add: task_apply buildMocha_failing_env init_proc_def)

text \<open>
  C10 (Execution Sequencer, one instance per driver): when \<^verbatim>\<open>runTests\<close> fulfils, exactly one
  Mocha instance was run for each driver, in the order of the drivers; the instances are
  fresh (their identities are consecutive, so no two runs share an instance), and every
  top-level suite of the instance run for a driver carries that driver and the server
  address in its context.
\<close>

theorem runTests_one_instance_per_driver:
  assumes "runTests env a ds s = (t, Fulfilled ())"
  shows "map mochaId (runs (added s t)) = [fresh s..<fresh s + length ds] \<and>
    list_all2 (\<lambda>m d. list_all (\<lambda>su. ctxDriver su = Some d \<and> ctxAddress su = Some a) (suites m))
      (runs (added s t)) ds"
proof -
  from assms have r: "tests_result env a ds (fresh s) = Fulfilled ()"
    and t: "added s t = tests_events env a ds (fresh s)"
    by (auto simp: runTests_sem)
  show ?thesis
    by (simp add: t runs_tests_events_ids [OF r] runs_tests_events_ctx [OF r])
qed

theorem runTests_one_instance_per_driver_witness:
  "map mochaId (runs (added init_proc
     (fst (runTests demo_env ''http://localhost:8080'' [demo_driver] init_proc)))) = [0..<1]"
  using runTests_one_instance_per_driver [of demo_env "''http://localhost:8080''"
      "[demo_driver]" init_proc
      "fst (runTests demo_env ''http://localhost:8080'' [demo_driver] init_proc)"]
  by (simp add: runTests_Cons await_apply run_driver_def buildMocha_demo_env runMocha_apply
      task_apply init_proc_def)

end
