(* ===== verification/Orchestration.thy ===== *)
theory Orchestration
  imports Browser Server Sequencer
begin

text \<open>
  \<^verbatim>\<open>main\<close> (lines 52-87) and the statement that calls it (lines 112-120).  \<open>main\<close> is cut
  at its two blank lines: \<open>startup\<close> (lines 57-68: the server is started, the drivers are
  opened, and \<^verbatim>\<open>Promise.all\<close> waits for the server and for the session of every driver; \<open>sessions\<close>
  is its result for the drivers), \<open>kill_all\<close> (lines 81-83), \<open>run_guarded\<close> (lines 73-78: the \<^verbatim>\<open>try\<close> around
  \<open>runTests\<close>, whose handler reads \<^verbatim>\<open>e.stack\<close>), \<open>teardown\<close> (lines 80-85).  \<open>toplevel\<close> is
  the \<^verbatim>\<open>then\<close>/\<^verbatim>\<open>catch\<close> chain on the promise of \<open>main\<close>; its result is how the process ends.

  The reference definitions give, for each part, the events it appends and its result as
  functions of the answers of the outside; the \<open>_sem\<close> lemmas state that the part does
  exactly that.  The lemmas after them are the facts about \<open>main\<close> and \<open>toplevel\<close> that the
  properties of the root theory are assembled from: \<open>main_sem\<close> and \<open>toplevel_sem\<close> give the
  whole program as the reference functions \<open>main_events\<close>, \<open>main_result\<close>, \<open>program_trace\<close>
  and \<open>program_outcome\<close>; \<open>main_after_tests\<close> and \<open>toplevel_after_tests\<close> say what follows the
  tests; \<open>main_result_Pending\<close> says when a run does not end; the \<open>wf\<close> lemmas are the
  invariant of the trace.  The last section evaluates the startup and the tests on the
  worlds of \<open>Scenario\<close>.
\<close>

section \<open>Operations\<close>

definition startup :: "env \<Rightarrow> (proc, server \<times> driver list) task" where
  "startup env =
     start (startServer env) (\<lambda>srv.
     await (provision env) (\<lambda>drivers.
     awaitp
       (both srv (promise_all_at (map (sessionTime env) drivers) (map (session env) drivers)))
       resolve))"

definition catch_stack :: "jsval \<Rightarrow> (proc, jsval) task" where
  "catch_stack e = (case get_stack e of Inl t \<Rightarrow> reject t | Inr st \<Rightarrow> resolve st)"

definition run_guarded :: "env \<Rightarrow> string \<Rightarrow> driver list \<Rightarrow> (proc, jsval) task" where
  "run_guarded env address drivers =
     try_catch (await (runTests env address drivers) (\<lambda>_. resolve JUndefined)) catch_stack"

definition kill_all :: "env \<Rightarrow> driver list \<Rightarrow> (proc, unit list) task" where
  "kill_all env drivers =
     all_tasks_at (map (killTime env) drivers) (map (killWebDriver env) drivers)"

definition teardown :: "env \<Rightarrow> server \<Rightarrow> driver list \<Rightarrow> (proc, unit) task" where
  "teardown env srv drivers =
     await (console_log ''Killing all browser instances...'') (\<lambda>_.
     await (kill_all env drivers) (\<lambda>_.
     await (closeServer srv) (\<lambda>_.
     console_log ''Done.'')))"

definition main :: "env \<Rightarrow> (proc, jsval) task" where
  "main env =
     await (startup env) (\<lambda>(srv, drivers).
     await (run_guarded env (address_of srv) drivers) (\<lambda>err.
     await (teardown env srv drivers) (\<lambda>_.
     resolve err)))"

definition on_fulfilled :: "jsval \<Rightarrow> proc \<Rightarrow> proc \<times> outcome" where
  "on_fulfilled err s =
     (if truthy err then process_exit 1 s
      else (log (ConsoleLog ''e2e tests done.'') s, Exit 0))"

definition on_rejected :: "jsval \<Rightarrow> proc \<Rightarrow> proc \<times> outcome" where
  "on_rejected err s =
     (case get_stack err of
        Inl t \<Rightarrow> (s, Unhandled t)
      | Inr st \<Rightarrow> process_exit 1 (log (ConsoleError st) s))"

definition toplevel :: "env \<Rightarrow> proc \<Rightarrow> proc \<times> outcome" where
  "toplevel env s0 =
     (case main env s0 of
        (s, Fulfilled err) \<Rightarrow> on_fulfilled err s
      | (s, Rejected err) \<Rightarrow> on_rejected err s
      | (s, Pending) \<Rightarrow> (s, Hung))"

section \<open>Reference definitions\<close>

definition sessions :: "env \<Rightarrow> driver list \<Rightarrow> driver list promise" where
  "sessions env ds = promise_all_at (map (sessionTime env) ds) (map (session env) ds)"

definition startup_result :: "env \<Rightarrow> nat \<Rightarrow> (server \<times> driver list) promise" where
  "startup_result env i =
     (case open_result env i (selected env) of
        Fulfilled ds \<Rightarrow>
          both (map_promise (\<lambda>p. \<lparr>port = p, staticRoot = ''docs''\<rparr>) (resolved_when (listenResult env)))
            (sessions env ds)
      | Rejected e \<Rightarrow> Rejected e
      | Pending \<Rightarrow> Pending)"

definition startup_events :: "env \<Rightarrow> nat \<Rightarrow> event list" where
  "startup_events env i = Listen ''docs'' # open_events i (startable env (selected env))"

definition guarded_result :: "unit promise \<Rightarrow> jsval promise" where
  "guarded_result r =
     (case r of
        Fulfilled u \<Rightarrow> Fulfilled JUndefined
      | Rejected e \<Rightarrow> (case get_stack e of Inl t \<Rightarrow> Rejected t | Inr st \<Rightarrow> Fulfilled st)
      | Pending \<Rightarrow> Pending)"

definition kills :: "env \<Rightarrow> driver list \<Rightarrow> unit list promise" where
  "kills env ds = promise_all_at (map (killTime env) ds) (map (killResult env) ds)"

definition teardown_events :: "env \<Rightarrow> driver list \<Rightarrow> event list" where
  "teardown_events env ds =
     ConsoleLog ''Killing all browser instances...'' # map (\<lambda>d. KillDriver (driverId d)) ds @
     (case kills env ds of Fulfilled us \<Rightarrow> [CloseServer, ConsoleLog ''Done.''] | _ \<Rightarrow> [])"

definition final_events :: "jsval promise \<Rightarrow> event list" where
  "final_events r =
     (case r of
        Fulfilled err \<Rightarrow>
          if truthy err then [ProcessExit 1] else [ConsoleLog ''e2e tests done.'']
      | Rejected e \<Rightarrow>
          (case get_stack e of Inl t \<Rightarrow> [] | Inr st \<Rightarrow> [ConsoleError st, ProcessExit 1])
      | Pending \<Rightarrow> [])"

definition final_outcome :: "jsval promise \<Rightarrow> outcome" where
  "final_outcome r =
     (case r of
        Fulfilled err \<Rightarrow> if truthy err then Exit 1 else Exit 0
      | Rejected e \<Rightarrow> (case get_stack e of Inl t \<Rightarrow> Unhandled t | Inr st \<Rightarrow> Exit 1)
      | Pending \<Rightarrow> Hung)"

definition after_startup_events :: "env \<Rightarrow> server \<Rightarrow> driver list \<Rightarrow> nat \<Rightarrow> event list" where
  "after_startup_events env srv ds j =
     tests_events env (address_of srv) ds j @
     (case guarded_result (tests_result env (address_of srv) ds j) of
        Fulfilled err \<Rightarrow> teardown_events env ds
      | _ \<Rightarrow> [])"

definition after_startup_result :: "env \<Rightarrow> server \<Rightarrow> driver list \<Rightarrow> nat \<Rightarrow> jsval promise" where
  "after_startup_result env srv ds j =
     (case guarded_result (tests_result env (address_of srv) ds j) of
        Fulfilled err \<Rightarrow> map_promise (\<lambda>us. err) (kills env ds)
      | Rejected e \<Rightarrow> Rejected e
      | Pending \<Rightarrow> Pending)"

definition main_events :: "env \<Rightarrow> nat \<Rightarrow> event list" where
  "main_events env i =
     startup_events env i @
     (case startup_result env i of
        Fulfilled (srv, ds) \<Rightarrow> after_startup_events env srv ds (i + length ds)
      | _ \<Rightarrow> [])"

definition main_result :: "env \<Rightarrow> nat \<Rightarrow> jsval promise" where
  "main_result env i =
     (case startup_result env i of
        Fulfilled (srv, ds) \<Rightarrow> after_startup_result env srv ds (i + length ds)
      | Rejected e \<Rightarrow> Rejected e
      | Pending \<Rightarrow> Pending)"

definition main_allocs :: "env \<Rightarrow> nat \<Rightarrow> nat" where
  "main_allocs env i =
     length (startable env (selected env)) +
     (case startup_result env i of
        Fulfilled (srv, ds) \<Rightarrow> tests_started env (address_of srv) ds (i + length ds)
      | _ \<Rightarrow> 0)"

definition program_trace :: "env \<Rightarrow> event list" where
  "program_trace env = main_events env 0 @ final_events (main_result env 0)"

definition program_outcome :: "env \<Rightarrow> outcome" where
  "program_outcome env = final_outcome (main_result env 0)"

section \<open>States of the demo world\<close>

definition demo_started :: proc where
  "demo_started =
     \<lparr>trace = [Listen ''docs'', GetDriver 0 (chrome\<lparr>arguments := [''--no-sandbox'']\<rparr>),
        SetScriptTimeout 0 60000],
      fresh = 1\<rparr>"

definition demo_tested :: proc where
  "demo_tested =
     \<lparr>trace = trace demo_started @ demo_build 1 @
        [Run (set_ctx demo_driver ''http://localhost:8080'' (demo_mocha 1))],
      fresh = 2\<rparr>"

definition demo_required :: proc where
  "demo_required = \<lparr>trace = trace demo_started @ demo_build 1, fresh = 2\<rparr>"

section \<open>The parts of main\<close>

lemma session_Fulfilled_iff [simp]:
  "session env d = Fulfilled x \<longleftrightarrow> sessionResult env d = Fulfilled () \<and> x = d"
  by (auto simp: session_def)

lemma session_Pending_iff [simp]: "session env d = Pending \<longleftrightarrow> sessionResult env d = Pending"
  by (simp add: session_def)

lemma session_Rejected_iff [simp]:
  "session env d = Rejected e \<longleftrightarrow> sessionResult env d = Rejected e"
  by (simp add: session_def)

lemma sessions_Fulfilled_iff:
  "sessions env ds = Fulfilled xs \<longleftrightarrow>
     list_all (\<lambda>d. sessionResult env d = Fulfilled ()) ds \<and> xs = ds"
proof -
  have "map (session env) ds = map Fulfilled xs \<longleftrightarrow>
      list_all (\<lambda>d. sessionResult env d = Fulfilled ()) ds \<and> xs = ds"
  proof (induction ds arbitrary: xs)
    case Nil
    show ?case by auto
  next
    case (Cons d ds)
    show ?case
      by (cases xs) (auto simp: Cons.IH)
  qed
  then show ?thesis
    by (simp add: sessions_def promise_all_at_Fulfilled_iff promise_all_Fulfilled_iff)
qed

lemma sessions_all_Fulfilled:
  "list_all (\<lambda>d. sessionResult env d = Fulfilled ()) ds \<Longrightarrow> sessions env ds = Fulfilled ds"
  by (simp add: sessions_Fulfilled_iff)

lemma sessions_Nil [simp]: "sessions env [] = Fulfilled []"
  by (simp add: sessions_def)

lemma sessions_Pending: "sessions env ds = Pending \<Longrightarrow> \<exists>d. sessionResult env d = Pending"
  by (auto simp: sessions_def promise_all_at_Pending_iff dest!: promise_all_map_Pending)

lemma sessions_Rejected:
  "sessions env ds = Rejected e \<Longrightarrow> \<exists>d \<in> set ds. sessionResult env d = Rejected e"
proof -
  assume "sessions env ds = Rejected e"
  then have "Rejected e \<in> set (map (session env) ds)"
    unfolding sessions_def by (rule promise_all_at_Rejected_mem)
  then obtain d where "d \<in> set ds" and "session env d = Rejected e"
    by (metis imageE list.set_map)
  then show ?thesis
    by auto
qed

lemma sessions_not_Rejected:
  "\<forall>d e. sessionResult env d \<noteq> Rejected e \<Longrightarrow> both Pending (sessions env ds) = Pending"
  by (auto simp: both_Pending_iff dest: sessions_Rejected)

lemma startup_sem:
  "startup env s =
     (advance (length (startable env (selected env))) (startup_events env (fresh s)) s,
      startup_result env (fresh s))"
  by (cases "open_result env (fresh s) (selected env)")
    (simp_all add: startup_def start_apply await_apply startServer_apply provision_sem
      to_advance startup_result_def startup_events_def task_apply sessions_def)

lemma run_guarded_apply:
  "run_guarded env a ds s =
     (fst (runTests env a ds s), guarded_result (snd (runTests env a ds s)))"
proof (cases "snd (runTests env a ds s)")
  case (Rejected e)
  then show ?thesis
    by (cases "get_stack e")
      (simp_all add: run_guarded_def catch_stack_def try_catch_apply await_apply task_apply guarded_result_def)
qed (simp_all add: run_guarded_def catch_stack_def try_catch_apply await_apply task_apply guarded_result_def)

lemma start_all_kill:
  "start_all (map (killWebDriver env) ds) s =
     (advance 0 (map (\<lambda>d. KillDriver (driverId d)) ds) s, map (killResult env) ds)"
proof (induction ds arbitrary: s)
  case Nil
  show ?case by simp
next
  case (Cons d ds)
  have "killWebDriver env d s = (advance 0 [KillDriver (driverId d)] s, killResult env d)"
    by (rule killWebDriver_apply)
  then show ?case
    by (simp add: Cons.IH)
qed

lemma kill_all_apply:
  "kill_all env ds s = (advance 0 (map (\<lambda>d. KillDriver (driverId d)) ds) s, kills env ds)"
  by (simp add: kill_all_def all_tasks_at_apply start_all_kill kills_def)

lemma teardown_sem:
  "teardown env srv ds s =
     (advance 0 (teardown_events env ds) s, map_promise (\<lambda>us. ()) (kills env ds))"
  by (cases "kills env ds")
    (simp_all add: teardown_def await_apply console_log_apply closeServer_apply
      kill_all_apply teardown_events_def)

section \<open>main and the end of the process\<close>

lemma main_startup_not_fulfilled:
  "startup env s = (s1, r) \<Longrightarrow> (\<forall>x. r \<noteq> Fulfilled x) \<Longrightarrow>
   main env s = (s1, case r of Rejected e \<Rightarrow> Rejected e | _ \<Rightarrow> Pending)"
  by (cases r) (simp_all add: main_def await_apply)

lemma main_started:
  assumes "startup env s = (s1, Fulfilled (srv, ds))"
  shows "main env s =
     (case guarded_result (snd (runTests env (address_of srv) ds s1)) of
        Fulfilled err \<Rightarrow>
          (advance 0 (teardown_events env ds) (fst (runTests env (address_of srv) ds s1)),
           map_promise (\<lambda>us. err) (kills env ds))
      | Rejected e \<Rightarrow> (fst (runTests env (address_of srv) ds s1), Rejected e)
      | Pending \<Rightarrow> (fst (runTests env (address_of srv) ds s1), Pending))"
proof -
  let ?t = "fst (runTests env (address_of srv) ds s1)"
  let ?g = "guarded_result (snd (runTests env (address_of srv) ds s1))"
  have 1: "run_guarded env (address_of srv) ds s1 = (?t, ?g)"
    by (rule run_guarded_apply)
  have 2: "teardown env srv ds ?t =
      (advance 0 (teardown_events env ds) ?t, map_promise (\<lambda>us. ()) (kills env ds))"
    by (rule teardown_sem)
  show ?thesis
    by (cases ?g; cases "kills env ds") (simp_all add: main_def await_apply assms 1 2 task_apply)
qed

lemma startup_result_Fulfilled_iff:
  "startup_result env i = Fulfilled (srv, ds) \<longleftrightarrow>
     list_all (starts env) (selected env) \<and> ds = map driver_of (enumerate i (selected env)) \<and>
     list_all (\<lambda>d. sessionResult env d = Fulfilled ()) ds \<and>
     (\<exists>p. listenResult env = Some p \<and> srv = \<lparr>port = p, staticRoot = ''docs''\<rparr>)"
proof (cases "open_result env i (selected env)")
  case (Fulfilled xs)
  then show ?thesis
    using open_result_Fulfilled_iff [of env i "selected env" xs]
    by (auto simp: startup_result_def sessions_Fulfilled_iff)
next
  case (Rejected e)
  then show ?thesis
    using open_result_Fulfilled_iff [of env i "selected env" ds]
    by (auto simp: startup_result_def)
qed simp

lemma startup_started:
  assumes "startup_result env i = Fulfilled (srv, ds)"
  shows "startable env (selected env) = selected env" and "length (selected env) = length ds"
  using assms by (simp_all add: startup_result_Fulfilled_iff startable_all)

lemma main_sem:
  "main env s =
     (advance (main_allocs env (fresh s)) (main_events env (fresh s)) s, main_result env (fresh s))"
proof (cases "startup_result env (fresh s)")
  case (Fulfilled x)
  obtain srv ds where x: "x = (srv, ds)"
    by (cases x)
  let ?s1 = "advance (length ds) (startup_events env (fresh s)) s"
  let ?a = "address_of srv"
  from Fulfilled x have 1: "startup env s = (?s1, Fulfilled (srv, ds))"
    by (simp add: startup_sem startup_started)
  have 2: "runTests env ?a ds ?s1 =
      (advance (tests_started env ?a ds (fresh s + length ds))
         (tests_events env ?a ds (fresh s + length ds)) ?s1,
       tests_result env ?a ds (fresh s + length ds))"
    by (simp add: runTests_sem)
  from Fulfilled x show ?thesis
    by (simp add: main_started [OF 1] 2 main_allocs_def main_events_def main_result_def
        after_startup_events_def after_startup_result_def startup_started
        split: promise.splits)
next
  case Pending
  then show ?thesis
    using main_startup_not_fulfilled [of env s _ Pending]
    by (simp add: startup_sem main_allocs_def main_events_def main_result_def)
next
  case (Rejected e)
  then show ?thesis
    using main_startup_not_fulfilled [of env s _ "Rejected e"]
    by (simp add: startup_sem main_allocs_def main_events_def main_result_def)
qed

lemma guarded_result_simps [simp]:
  "guarded_result Pending = Pending"
  "guarded_result (Fulfilled u) = Fulfilled JUndefined"
  "guarded_result (Rejected e) = (case get_stack e of Inl t \<Rightarrow> Rejected t | Inr st \<Rightarrow> Fulfilled st)"
  by (simp_all add: guarded_result_def)

lemma guarded_result_Rejected_iff:
  "guarded_result r = Rejected t \<longleftrightarrow>
     t = type_error \<and> (r = Rejected JUndefined \<or> r = Rejected JNull)"
proof (cases r)
  case (Rejected e)
  then show ?thesis
    by (cases e rule: get_stack.cases) (auto simp: guarded_result_def)
qed (simp_all add: guarded_result_def)

lemma guarded_result_Fulfilled_iff:
  "guarded_result r = Fulfilled err \<longleftrightarrow>
     (\<exists>u. r = Fulfilled u) \<and> err = JUndefined \<or>
     (\<exists>e. r = Rejected e \<and> get_stack e = Inr err)"
proof (cases r)
  case (Rejected e)
  then show ?thesis
    by (cases "get_stack e") (auto simp: guarded_result_def)
qed (auto simp add: guarded_result_def)

lemma guarded_result_Pending_iff [simp]: "guarded_result r = Pending \<longleftrightarrow> r = Pending"
proof (cases r)
  case (Rejected e)
  then show ?thesis
    by (cases "get_stack e") (auto simp: guarded_result_def)
qed (simp_all add: guarded_result_def)

lemma guarded_result_valueless [simp]:
  "guarded_result r \<noteq> Rejected JUndefined" "guarded_result r \<noteq> Rejected JNull"
  by (auto simp: guarded_result_Rejected_iff type_error_def)

lemma guarded_result_settles_iff:
  "(\<exists>err. guarded_result r = Fulfilled err) \<longleftrightarrow>
     (case r of Fulfilled u \<Rightarrow> True | Rejected e \<Rightarrow> e \<noteq> JUndefined \<and> e \<noteq> JNull
      | Pending \<Rightarrow> False)"
  using get_stack_Inr_iff [of "case r of Rejected e \<Rightarrow> e | _ \<Rightarrow> JUndefined"]
  by (cases r) (auto simp: guarded_result_Fulfilled_iff)

lemma final_outcome_Unhandled_iff:
  "final_outcome r = Unhandled t \<longleftrightarrow>
     t = type_error \<and> (r = Rejected JUndefined \<or> r = Rejected JNull)"
  by (cases r; cases "case r of Rejected e \<Rightarrow> e | _ \<Rightarrow> JUndefined" rule: get_stack.cases)
    (auto simp: final_outcome_def)

lemma main_result_Rejected_iff:
  "main_result env i = Rejected e \<longleftrightarrow>
     startup_result env i = Rejected e \<or>
     (\<exists>srv ds. startup_result env i = Fulfilled (srv, ds) \<and>
        (guarded_result (tests_result env (address_of srv) ds (i + length ds)) = Rejected e \<or>
         (\<exists>err. guarded_result (tests_result env (address_of srv) ds (i + length ds)) =
            Fulfilled err) \<and> kills env ds = Rejected e))"
  by (auto simp: main_result_def after_startup_result_def split: promise.splits)

lemma startup_loads_no_suite: "Require j f \<notin> set (startup_events env i)"
  by (auto simp: startup_events_def open_events_def driver_events_def)

lemma toplevel_apply:
  "toplevel env s =
     (advance 0 (final_events (snd (main env s))) (fst (main env s)),
      final_outcome (snd (main env s)))"
proof (cases "snd (main env s)")
  case (Rejected e)
  then show ?thesis
    by (cases "get_stack e")
      (simp_all add: toplevel_def on_fulfilled_def on_rejected_def final_events_def final_outcome_def process_exit_apply
        to_advance split_beta)
qed (simp_all add: toplevel_def on_fulfilled_def on_rejected_def final_events_def final_outcome_def process_exit_apply
    to_advance split_beta)

lemma toplevel_sem:
  "toplevel env s =
     (advance (main_allocs env (fresh s))
        (main_events env (fresh s) @ final_events (main_result env (fresh s))) s,
      final_outcome (main_result env (fresh s)))"
  by (simp add: toplevel_apply main_sem)

lemma trace_toplevel_init: "trace (fst (toplevel env init_proc)) = program_trace env"
  by (simp add: toplevel_sem program_trace_def init_proc_def)

lemma outcome_toplevel_init: "snd (toplevel env init_proc) = program_outcome env"
  by (simp add: toplevel_sem program_outcome_def init_proc_def)

lemma teardown_events_no_run [simp]: "runs (teardown_events env ds) = []"
  by (cases "kills env ds") (simp_all add: teardown_events_def comp_def runs_Nil_iff list_all_iff)

lemma runs_startup_events [simp]: "runs (startup_events env i) = []"
  by (simp add: startup_events_def)

lemma runs_final_events [simp]: "runs (final_events r) = []"
  by (simp add: final_events_def split: promise.splits sum.splits)

lemma runs_main_events:
  "runs (main_events env i) =
     (case startup_result env i of
        Fulfilled (srv, ds) \<Rightarrow> runs (tests_events env (address_of srv) ds (i + length ds))
      | _ \<Rightarrow> [])"
  by (simp add: main_events_def after_startup_events_def split: promise.splits prod.splits)

lemma not_teardown_startup_events:
  "list_all (\<lambda>ev. \<not> is_teardown ev) (startup_events env i)"
  by (auto simp: startup_events_def open_events_def driver_events_def list_all_iff)

lemma not_teardown_build_events:
  "list_all (\<lambda>ev. \<not> is_teardown ev) (build_events env i)"
  by (auto simp: build_events_def scan_events_def list_all_iff split: promise.splits)

lemma not_teardown_drive_events:
  "list_all (\<lambda>ev. \<not> is_teardown ev) (drive_events env a d i)"
  using not_teardown_build_events [of env i]
  by (simp add: drive_events_def split: promise.splits)

lemma not_teardown_tests_events:
  "list_all (\<lambda>ev. \<not> is_teardown ev) (tests_events env a ds i)"
  by (induction ds arbitrary: i) (simp_all add: not_teardown_drive_events)

section \<open>What follows the tests\<close>

lemma main_after_tests:
  assumes "startup env s = (s1, Fulfilled (srv, ds))"
    and "runTests env (address_of srv) ds s1 = (s2, r)"
  shows "main env s =
     (case guarded_result r of
        Fulfilled err \<Rightarrow>
          (advance 0 (teardown_events env ds) s2, map_promise (\<lambda>us. err) (kills env ds))
      | Rejected e \<Rightarrow> (s2, Rejected e)
      | Pending \<Rightarrow> (s2, Pending))"
  using main_started [OF assms(1)] assms(2) by (cases "guarded_result r") (simp_all add: guarded_result_def)

lemma kills_all_Fulfilled:
  "list_all (\<lambda>d. killResult env d = Fulfilled ()) ds \<Longrightarrow>
   kills env ds = Fulfilled (map (\<lambda>d. ()) ds)"
  by (simp add: kills_def promise_all_at_Fulfilled_iff promise_all_Fulfilled_iff list_all_iff
      comp_def)

lemma teardown_events_all_killed:
  "list_all (\<lambda>d. killResult env d = Fulfilled ()) ds \<Longrightarrow>
   teardown_events env ds =
     ConsoleLog ''Killing all browser instances...'' # map (\<lambda>d. KillDriver (driverId d)) ds @
     [CloseServer, ConsoleLog ''Done.'']"
  by (simp add: teardown_events_def kills_all_Fulfilled)

lemma toplevel_after_tests:
  assumes "startup env s = (s1, Fulfilled (srv, ds))"
    and "runTests env (address_of srv) ds s1 = (s2, r)"
    and "list_all (\<lambda>d. killResult env d = Fulfilled ()) ds"
    and "guarded_result r = Fulfilled err"
  shows "toplevel env s =
     (advance 0 (teardown_events env ds @ final_events (Fulfilled err)) s2,
      final_outcome (Fulfilled err))"
  using assms
  by (simp add: toplevel_apply main_after_tests [OF assms(1,2)] kills_all_Fulfilled)

section \<open>Runs that do not end\<close>

lemma kills_Pending: "kills env ds = Pending \<Longrightarrow> \<exists>d. killResult env d = Pending"
  by (auto simp: kills_def promise_all_at_Pending_iff dest!: promise_all_map_Pending)

lemma startup_result_Pending:
  "startup_result env i = Pending \<Longrightarrow>
   listenResult env = None \<or> (\<exists>d. sessionResult env d = Pending)"
  by (auto simp: startup_result_def both_Pending_iff dest: sessions_Pending
      split: promise.splits)

lemma main_result_Pending:
  assumes "main_result env i = Pending"
  shows "listenResult env = None \<or> (\<exists>d. sessionResult env d = Pending) \<or>
    (\<exists>path. readdirResult env path = Pending) \<or>
    (\<exists>m. runResult env m = None) \<or> (\<exists>d. killResult env d = Pending)"
proof (cases "startup_result env i")
  case (Fulfilled x)
  obtain srv ds where x: "x = (srv, ds)"
    by (cases x)
  show ?thesis
  proof (cases "guarded_result (tests_result env (address_of srv) ds (i + length ds))")
    case Pending
    then show ?thesis
      by (auto dest: tests_result_Pending)
  next
    case (Fulfilled err)
    with assms \<open>startup_result env i = Fulfilled x\<close> x have "kills env ds = Pending"
      by (simp add: main_result_def after_startup_result_def)
    then show ?thesis
      by (auto dest: kills_Pending)
  next
    case (Rejected e)
    with assms \<open>startup_result env i = Fulfilled x\<close> x show ?thesis
      by (simp add: main_result_def after_startup_result_def)
  qed
qed (use assms in \<open>auto simp: main_result_def dest: startup_result_Pending\<close>)

lemma final_outcome_Hung_iff: "final_outcome r = Hung \<longleftrightarrow> r = Pending"
  by (cases r; cases "get_stack (case r of Rejected e \<Rightarrow> e | _ \<Rightarrow> JUndefined)")
    (auto simp: final_outcome_def)

section \<open>The invariant of the trace\<close>

lemma ids_below_startup_events:
  "ids_below (i + length (startable env (selected env))) (startup_events env i)"
  by (simp add: startup_events_def ids_below_open_events)

lemma wf_startup [wf_intros]: "wf_proc s \<Longrightarrow> wf_proc (fst (startup env s))"
  by (simp add: startup_sem wf_advance ids_below_startup_events)

lemma ids_below_teardown_events:
  "list_all (\<lambda>d. driverId d < n) ds \<Longrightarrow> ids_below n (teardown_events env ds)"
  by (auto simp: teardown_events_def ids_below_def list_all_iff split: promise.splits)

lemma wf_teardown [wf_intros]:
  "wf_proc s \<Longrightarrow> list_all (\<lambda>d. driverId d < fresh s) ds \<Longrightarrow>
   wf_proc (fst (teardown env srv ds s))"
  by (simp add: teardown_sem wf_advance ids_below_teardown_events)

lemma ids_below_final_events [simp]: "ids_below n (final_events r)"
  by (auto simp: final_events_def split: promise.splits sum.splits)

lemma startup_drivers_below:
  "startup_result env i = Fulfilled (srv, ds) \<Longrightarrow> list_all (\<lambda>d. driverId d < i + length ds) ds"
  by (auto simp: startup_result_Fulfilled_iff list_all_iff driver_of_def in_set_enumerate_eq)

lemma ids_below_main_events: "ids_below (i + main_allocs env i) (main_events env i)"
proof (cases "startup_result env i")
  case (Fulfilled x)
  obtain srv ds where x: "x = (srv, ds)"
    by (cases x)
  let ?n = "i + length ds + tests_started env (address_of srv) ds (i + length ds)"
  from Fulfilled x have "ids_below (i + length ds) (startup_events env i)"
    using ids_below_startup_events [of i env] by (simp add: startup_started)
  then have "ids_below ?n (startup_events env i)"
    by (rule ids_below_mono) simp
  moreover have "ids_below ?n (tests_events env (address_of srv) ds (i + length ds))"
    by (rule ids_below_tests_events)
  moreover from Fulfilled x have "list_all (\<lambda>d. driverId d < ?n) ds"
    using startup_drivers_below [of env i srv ds] by (auto simp: list_all_iff)
  then have "ids_below ?n (teardown_events env ds)"
    by (rule ids_below_teardown_events)
  ultimately show ?thesis
    using Fulfilled x
    by (simp add: main_events_def main_allocs_def after_startup_events_def startup_started
        add.assoc split: promise.splits)
qed (use ids_below_startup_events [of i env] in
    \<open>simp_all add: main_events_def main_allocs_def\<close>)

lemma wf_main [wf_intros]: "wf_proc s \<Longrightarrow> wf_proc (fst (main env s))"
  by (simp add: main_sem wf_advance ids_below_main_events)

lemma wf_toplevel [wf_intros]: "wf_proc s \<Longrightarrow> wf_proc (fst (toplevel env s))"
  by (simp add: toplevel_sem wf_advance ids_below_main_events)

section \<open>Scenarios\<close>

lemmas run_eval = main_allocs_def main_result_def after_startup_result_def main_events_def
  after_startup_events_def startup_events_def startup_result_def sessions_def session_def
  selected_eq browserFilter_iff
  starts_def driver_of_def addArguments_def driver_events_def open_events_def passes_def
  drive_result_def drive_events_def discovery_eval guarded_result_def set_ctx_def
  teardown_events_def kills_def promise_all_at_def first_rejection_def final_events_def
  final_outcome_def init_proc_def advance_def

lemmas startup_eval = startup_sem run_eval demo_server_def demo_driver_def demo_started_def

lemmas tests_eval = runTests_sem run_eval demo_started_def demo_build_def demo_mocha_def

lemma address_of_demo_server [simp]: "address_of demo_server = ''http://localhost:8080''"
  by (simp add: demo_server_def)

lemma startup_demo_env: "startup demo_env init_proc = (demo_started, Fulfilled (demo_server, [demo_driver]))"
  by (simp add: startup_eval)

lemma startup_failing_env:
  "startup failing_env init_proc = (demo_started, Fulfilled (demo_server, [demo_driver]))"
  by (simp add: startup_eval)

lemma startup_thrown_error_env:
  "startup thrown_error_env init_proc = (demo_started, Fulfilled (demo_server, [demo_driver]))"
  by (simp add: startup_eval)

lemma startup_thrown_string_env:
  "startup thrown_string_env init_proc = (demo_started, Fulfilled (demo_server, [demo_driver]))"
  by (simp add: startup_eval)

lemma runTests_demo_env:
  "runTests demo_env (address_of demo_server) [demo_driver] demo_started =
     (demo_tested, Fulfilled ())"
  by (simp add: tests_eval demo_tested_def)

lemma runTests_failing_env:
  "runTests failing_env (address_of demo_server) [demo_driver] demo_started =
     (demo_tested, Rejected JUndefined)"
  by (simp add: tests_eval demo_tested_def)

lemma runTests_thrown_error_env:
  "runTests thrown_error_env (address_of demo_server) [demo_driver] demo_started =
     (demo_required, Rejected (JError ''Error: boom''))"
  by (simp add: tests_eval demo_required_def)

lemma runTests_thrown_string_env:
  "runTests thrown_string_env (address_of demo_server) [demo_driver] demo_started =
     (demo_required, Rejected (JString ''boom''))"
  by (simp add: tests_eval demo_required_def)

lemma startup_thrown_env:
  "startup (thrown_env v) init_proc = (demo_started, Fulfilled (demo_server, [demo_driver]))"
  by (simp add: startup_eval)

lemma runTests_thrown_env:
  "runTests (thrown_env v) (address_of demo_server) [demo_driver] demo_started =
     (demo_required, Rejected v)"
  by (simp add: tests_eval demo_required_def)

lemma main_thrown_env:
  "main (thrown_env v) init_proc =
     (case get_stack v of
        Inl t \<Rightarrow> (demo_required, Rejected t)
      | Inr st \<Rightarrow>
          (logs [ConsoleLog ''Killing all browser instances...'', KillDriver 0, CloseServer,
             ConsoleLog ''Done.''] demo_required, Fulfilled st))"
  by (simp add: main_after_tests [OF startup_thrown_env runTests_thrown_env] guarded_result_def
      teardown_events_def kills_def promise_all_at_def first_rejection_def to_advance
      split: sum.split)

lemma startup_stuck_kill_env:
  "startup stuck_kill_env init_proc = (demo_started, Fulfilled (demo_server, [demo_driver]))"
  by (simp add: startup_eval)

lemma runTests_stuck_kill_env:
  "runTests stuck_kill_env (address_of demo_server) [demo_driver] demo_started =
     (demo_tested, Fulfilled ())"
  by (simp add: tests_eval demo_tested_def)

lemma startup_silent_run_env:
  "startup silent_run_env init_proc = (demo_started, Fulfilled (demo_server, [demo_driver]))"
  by (simp add: startup_eval)

lemma program_outcome_demo_env: "program_outcome demo_env = Exit 0"
  by (simp add: program_outcome_def run_eval)

end
