(* ===== verification/Script.thy ===== *)
theory Script
  imports Orchestration
begin

text \<open>
  The module body of \<^verbatim>\<open>src/run-e2e-tests.js\<close> as a whole: the five bindings at the head of
  the file (lines 1-5) and then the last statement.

  \<open>modules\<close> are the names that the file passes to \<^verbatim>\<open>require\<close>, in the order of the lines;
  \<open>load_modules\<close> requires them one after the other and stops at the first that throws.
  \<open>script\<close> is the file: an exception of a \<^verbatim>\<open>require\<close> leaves the module body, no handler
  takes it, and the process ends before \<^verbatim>\<open>main\<close> is called (the function declarations in
  between have no effect of their own); otherwise the last statement runs (\<open>toplevel\<close>).

  \<open>loaded\<close> is the reference for \<open>load_modules\<close> and \<open>missing\<close> the error of the first
  module that does not load.  The lemmas lift what \<open>Orchestration\<close> shows of \<open>toplevel\<close> to
  the file: \<open>script_loaded\<close> and \<open>script_missing\<close> are the two paths, \<open>script_sem\<close> is
  both in one equation, \<open>script_Hung_iff\<close> and \<open>script_Exit_iff\<close> say when the file ends
  as the last statement does, \<open>script_Exit_le\<close> that the exit code is 0 or 1, \<open>wf_script\<close>
  and \<open>extends_script\<close> are the invariants.

  \<open>configured\<close> says of a Mocha instance what the file sets up before it runs one: the
  suite timeout, and in the context of every top-level suite the address of the server
  that listens and a driver that was opened for a stable Chrome without its sandbox and
  with the script timeout set.
\<close>

section \<open>Lines 1-5 and the file\<close>

definition modules :: "string list" where
  "modules = [''http'', ''mz/fs'', ''express'', ''selenium-assistant'', ''mocha'']"

fun require_each :: "env \<Rightarrow> string list \<Rightarrow> jsval + unit" where
  "require_each env [] = Inr ()"
| "require_each env (name # names) =
     (case require env name of
        Inl e \<Rightarrow> Inl e
      | Inr _ \<Rightarrow> require_each env names)"

definition load_modules :: "env \<Rightarrow> jsval + unit" where
  "load_modules env = require_each env modules"

definition script :: "env \<Rightarrow> proc \<Rightarrow> proc \<times> outcome" where
  "script env s =
     (case load_modules env of
        Inl e \<Rightarrow> (s, Uncaught e)
      | Inr _ \<Rightarrow> toplevel env s)"

section \<open>Reference definitions\<close>

definition loaded :: "env \<Rightarrow> bool" where
  "loaded env \<longleftrightarrow> list_all (\<lambda>name. moduleResult env name = None) modules"

definition missing :: "env \<Rightarrow> jsval option" where
  "missing env =
     (case List.map_filter (moduleResult env) modules of [] \<Rightarrow> None | e # es \<Rightarrow> Some e)"

definition configured :: "env \<Rightarrow> event list \<Rightarrow> mocha \<Rightarrow> bool" where
  "configured env evs m \<longleftrightarrow>
     suiteTimeout m = Some 60000 \<and>
     list_all (\<lambda>su.
        (\<exists>p. listenResult env = Some p \<and> ctxAddress su = Some (''http://localhost:'' @ show_nat p)) \<and>
        (\<exists>d. ctxDriver su = Some d \<and> scriptTimeout d = Some 60000 \<and>
           browserFilter (ofBrowser d) \<and> ''--no-sandbox'' \<in> set (arguments (ofBrowser d)) \<and>
           GetDriver (driverId d) (ofBrowser d) \<in> set evs)) (suites m)"

section \<open>Loading\<close>

lemma require_each_Inr_iff:
  "require_each env names = Inr u \<longleftrightarrow> list_all (\<lambda>name. moduleResult env name = None) names"
  by (induction names) (auto simp: require_def split: option.splits)

lemma require_each_Inl_iff:
  "require_each env names = Inl e \<longleftrightarrow>
     (\<exists>i < length names. moduleResult env (names ! i) = Some e \<and>
        (\<forall>j < i. moduleResult env (names ! j) = None))"
  by (induction names)
    (auto simp: Ex_less_Suc2 All_less_Suc2 require_def split: option.splits)

lemma require_each_missing:
  "require_each env names =
     (case List.map_filter (moduleResult env) names of [] \<Rightarrow> Inr () | e # es \<Rightarrow> Inl e)"
  by (induction names) (simp_all add: require_def map_filter_simps split: option.splits)

lemma load_modules_missing:
  "load_modules env = (case missing env of None \<Rightarrow> Inr () | Some e \<Rightarrow> Inl e)"
  by (simp add: load_modules_def missing_def require_each_missing split: list.splits)

lemma load_modules_Inr_iff: "load_modules env = Inr u \<longleftrightarrow> loaded env"
  by (simp add: load_modules_def loaded_def require_each_Inr_iff)

lemma load_modules_loaded [simp]: "loaded env \<Longrightarrow> load_modules env = Inr ()"
  by (simp add: load_modules_Inr_iff)

lemma load_modules_Inl_loaded: "load_modules env = Inl e \<Longrightarrow> \<not> loaded env"
  by (auto simp flip: load_modules_Inr_iff [of env "()"])

lemma load_modules_Inl_iff:
  "load_modules env = Inl e \<longleftrightarrow>
     (\<exists>i < length modules. moduleResult env (modules ! i) = Some e \<and>
        (\<forall>j < i. moduleResult env (modules ! j) = None))"
  by (simp only: load_modules_def require_each_Inl_iff)

section \<open>The two paths of the file\<close>

lemma load_modules_Inl_names:
  "load_modules env = Inl e \<longleftrightarrow>
     moduleResult env ''http'' = Some e \<or>
     moduleResult env ''http'' = None \<and>
     (moduleResult env ''mz/fs'' = Some e \<or>
      moduleResult env ''mz/fs'' = None \<and>
      (moduleResult env ''express'' = Some e \<or>
       moduleResult env ''express'' = None \<and>
       (moduleResult env ''selenium-assistant'' = Some e \<or>
        moduleResult env ''selenium-assistant'' = None \<and>
        moduleResult env ''mocha'' = Some e)))"
  by (auto simp: load_modules_def modules_def require_def split: option.splits)

lemma script_loaded: "loaded env \<Longrightarrow> script env s = toplevel env s"
  by (simp add: script_def)

lemma script_missing: "load_modules env = Inl e \<Longrightarrow> script env s = (s, Uncaught e)"
  by (simp add: script_def)

lemma script_cases [case_names loaded missing]:
  assumes "loaded env \<Longrightarrow> script env s = toplevel env s \<Longrightarrow> P"
    and "\<And>e. \<not> loaded env \<Longrightarrow> script env s = (s, Uncaught e) \<Longrightarrow> P"
  shows P
proof (cases "load_modules env")
  case (Inl e)
  then show ?thesis
    by (intro assms(2) [of e] load_modules_Inl_loaded script_missing)
next
  case (Inr u)
  then show ?thesis
    by (intro assms(1) script_loaded) (simp_all add: load_modules_Inr_iff [THEN iffD1])
qed

lemma toplevel_not_Uncaught [simp]: "snd (toplevel env s) \<noteq> Uncaught e"
  by (simp add: toplevel_sem final_outcome_def split: promise.splits sum.splits)

lemma script_Uncaught_iff: "snd (script env s) = Uncaught e \<longleftrightarrow> load_modules env = Inl e"
  by (cases "load_modules env") (simp_all add: script_def load_modules_Inr_iff [THEN iffD1])

lemma script_Hung_iff: "snd (script env s) = Hung \<longleftrightarrow> loaded env \<and> snd (toplevel env s) = Hung"
  by (rule script_cases [of env s]) simp_all

lemma script_Exit_iff:
  "snd (script env s) = Exit code \<longleftrightarrow> loaded env \<and> snd (toplevel env s) = Exit code"
  by (rule script_cases [of env s]) simp_all

lemma final_outcome_Exit_le: "final_outcome r = Exit code \<Longrightarrow> code \<le> 1"
  by (auto simp: final_outcome_def split: promise.splits sum.splits if_splits)

lemma script_Exit_le: "snd (script env s) = Exit code \<Longrightarrow> code \<le> 1"
  by (auto simp: script_Exit_iff toplevel_sem dest: final_outcome_Exit_le)

lemma wf_script [wf_intros]: "wf_proc s \<Longrightarrow> wf_proc (fst (script env s))"
  by (rule script_cases [of env s]) (simp_all add: wf_toplevel)

lemma script_sem:
  "script env s =
     (case missing env of
        Some e \<Rightarrow> (s, Uncaught e)
      | None \<Rightarrow>
          (advance (main_allocs env (fresh s))
             (main_events env (fresh s) @ final_events (main_result env (fresh s))) s,
           final_outcome (main_result env (fresh s))))"
  by (simp add: script_def load_modules_missing toplevel_sem split: option.splits)

lemma missing_None_iff: "missing env = None \<longleftrightarrow> loaded env"
  using load_modules_missing [of env] load_modules_Inr_iff [of env "()"]
  by (simp split: option.splits)

lemma trace_script_init:
  "trace (fst (script env init_proc)) = (if loaded env then program_trace env else [])"
  by (rule script_cases [of env init_proc]) (simp_all add: trace_toplevel_init, simp add: init_proc_def)

lemma extends_script [extends_intros]: "extends s (fst (script env s))"
  by (rule script_cases [of env s]) (simp_all add: toplevel_sem extends_def advance_def)

lemma added_script:
  "added s (fst (script env s)) =
     (if loaded env then main_events env (fresh s) @ final_events (main_result env (fresh s))
      else [])"
  by (rule script_cases [of env s]) (simp_all add: toplevel_sem)

lemma script_demo_env [simp]: "loaded demo_env" "loaded failing_env" "loaded two_chrome_env"
  by (simp_all add: loaded_def modules_def)

lemma loaded_thrown_env [simp]: "loaded (thrown_env v)" "loaded void_kill_env"
  by (simp_all add: loaded_def list_all_iff)

lemma load_modules_no_module_env:
  "load_modules no_module_env = Inl (JError ''Error: Cannot find module selenium-assistant'')"
  by (simp add: load_modules_def modules_def require_def)

end
