(* ===== verification/Protocol.thy ===== *)
theory Protocol
  imports World
begin

text \<open>
  The protocol of the resources that the script holds: the server and the webdrivers.

  A \<open>monitor\<close> records which of them are in use.  The relation \<open>mstep\<close> says which event
  is legal in which state of the monitor: a driver is opened once, it is used and killed
  only while it is alive, a Mocha instance runs only while the server is up and the
  driver in the context of its suites is alive, the server is closed once and only when
  no driver is alive (the kill of every driver that was opened has been requested), and
  nothing happens after \<^verbatim>\<open>process.exit\<close>.  \<open>msteps\<close> extends it to traces.  \<open>monitor_step\<close> and
  \<open>run_monitor\<close> are the same protocol as functions, which evaluate on a concrete
  trace; \<open>mstep_iff\<close> and \<open>msteps_iff\<close> show that relation and function agree, so the
  relation is deterministic.  \<open>mon_inv\<close> is the invariant of the monitor.
\<close>

section \<open>States and steps\<close>

record monitor =
  listening :: bool
  closed :: bool
  alive :: "nat list"
  dead :: "nat list"
  exited :: bool

definition init_monitor :: monitor where
  "init_monitor = \<lparr>listening = False, closed = False, alive = [], dead = [], exited = False\<rparr>"

definition drives :: "monitor \<Rightarrow> mocha \<Rightarrow> bool" where
  "drives m mo \<longleftrightarrow>
     list_all (\<lambda>su. case ctxDriver su of
         Some d \<Rightarrow> driverId d \<in> set (alive m) \<and> ctxAddress su \<noteq> None
       | None \<Rightarrow> False) (suites mo)"

inductive mstep :: "monitor \<Rightarrow> event \<Rightarrow> monitor \<Rightarrow> bool" where
  m_listen: "\<not> exited m \<Longrightarrow> \<not> listening m \<Longrightarrow> mstep m (Listen root) (m\<lparr>listening := True\<rparr>)"
| m_open: "\<not> exited m \<Longrightarrow> i \<notin> set (alive m) \<Longrightarrow> i \<notin> set (dead m) \<Longrightarrow>
    mstep m (GetDriver i b) (m\<lparr>alive := alive m @ [i]\<rparr>)"
| m_timeout: "\<not> exited m \<Longrightarrow> i \<in> set (alive m) \<Longrightarrow> mstep m (SetScriptTimeout i ms) m"
| m_readdir: "\<not> exited m \<Longrightarrow> mstep m (ReadDir path) m"
| m_require: "\<not> exited m \<Longrightarrow> mstep m (Require i f) m"
| m_run: "\<not> exited m \<Longrightarrow> listening m \<Longrightarrow> \<not> closed m \<Longrightarrow> drives m mo \<Longrightarrow> mstep m (Run mo) m"
| m_log: "\<not> exited m \<Longrightarrow> mstep m (ConsoleLog msg) m"
| m_error: "\<not> exited m \<Longrightarrow> mstep m (ConsoleError v) m"
| m_kill: "\<not> exited m \<Longrightarrow> i \<in> set (alive m) \<Longrightarrow>
    mstep m (KillDriver i) (m\<lparr>alive := removeAll i (alive m), dead := dead m @ [i]\<rparr>)"
| m_close: "\<not> exited m \<Longrightarrow> listening m \<Longrightarrow> \<not> closed m \<Longrightarrow> alive m = [] \<Longrightarrow>
    mstep m CloseServer (m\<lparr>closed := True\<rparr>)"
| m_exit: "\<not> exited m \<Longrightarrow> mstep m (ProcessExit code) (m\<lparr>exited := True\<rparr>)"

inductive msteps :: "monitor \<Rightarrow> event list \<Rightarrow> monitor \<Rightarrow> bool" where
  msteps_Nil: "msteps m [] m"
| msteps_Cons: "mstep m ev m' \<Longrightarrow> msteps m' evs m'' \<Longrightarrow> msteps m (ev # evs) m''"

fun monitor_step :: "event \<Rightarrow> monitor \<Rightarrow> monitor option" where
  "monitor_step (Listen root) m = (if listening m then None else Some (m\<lparr>listening := True\<rparr>))"
| "monitor_step (GetDriver i b) m =
     (if i \<in> set (alive m) \<or> i \<in> set (dead m) then None else Some (m\<lparr>alive := alive m @ [i]\<rparr>))"
| "monitor_step (SetScriptTimeout i ms) m = (if i \<in> set (alive m) then Some m else None)"
| "monitor_step (Run mo) m =
     (if listening m \<and> \<not> closed m \<and> drives m mo then Some m else None)"
| "monitor_step (KillDriver i) m =
     (if i \<in> set (alive m)
      then Some (m\<lparr>alive := removeAll i (alive m), dead := dead m @ [i]\<rparr>) else None)"
| "monitor_step CloseServer m =
     (if listening m \<and> \<not> closed m \<and> alive m = [] then Some (m\<lparr>closed := True\<rparr>)
      else None)"
| "monitor_step (ProcessExit code) m = Some (m\<lparr>exited := True\<rparr>)"
| "monitor_step ev m = Some m"

fun run_monitor :: "monitor \<Rightarrow> event list \<Rightarrow> monitor option" where
  "run_monitor m [] = Some m"
| "run_monitor m (ev # evs) =
     (if exited m then None
      else case monitor_step ev m of None \<Rightarrow> None | Some m' \<Rightarrow> run_monitor m' evs)"

definition accepts :: "event list \<Rightarrow> bool" where
  "accepts evs \<longleftrightarrow> run_monitor init_monitor evs \<noteq> None"

definition mon_inv :: "monitor \<Rightarrow> bool" where
  "mon_inv m \<longleftrightarrow> distinct (alive m @ dead m) \<and> (closed m \<longrightarrow> listening m)"

definition quiet :: "event \<Rightarrow> bool" where
  "quiet ev \<longleftrightarrow>
     (case ev of ReadDir path \<Rightarrow> True | Require i f \<Rightarrow> True | ConsoleLog msg \<Rightarrow> True
      | ConsoleError v \<Rightarrow> True | _ \<Rightarrow> False)"

section \<open>Relation and function\<close>

inductive_cases msteps_NilE [elim!]: "msteps m [] m'"
inductive_cases msteps_ConsE [elim!]: "msteps m (ev # evs) m'"

inductive_cases mstep_ListenE: "mstep m (Listen root) m'"
inductive_cases mstep_GetDriverE: "mstep m (GetDriver i b) m'"
inductive_cases mstep_RunE: "mstep m (Run mo) m'"
inductive_cases mstep_KillDriverE: "mstep m (KillDriver i) m'"
inductive_cases mstep_CloseServerE: "mstep m CloseServer m'"
inductive_cases mstep_ProcessExitE: "mstep m (ProcessExit code) m'"

lemma mstep_not_exited: "mstep m ev m' \<Longrightarrow> \<not> exited m"
  by (induction rule: mstep.induct) simp_all

lemma mstep_iff: "mstep m ev m' \<longleftrightarrow> \<not> exited m \<and> monitor_step ev m = Some m'"
proof
  assume "mstep m ev m'"
  then show "\<not> exited m \<and> monitor_step ev m = Some m'"
    by (induction rule: mstep.induct) simp_all
next
  assume "\<not> exited m \<and> monitor_step ev m = Some m'"
  then show "mstep m ev m'"
    by (cases ev) (auto split: if_splits intro: mstep.intros)
qed

lemma mstep_deterministic: "mstep m ev m' \<Longrightarrow> mstep m ev m'' \<Longrightarrow> m' = m''"
  by (simp add: mstep_iff)

lemma msteps_iff: "msteps m evs m' \<longleftrightarrow> run_monitor m evs = Some m'"
proof (induction evs arbitrary: m)
  case Nil
  show ?case by (auto intro: msteps_Nil)
next
  case (Cons ev evs)
  show ?case
    by (auto simp: mstep_iff Cons.IH [symmetric] intro: msteps_Cons split: option.splits)
qed

lemma msteps_deterministic: "msteps m evs m' \<Longrightarrow> msteps m evs m'' \<Longrightarrow> m' = m''"
  by (simp add: msteps_iff)

lemma accepts_iff: "accepts evs \<longleftrightarrow> (\<exists>m. msteps init_monitor evs m)"
  by (auto simp: accepts_def msteps_iff)

section \<open>Traces\<close>

lemma msteps_append:
  "msteps m as m' \<Longrightarrow> msteps m' bs m'' \<Longrightarrow> msteps m (as @ bs) m''"
  by (induction rule: msteps.induct) (auto intro: msteps.intros)

lemma msteps_split:
  "msteps m (as @ bs) m'' \<Longrightarrow> \<exists>m'. msteps m as m' \<and> msteps m' bs m''"
proof (induction as arbitrary: m)
  case Nil
  then show ?case by (auto intro: msteps_Nil)
next
  case (Cons a as)
  from Cons.prems obtain m1 where a: "mstep m a m1" and "msteps m1 (as @ bs) m''"
    by auto
  with Cons.IH obtain m' where "msteps m1 as m'" and "msteps m' bs m''"
    by blast
  with a show ?case
    by (blast intro: msteps_Cons)
qed

lemma msteps_append_iff:
  "msteps m (as @ bs) m'' \<longleftrightarrow> (\<exists>m'. msteps m as m' \<and> msteps m' bs m'')"
  by (blast intro: msteps_append dest: msteps_split)

lemma msteps_single: "mstep m ev m' \<Longrightarrow> msteps m [ev] m'"
  by (auto intro: msteps.intros)

lemma accepts_prefix: "accepts (as @ bs) \<Longrightarrow> accepts as"
  by (auto simp: accepts_iff msteps_append_iff)

lemma mstep_quiet: "\<not> exited m \<Longrightarrow> quiet ev \<Longrightarrow> mstep m ev m"
  by (cases ev) (auto simp: quiet_def intro: mstep.intros)

lemma msteps_quiet: "\<not> exited m \<Longrightarrow> list_all quiet evs \<Longrightarrow> msteps m evs m"
  by (induction evs) (auto intro: msteps.intros mstep_quiet)

section \<open>The invariant\<close>

lemma mon_inv_init [simp]: "mon_inv init_monitor"
  by (simp add: mon_inv_def init_monitor_def)

lemma mstep_mon_inv: "mstep m ev m' \<Longrightarrow> mon_inv m \<Longrightarrow> mon_inv m'"
  by (induction rule: mstep.induct) (auto simp: mon_inv_def distinct_removeAll)

lemma msteps_mon_inv: "msteps m evs m' \<Longrightarrow> mon_inv m \<Longrightarrow> mon_inv m'"
  by (induction rule: msteps.induct) (auto intro: mstep_mon_inv)

lemma mstep_resources:
  "mstep m ev m' \<Longrightarrow> set (alive m) \<union> set (dead m) \<subseteq> set (alive m') \<union> set (dead m') \<and>
     set (dead m) \<subseteq> set (dead m') \<and> (closed m \<longrightarrow> closed m') \<and> (listening m \<longrightarrow> listening m')"
  by (induction rule: mstep.induct) auto

lemma msteps_dead_stays: "msteps m evs m' \<Longrightarrow> set (dead m) \<subseteq> set (dead m')"
  by (induction rule: msteps.induct) (auto dest: mstep_resources)

lemma msteps_closed_stays: "msteps m evs m' \<Longrightarrow> closed m \<Longrightarrow> closed m'"
  by (induction rule: msteps.induct) (auto dest: mstep_resources)

lemma msteps_no_run_after_close:
  "msteps m evs m' \<Longrightarrow> closed m \<Longrightarrow> runs evs = []"
proof (induction rule: msteps.induct)
  case (msteps_Cons m ev m' evs m'')
  from msteps_Cons.hyps(1) msteps_Cons.prems have "closed m'" and "runs [ev] = []"
    by (induction rule: mstep.induct) simp_all
  with msteps_Cons.IH show ?case
    using runs_append [of "[ev]" evs] by simp
qed simp

lemma msteps_killed_once:
  "msteps m evs m' \<Longrightarrow> mon_inv m \<Longrightarrow>
   distinct (dead m @ concat (map (\<lambda>ev. case ev of KillDriver i \<Rightarrow> [i] | _ \<Rightarrow> []) evs))"
proof (induction rule: msteps.induct)
  case (msteps_Nil m)
  then show ?case by (simp add: mon_inv_def)
next
  case (msteps_Cons m ev m' evs m'')
  from msteps_Cons.hyps(1) msteps_Cons.prems have "mon_inv m'"
    by (rule mstep_mon_inv)
  with msteps_Cons.IH have d: "distinct (dead m' @
      concat (map (\<lambda>ev. case ev of KillDriver i \<Rightarrow> [i] | _ \<Rightarrow> []) evs))"
    by simp
  from msteps_Cons.hyps(1) d show ?case
    by (induction rule: mstep.induct) auto
qed

lemma msteps_close_after_kills:
  assumes "msteps m (as @ CloseServer # bs) m'"
  obtains m1 where "msteps m as m1" and "alive m1 = []" and "listening m1" and "\<not> closed m1"
proof -
  from assms obtain m1 m2 where "msteps m as m1" and "mstep m1 CloseServer m2"
    by (auto simp: msteps_append_iff)
  then show ?thesis
    by (auto elim!: mstep_CloseServerE intro: that)
qed

text \<open>
  What the monitor refuses: a close while a driver is alive, a second kill, a second open
  of an identity, a second close, a run after the close, an event after the exit.
\<close>

lemma refused_traces:
  "\<not> accepts [Listen r, GetDriver 0 b, CloseServer]"
  "\<not> accepts [Listen r, GetDriver 0 b, KillDriver 0, KillDriver 0]"
  "\<not> accepts [Listen r, GetDriver 0 b, GetDriver 0 b]"
  "\<not> accepts [Listen r, CloseServer, CloseServer]"
  "\<not> accepts [Listen r, CloseServer, Run mo]"
  "\<not> accepts [ProcessExit 1, ConsoleLog msg]"
  "accepts [Listen r, GetDriver 0 b, KillDriver 0, CloseServer]"
  by (simp_all add: accepts_def init_monitor_def)

end
