(* ===== verification/Conformance.thy ===== *)
theory Conformance
  imports Script Protocol
begin

text \<open>
  The runs of the script follow the protocol of \<open>Protocol\<close>.

  For each phase of a run (the startup, the runs of the tests, the teardown, the handler of
  the last statement) a lemma gives the state of the monitor before and after the events of
  the phase; \<open>msteps_program_trace\<close> composes them for the last statement and every
  world, \<open>msteps_script_trace\<close> for the file, which does nothing when a module does not
  load.  \<open>program_monitor\<close> is the state of the monitor at the end: which drivers are
  still alive, whether the server is closed, whether \<^verbatim>\<open>process.exit\<close> was called.
\<close>

section \<open>Monitor states of a run\<close>

definition started_monitor :: "nat \<Rightarrow> nat \<Rightarrow> monitor" where
  "started_monitor i k =
     \<lparr>listening = True, closed = False, alive = [i..<i + k], dead = [], exited = False\<rparr>"

definition torn_monitor :: "nat \<Rightarrow> nat \<Rightarrow> bool \<Rightarrow> monitor" where
  "torn_monitor i k ok =
     \<lparr>listening = True, closed = ok, alive = [], dead = [i..<i + k], exited = False\<rparr>"

definition killed_all :: "env \<Rightarrow> driver list \<Rightarrow> bool" where
  "killed_all env ds \<longleftrightarrow> list_all (\<lambda>d. killResult env d = Fulfilled ()) ds"

definition main_monitor :: "env \<Rightarrow> monitor" where
  "main_monitor env =
     (case startup_result env 0 of
        Fulfilled (srv, ds) \<Rightarrow>
          (case guarded_result (tests_result env (address_of srv) ds (length ds)) of
             Fulfilled err \<Rightarrow> torn_monitor 0 (length ds) (killed_all env ds)
           | _ \<Rightarrow> started_monitor 0 (length ds))
      | _ \<Rightarrow> started_monitor 0 (length (startable env (selected env))))"

definition program_monitor :: "env \<Rightarrow> monitor" where
  "program_monitor env = (main_monitor env)\<lparr>exited := (program_outcome env = Exit 1)\<rparr>"

section \<open>The phases of a run\<close>

lemma upt_shift: "i # [Suc i..<Suc i + n] = [i..<i + Suc n]"
  by (subst (2) upt_rec) simp

lemma msteps_open_events:
  "\<not> exited m \<Longrightarrow> \<forall>j \<in> set (alive m) \<union> set (dead m). j < i \<Longrightarrow>
   msteps m (open_events i bs) (m\<lparr>alive := alive m @ [i..<i + length bs]\<rparr>)"
proof (induction bs arbitrary: i m)
  case Nil
  show ?case by (simp add: msteps_Nil)
next
  case (Cons b bs)
  let ?m = "m\<lparr>alive := alive m @ [i]\<rparr>"
  from Cons.prems have "mstep m (GetDriver i b) ?m" and "mstep ?m (SetScriptTimeout i 60000) ?m"
    by (auto intro!: mstep.intros)
  moreover from Cons.prems
  have "msteps ?m (open_events (Suc i) bs) (?m\<lparr>alive := alive ?m @ [Suc i..<Suc i + length bs]\<rparr>)"
    by (intro Cons.IH) (fastforce intro: less_SucI)+
  ultimately show ?case
    using upt_shift [of i "length bs"]
    by (auto simp: driver_events_def intro!: msteps_Cons simp del: upt_Suc)
qed

lemma msteps_startup_events:
  "msteps init_monitor (startup_events env i)
     (started_monitor i (length (startable env (selected env))))"
proof -
  let ?m = "init_monitor\<lparr>listening := True\<rparr>"
  have "mstep init_monitor (Listen ''docs'') ?m"
    by (rule m_listen) (simp_all add: init_monitor_def)
  moreover have "msteps ?m (open_events i (startable env (selected env)))
      (?m\<lparr>alive := alive ?m @ [i..<i + length (startable env (selected env))]\<rparr>)"
    by (rule msteps_open_events) (simp_all add: init_monitor_def)
  ultimately show ?thesis
    by (auto simp: startup_events_def started_monitor_def init_monitor_def intro: msteps_Cons)
qed

lemma quiet_build_events: "list_all quiet (build_events env i)"
  by (auto simp: build_events_def scan_events_def quiet_def list_all_iff split: promise.splits)

lemma drives_set_ctx: "driverId d \<in> set (alive m) \<Longrightarrow> drives m (set_ctx d a mo)"
  by (simp add: drives_def set_ctx_def list_all_iff)

lemma msteps_drive_events:
  assumes "\<not> exited m" "listening m" "\<not> closed m" "driverId d \<in> set (alive m)"
  shows "msteps m (drive_events env a d i) m"
proof -
  from assms have "msteps m (build_events env i) m"
    by (simp add: msteps_quiet quiet_build_events)
  moreover from assms have "mstep m (Run (set_ctx d a mo)) m" for mo
    by (simp add: m_run drives_set_ctx)
  ultimately show ?thesis
    by (auto simp: drive_events_def split: promise.splits
        intro!: msteps_append [of m _ m] msteps_single msteps_Nil)
qed

lemma msteps_tests_events:
  assumes "\<not> exited m" "listening m" "\<not> closed m" "\<forall>d \<in> set ds. driverId d \<in> set (alive m)"
  shows "msteps m (tests_events env a ds i) m"
  using assms(4)
proof (induction ds arbitrary: i)
  case Nil
  show ?case by (simp add: msteps_Nil)
next
  case (Cons d ds)
  with assms(1-3) show ?case
    by (auto intro!: msteps_append [of m _ m] msteps_drive_events msteps_Nil)
qed

lemma msteps_kills:
  "\<not> exited m \<Longrightarrow> distinct is \<Longrightarrow> set is \<subseteq> set (alive m) \<Longrightarrow>
   msteps m (map KillDriver is)
     (m\<lparr>alive := filter (\<lambda>j. j \<notin> set is) (alive m), dead := dead m @ is\<rparr>)"
proof (induction "is" arbitrary: m)
  case Nil
  show ?case by (simp add: msteps_Nil)
next
  case (Cons i "is")
  let ?m = "m\<lparr>alive := removeAll i (alive m), dead := dead m @ [i]\<rparr>"
  from Cons.prems have "mstep m (KillDriver i) ?m"
    by (auto intro: m_kill)
  moreover from Cons.prems have "msteps ?m (map KillDriver is)
      (?m\<lparr>alive := filter (\<lambda>j. j \<notin> set is) (alive ?m), dead := dead ?m @ is\<rparr>)"
    by (intro Cons.IH) auto
  moreover have "filter (\<lambda>j. j \<notin> set is) (removeAll i (alive m)) =
      filter (\<lambda>j. j \<notin> set (i # is)) (alive m)"
    by (auto simp: removeAll_filter_not_eq intro!: filter_cong)
  then have "?m\<lparr>alive := filter (\<lambda>j. j \<notin> set is) (alive ?m), dead := dead ?m @ is\<rparr> =
      m\<lparr>alive := filter (\<lambda>j. j \<notin> set (i # is)) (alive m), dead := dead m @ i # is\<rparr>"
    by simp
  ultimately show ?case
    by (auto intro: msteps_Cons)
qed

lemma filter_not_in_self [simp]: "filter (\<lambda>j. j \<notin> set xs) xs = []"
  by (simp add: filter_empty_conv)

lemma kills_Fulfilled_iff:
  "(\<exists>us. kills env ds = Fulfilled us) \<longleftrightarrow> list_all (\<lambda>d. killResult env d = Fulfilled ()) ds"
  by (induction ds) (auto simp: kills_def promise_all_at_Fulfilled_iff)

lemma msteps_teardown_events:
  assumes "map driverId ds = [i..<i + k]"
  shows "msteps (started_monitor i k) (teardown_events env ds)
     (torn_monitor i k (killed_all env ds))"
proof -
  let ?m = "started_monitor i k"
  let ?t = "\<lparr>listening = True, closed = False, alive = [], dead = [i..<i + k], exited = False\<rparr>"
  have "msteps ?m (map KillDriver [i..<i + k])
      (?m\<lparr>alive := filter (\<lambda>j. j \<notin> set [i..<i + k]) (alive ?m), dead := dead ?m @ [i..<i + k]\<rparr>)"
    by (rule msteps_kills) (simp_all add: started_monitor_def)
  moreover have "map (\<lambda>d. KillDriver (driverId d)) ds = map KillDriver [i..<i + k]"
    using assms [symmetric] by (simp add: comp_def)
  ultimately have kills: "msteps ?m (map (\<lambda>d. KillDriver (driverId d)) ds) ?t"
    by (simp add: started_monitor_def)
  have log: "msteps ?m [ConsoleLog ''Killing all browser instances...''] ?m"
    by (simp add: msteps_quiet quiet_def started_monitor_def)
  have close: "msteps ?t [CloseServer, ConsoleLog ''Done.''] (torn_monitor i k True)"
    by (auto simp: torn_monitor_def intro!: msteps_Cons msteps_Nil m_close m_log)
  have ok: "killed_all env ds \<longleftrightarrow> (\<exists>us. kills env ds = Fulfilled us)"
    by (simp add: killed_all_def kills_Fulfilled_iff)
  show ?thesis
  proof (cases "killed_all env ds")
    case True
    with ok obtain us where "kills env ds = Fulfilled us"
      by auto
    with True show ?thesis
      using msteps_append [OF log msteps_append [OF kills close]]
      by (simp add: teardown_events_def)
  next
    case False
    with ok have "\<forall>us. kills env ds \<noteq> Fulfilled us"
      by auto
    with False show ?thesis
      using msteps_append [OF log kills]
      by (cases "kills env ds") (simp_all add: teardown_events_def torn_monitor_def)
  qed
qed

lemma not_exited_update [simp]: "\<not> exited m \<Longrightarrow> m\<lparr>exited := False\<rparr> = m"
  by (cases m) simp

lemma msteps_final_events:
  "\<not> exited m \<Longrightarrow> msteps m (final_events r) (m\<lparr>exited := (final_outcome r = Exit 1)\<rparr>)"
  by (cases r; cases "get_stack (case r of Rejected e \<Rightarrow> e | _ \<Rightarrow> JUndefined)")
    (auto simp: final_events_def final_outcome_def intro!: msteps_Cons msteps_Nil mstep.intros)

section \<open>The whole run\<close>

lemma startup_driver_ids:
  "startup_result env i = Fulfilled (srv, ds) \<Longrightarrow> map driverId ds = [i..<i + length ds]"
  by (auto simp: startup_result_Fulfilled_iff)

lemma msteps_main_events: "msteps init_monitor (main_events env 0) (main_monitor env)"
proof (cases "startup_result env 0")
  case (Fulfilled x)
  obtain srv ds where x: "x = (srv, ds)"
    by (cases x)
  let ?k = "length ds"
  let ?r = "guarded_result (tests_result env (address_of srv) ds ?k)"
  from Fulfilled x have ids: "map driverId ds = [0..<0 + ?k]"
    by (simp add: startup_driver_ids)
  from Fulfilled x have 1: "msteps init_monitor (startup_events env 0) (started_monitor 0 ?k)"
    using msteps_startup_events [of env 0] by (simp add: startup_started)
  have "\<forall>d \<in> set ds. driverId d \<in> set (alive (started_monitor 0 ?k))"
    using ids [symmetric] by (simp add: started_monitor_def)
  then have 2: "msteps (started_monitor 0 ?k) (tests_events env (address_of srv) ds ?k)
      (started_monitor 0 ?k)"
    by (intro msteps_tests_events) (simp_all add: started_monitor_def)
  have 3: "msteps (started_monitor 0 ?k) (teardown_events env ds)
      (torn_monitor 0 ?k (killed_all env ds))"
    using ids by (rule msteps_teardown_events)
  from Fulfilled x show ?thesis
    using msteps_append [OF 1 2] msteps_append [OF 1 msteps_append [OF 2 3]]
    by (cases ?r) (simp_all add: main_events_def main_monitor_def after_startup_events_def)
qed (use msteps_startup_events [of env 0] in \<open>simp_all add: main_events_def main_monitor_def\<close>)

lemma exited_main_monitor [simp]: "\<not> exited (main_monitor env)"
  by (simp add: main_monitor_def started_monitor_def torn_monitor_def split: promise.splits)

lemma msteps_program_trace: "msteps init_monitor (program_trace env) (program_monitor env)"
  unfolding program_trace_def program_monitor_def program_outcome_def
  by (intro msteps_append [OF msteps_main_events] msteps_final_events) simp

lemma msteps_script_trace:
  "msteps init_monitor (trace (fst (script env init_proc)))
     (if loaded env then program_monitor env else init_monitor)"
  by (simp add: trace_script_init msteps_program_trace msteps_Nil)

lemma final_outcome_Exit_0_iff:
  "final_outcome r = Exit 0 \<longleftrightarrow> (\<exists>err. r = Fulfilled err \<and> \<not> truthy err)"
  by (cases r; cases "get_stack (case r of Rejected e \<Rightarrow> e | _ \<Rightarrow> JUndefined)")
    (auto simp: final_outcome_def)

lemma main_result_Fulfilled_iff:
  "main_result env i = Fulfilled err \<longleftrightarrow>
     (\<exists>srv ds. startup_result env i = Fulfilled (srv, ds) \<and>
        guarded_result (tests_result env (address_of srv) ds (i + length ds)) = Fulfilled err \<and>
        killed_all env ds)"
  by (auto simp: main_result_def after_startup_result_def killed_all_def
      kills_Fulfilled_iff [symmetric] split: promise.splits)

lemma clean_exit_monitor:
  assumes "program_outcome env = Exit 0"
  shows "alive (program_monitor env) = []" and "closed (program_monitor env)"
    and "\<not> exited (program_monitor env)"
proof -
  from assms obtain srv ds err where "startup_result env 0 = Fulfilled (srv, ds)"
    and "guarded_result (tests_result env (address_of srv) ds (length ds)) = Fulfilled err"
    and "killed_all env ds"
    by (auto simp: program_outcome_def final_outcome_Exit_0_iff main_result_Fulfilled_iff)
  with assms show "alive (program_monitor env) = []" and "closed (program_monitor env)"
    and "\<not> exited (program_monitor env)"
    by (simp_all add: program_monitor_def main_monitor_def torn_monitor_def)
qed

lemma main_value:
  assumes "main env s = (t, Fulfilled err)"
  obtains s1 srv ds where "startup env s = (s1, Fulfilled (srv, ds))"
    and "guarded_result (snd (runTests env (address_of srv) ds s1)) = Fulfilled err"
proof -
  from assms have "main_result env (fresh s) = Fulfilled err"
    by (simp add: main_sem)
  then obtain srv ds where st: "startup_result env (fresh s) = Fulfilled (srv, ds)"
    and g: "guarded_result (tests_result env (address_of srv) ds (fresh s + length ds)) =
      Fulfilled err"
    by (auto simp: main_result_Fulfilled_iff)
  let ?s1 = "fst (startup env s)"
  from st have "startup env s = (?s1, Fulfilled (srv, ds))"
    by (simp add: startup_sem)
  moreover from st startup_started [OF st] have "fresh ?s1 = fresh s + length ds"
    by (simp add: startup_sem)
  with g have "guarded_result (snd (runTests env (address_of srv) ds ?s1)) = Fulfilled err"
    by (simp add: runTests_sem)
  ultimately show ?thesis
    by (rule that)
qed

lemma guarded_falsy_iff:
  "(\<exists>err. guarded_result r = Fulfilled err \<and> \<not> truthy err) \<longleftrightarrow>
     (case r of
        Fulfilled u \<Rightarrow> True
      | Rejected e \<Rightarrow> (\<exists>st. get_stack e = Inr st \<and> \<not> truthy st)
      | Pending \<Rightarrow> False)"
  by (cases r; cases "get_stack (case r of Rejected e \<Rightarrow> e | _ \<Rightarrow> JUndefined)") auto

end
