(* ===== verification/Settle.thy ===== *)
theory Settle
  imports JS_Prelude
begin

text \<open>
  \<^verbatim>\<open>Promise.all\<close> as the runtime executes it: a machine that reacts to the settlements of
  its input promises one at a time, in the order in which they arrive.

  \<^item> \<open>all_state\<close> is the state of one call: the array of values collected so far
    (\<open>slots\<close>), the counter of inputs still to be fulfilled (\<open>remaining\<close>) and the state
    of the promise that the call returned (\<open>settled\<close>).  \<open>on_fulfil\<close> and \<open>on_reject\<close> are
    the two reactions that the call registers on every input; a promise settles once
    (\<open>settle_once\<close>), so only the first rejection, or the last fulfilment, has an effect.
  \<^item> \<open>deliver\<close> is the step relation: the outside delivers the settlement of an input
    that is not pending and has not been delivered before.  \<open>run_all\<close> runs the machine
    on a list of arrivals; \<open>valid\<close> and \<open>complete\<close> say that a list is an execution, and
    one in which every settled input has arrived.  \<open>all_tasks_by\<close> is \<^verbatim>\<open>Promise.all\<close> over
    tasks for a given order of arrival: the tasks are started in order, then the machine
    runs.
  \<^item> \<open>state_after\<close> is the state after a sequence of arrivals in closed form, and
    \<open>verdict\<close> its promise.  \<open>arrival\<close> reads an order of arrival as settle times: the
    position of every input in the order.

  The lemmas: the machine computes the closed form (\<open>run_all_state_after\<close>); executions of
  the step relation are the valid lists (\<open>deliver_star_run\<close>, \<open>run_deliver_star\<close>); after
  a complete order the returned promise is \<open>promise_all_at\<close> at the times of arrival
  (\<open>settled_complete\<close>), and every value of \<open>promise_all_at\<close> is the result of a complete
  order (\<open>promise_all_at_realised\<close>).  The lemmas at the end: the step relation is well
  founded, and in every reachable state the counter and the slots agree with the inputs
  delivered.  This is what justifies \<open>promise_all_at\<close>, which the
  components use for \<^verbatim>\<open>Promise.all\<close>, as the summary of all interleavings of the answers.
\<close>

section \<open>The state of one call\<close>

record 'a all_state =
  slots :: "'a option list"
  remaining :: nat
  settled :: "'a list promise"

definition all_init :: "nat \<Rightarrow> 'a all_state" where
  "all_init n =
     \<lparr>slots = replicate n None, remaining = n,
      settled = (if n = 0 then Fulfilled [] else Pending)\<rparr>"

definition settle_once :: "'a promise \<Rightarrow> 'a promise \<Rightarrow> 'a promise" where
  "settle_once p cur = (case cur of Pending \<Rightarrow> p | _ \<Rightarrow> cur)"

definition on_fulfil :: "nat \<Rightarrow> 'a \<Rightarrow> 'a all_state \<Rightarrow> 'a all_state" where
  "on_fulfil i x st =
     (case slots st ! i of
        Some y \<Rightarrow> st
      | None \<Rightarrow>
          let vs = (slots st)[i := Some x]; r = remaining st - 1 in
          \<lparr>slots = vs, remaining = r,
           settled = (if r = 0 then settle_once (Fulfilled (map the vs)) (settled st)
                      else settled st)\<rparr>)"

definition on_reject :: "jsval \<Rightarrow> 'a all_state \<Rightarrow> 'a all_state" where
  "on_reject e st = st\<lparr>settled := settle_once (Rejected e) (settled st)\<rparr>"

definition react :: "'a promise list \<Rightarrow> 'a all_state \<Rightarrow> nat \<Rightarrow> 'a all_state" where
  "react ps st i =
     (case ps ! i of
        Fulfilled x \<Rightarrow> on_fulfil i x st
      | Rejected e \<Rightarrow> on_reject e st
      | Pending \<Rightarrow> st)"

definition run_all :: "'a promise list \<Rightarrow> nat list \<Rightarrow> 'a all_state" where
  "run_all ps sched = foldl (react ps) (all_init (length ps)) sched"

definition all_tasks_by :: "nat list \<Rightarrow> ('s, 'a) task list \<Rightarrow> ('s, 'a list) task" where
  "all_tasks_by sched tasks =
     (\<lambda>s. case start_all tasks s of (s', ps) \<Rightarrow> (s', settled (run_all ps sched)))"

section \<open>Arrival orders\<close>

fun fulfilled_of :: "'a promise \<Rightarrow> 'a option" where
  "fulfilled_of (Fulfilled x) = Some x"
| "fulfilled_of p = None"

fun rejected_of :: "'a promise \<Rightarrow> jsval option" where
  "rejected_of (Rejected e) = Some e"
| "rejected_of p = None"

fun is_pending :: "'a promise \<Rightarrow> bool" where
  "is_pending Pending = True"
| "is_pending p = False"

inductive deliver ::
  "'a promise list \<Rightarrow> nat list \<times> 'a all_state \<Rightarrow> nat list \<times> 'a all_state \<Rightarrow> bool"
  for ps :: "'a promise list" where
  arrive: "i < length ps \<Longrightarrow> i \<notin> set seen \<Longrightarrow> \<not> is_pending (ps ! i) \<Longrightarrow>
    deliver ps (seen, st) (seen @ [i], react ps st i)"

definition valid :: "'a promise list \<Rightarrow> nat list \<Rightarrow> bool" where
  "valid ps seen \<longleftrightarrow>
     distinct seen \<and> list_all (\<lambda>i. i < length ps \<and> \<not> is_pending (ps ! i)) seen"

definition complete :: "'a promise list \<Rightarrow> nat list \<Rightarrow> bool" where
  "complete ps sched \<longleftrightarrow>
     valid ps sched \<and> list_all (\<lambda>i. is_pending (ps ! i) \<or> i \<in> set sched) [0..<length ps]"

fun position :: "'a \<Rightarrow> 'a list \<Rightarrow> nat" where
  "position i [] = 0"
| "position i (j # js) = (if i = j then 0 else Suc (position i js))"

definition arrival :: "nat list \<Rightarrow> nat \<Rightarrow> nat list" where
  "arrival sched n = map (\<lambda>i. position i sched) [0..<n]"

definition in_order :: "'a promise list \<Rightarrow> nat list" where
  "in_order ps = filter (\<lambda>i. \<not> is_pending (ps ! i)) [0..<length ps]"

section \<open>The state after a sequence of arrivals, in closed form\<close>

definition rejs :: "'a promise list \<Rightarrow> nat list \<Rightarrow> jsval list" where
  "rejs ps seen = List.map_filter (\<lambda>i. rejected_of (ps ! i)) seen"

definition fuls :: "'a promise list \<Rightarrow> nat list \<Rightarrow> nat list" where
  "fuls ps seen = filter (\<lambda>i. fulfilled_of (ps ! i) \<noteq> None) seen"

definition slots_after :: "'a promise list \<Rightarrow> nat list \<Rightarrow> 'a option list" where
  "slots_after ps seen =
     map (\<lambda>i. if i \<in> set seen then fulfilled_of (ps ! i) else None) [0..<length ps]"

definition verdict :: "'a promise list \<Rightarrow> nat list \<Rightarrow> 'a list promise" where
  "verdict ps seen =
     (case rejs ps seen of
        e # es \<Rightarrow> Rejected e
      | [] \<Rightarrow>
          if length (fuls ps seen) = length ps then Fulfilled (map the (slots_after ps seen))
          else Pending)"

definition state_after :: "'a promise list \<Rightarrow> nat list \<Rightarrow> 'a all_state" where
  "state_after ps seen =
     \<lparr>slots = slots_after ps seen, remaining = length ps - length (fuls ps seen),
      settled = verdict ps seen\<rparr>"

section \<open>Orders\<close>

lemma valid_Nil [simp]: "valid ps []"
  by (simp add: valid_def)

lemma valid_snoc:
  "valid ps (seen @ [i]) \<longleftrightarrow>
     valid ps seen \<and> i < length ps \<and> i \<notin> set seen \<and> \<not> is_pending (ps ! i)"
  by (auto simp: valid_def)

lemma valid_length: "valid ps seen \<Longrightarrow> length seen \<le> length ps"
proof -
  assume v: "valid ps seen"
  then have "set seen \<subseteq> {..<length ps}"
    by (auto simp: valid_def list_all_iff)
  then have "card (set seen) \<le> card {..<length ps}"
    by (intro card_mono) simp_all
  with v show ?thesis
    by (simp add: valid_def distinct_card)
qed

lemma fuls_length: "length (fuls ps seen) \<le> length seen"
  by (simp add: fuls_def)

lemma complete_in_order: "complete ps (in_order ps)"
  by (auto simp: complete_def valid_def in_order_def list_all_iff)


section \<open>The machine computes the closed form\<close>

lemma settle_once_simps [simp]:
  "settle_once p Pending = p"
  "settle_once p (Fulfilled x) = Fulfilled x"
  "settle_once p (Rejected e) = Rejected e"
  by (simp_all add: settle_once_def)

lemma rejs_simps [simp]:
  "rejs ps [] = []"
  "rejs ps (seen @ [i]) =
     rejs ps seen @ (case rejected_of (ps ! i) of Some e \<Rightarrow> [e] | None \<Rightarrow> [])"
  "rejs ps (i # seen) =
     (case rejected_of (ps ! i) of Some e \<Rightarrow> [e] | None \<Rightarrow> []) @ rejs ps seen"
  by (auto simp: rejs_def map_filter_def split: option.splits)

lemma fuls_simps [simp]:
  "fuls ps [] = []"
  "fuls ps (seen @ [i]) = fuls ps seen @ (if fulfilled_of (ps ! i) \<noteq> None then [i] else [])"
  by (simp_all add: fuls_def)

lemma slots_after_length [simp]: "length (slots_after ps seen) = length ps"
  by (simp add: slots_after_def)

lemma slots_after_nth:
  "i < length ps \<Longrightarrow>
   slots_after ps seen ! i = (if i \<in> set seen then fulfilled_of (ps ! i) else None)"
  by (simp add: slots_after_def)

lemma slots_after_snoc_Fulfilled:
  "i < length ps \<Longrightarrow> ps ! i = Fulfilled x \<Longrightarrow>
   slots_after ps (seen @ [i]) = (slots_after ps seen)[i := Some x]"
  by (rule nth_equalityI) (auto simp: slots_after_nth nth_list_update)

lemma slots_after_snoc_other:
  "fulfilled_of (ps ! i) = None \<Longrightarrow> slots_after ps (seen @ [i]) = slots_after ps seen"
  by (auto simp: slots_after_def)

lemma state_after_Nil: "state_after ps [] = all_init (length ps)"
  by (auto simp: state_after_def all_init_def verdict_def slots_after_def map_replicate_const)

lemma fuls_less: "valid ps (seen @ [i]) \<Longrightarrow> length (fuls ps seen) < length ps"
  using valid_length [of ps "seen @ [i]"] fuls_length [of ps seen] by simp

lemma react_state_after:
  assumes "valid ps (seen @ [i])"
  shows "react ps (state_after ps seen) i = state_after ps (seen @ [i])"
proof (cases "ps ! i")
  case Pending
  with assms show ?thesis
    by (simp add: valid_snoc)
next
  case (Rejected e)
  with fuls_less [OF assms] show ?thesis
    by (cases "rejs ps seen")
      (simp_all add: react_def on_reject_def state_after_def verdict_def slots_after_snoc_other)
next
  case (Fulfilled x)
  from assms have i: "i < length ps" "i \<notin> set seen"
    by (simp_all add: valid_snoc)
  with Fulfilled have "slots_after ps seen ! i = None"
    by (simp add: slots_after_nth)
  with Fulfilled i fuls_less [OF assms] show ?thesis
    by (cases "rejs ps seen")
      (auto simp: react_def on_fulfil_def state_after_def verdict_def Let_def
        slots_after_snoc_Fulfilled)
qed

lemma run_all_snoc: "run_all ps (seen @ [i]) = react ps (run_all ps seen) i"
  by (simp add: run_all_def)

lemma run_all_state_after: "valid ps seen \<Longrightarrow> run_all ps seen = state_after ps seen"
proof (induction seen rule: rev_induct)
  case Nil
  show ?case by (simp add: run_all_def state_after_Nil)
next
  case (snoc i seen)
  then show ?case
    by (simp add: run_all_snoc react_state_after valid_snoc)
qed


section \<open>Executions\<close>

inductive_cases deliverE: "deliver ps (seen, st) c"

lemma deliver_star_run:
  "(deliver ps)\<^sup>*\<^sup>* ([], all_init (length ps)) (seen, st) \<Longrightarrow>
   valid ps seen \<and> st = run_all ps seen"
proof (induction rule: rtranclp_induct2)
  case refl
  show ?case by (simp add: run_all_def)
next
  case (step seen st seen' st')
  then show ?case
    by (auto elim!: deliverE simp: valid_snoc run_all_snoc)
qed

lemma run_deliver_star:
  "valid ps seen \<Longrightarrow> (deliver ps)\<^sup>*\<^sup>* ([], all_init (length ps)) (seen, run_all ps seen)"
proof (induction seen rule: rev_induct)
  case Nil
  show ?case by (simp add: run_all_def)
next
  case (snoc i seen)
  then have "deliver ps (seen, run_all ps seen) (seen @ [i], run_all ps (seen @ [i]))"
    by (auto simp: valid_snoc run_all_snoc intro: deliver.intros)
  with snoc show ?case
    by (auto simp: valid_snoc intro: rtranclp.rtrancl_into_rtrancl)
qed

lemma card_unseen_less:
  assumes "i < (n :: nat)" and "i \<notin> set seen"
  shows "card ({..<n} - set (seen @ [i])) < card ({..<n} - set seen)"
proof -
  from assms have "{..<n} - set (seen @ [i]) \<subset> {..<n} - set seen"
    by auto
  then show ?thesis
    by (intro psubset_card_mono) simp_all
qed

section \<open>Complete orders\<close>

lemma fulfilled_of_Some_iff [simp]: "fulfilled_of p = Some x \<longleftrightarrow> p = Fulfilled x"
  by (cases p) auto

lemma rejected_of_Some_iff [simp]: "rejected_of p = Some e \<longleftrightarrow> p = Rejected e"
  by (cases p) auto

lemma is_pending_iff [simp]: "is_pending p \<longleftrightarrow> p = Pending"
  by (cases p) auto

lemma complete_set:
  "complete ps sched \<Longrightarrow> set sched = {i. i < length ps \<and> ps ! i \<noteq> Pending}"
  by (auto simp: complete_def valid_def list_all_iff)

lemma complete_distinct: "complete ps sched \<Longrightarrow> distinct sched"
  by (simp add: complete_def valid_def)

lemma rejs_Nil_iff: "rejs ps seen = [] \<longleftrightarrow> (\<forall>i \<in> set seen. \<forall>e. ps ! i \<noteq> Rejected e)"
  by (induction seen) (auto split: option.splits)

lemma position_inj:
  "i \<in> set js \<Longrightarrow> j \<in> set js \<Longrightarrow> position i js = position j js \<Longrightarrow> i = j"
  by (induction js) (auto split: if_splits)

lemma rejs_first:
  "rejs ps seen = e # es \<Longrightarrow>
   \<exists>i \<in> set seen. ps ! i = Rejected e \<and>
     (\<forall>j \<in> set seen. (\<exists>e'. ps ! j = Rejected e') \<longrightarrow> position i seen \<le> position j seen)"
proof (induction seen)
  case Nil
  then show ?case by simp
next
  case (Cons a seen)
  show ?case
  proof (cases "rejected_of (ps ! a)")
    case (Some e')
    with Cons.prems show ?thesis by auto
  next
    case None
    with Cons.prems have "rejs ps seen = e # es"
      by simp
    from Cons.IH [OF this] None show ?thesis
      by (auto split: if_splits)
  qed
qed

lemma arrival_nth [simp]: "i < n \<Longrightarrow> arrival sched n ! i = position i sched"
  by (simp add: arrival_def)

lemma arrival_length [simp]: "length (arrival sched n) = n"
  by (simp add: arrival_def)

lemma complete_all_fulfilled_iff:
  assumes "complete ps sched"
  shows "length (fuls ps sched) = length ps \<longleftrightarrow> (\<forall>i < length ps. \<exists>x. ps ! i = Fulfilled x)"
proof
  assume all: "\<forall>i < length ps. \<exists>x. ps ! i = Fulfilled x"
  with assms have "set sched = {..<length ps}"
    by (auto simp: complete_set)
  with assms have "length sched = length ps"
    by (metis card_lessThan complete_distinct distinct_card)
  moreover from all assms have "fuls ps sched = sched"
    by (auto simp: fuls_def complete_set)
  ultimately show "length (fuls ps sched) = length ps"
    by simp
next
  assume len: "length (fuls ps sched) = length ps"
  from assms have v: "valid ps sched"
    by (simp add: complete_def)
  from len valid_length [OF v] fuls_length [of ps sched]
  have l: "length sched = length ps" and f: "length (fuls ps sched) = length sched"
    by simp_all
  from f have ful: "\<forall>i \<in> set sched. fulfilled_of (ps ! i) \<noteq> None"
    using sum_length_filter_compl [of "\<lambda>i. fulfilled_of (ps ! i) \<noteq> None" sched]
    by (simp add: fuls_def filter_empty_conv)
  have "set sched \<subseteq> {..<length ps}"
    using assms by (auto simp: complete_set)
  moreover have "card (set sched) = card {..<length ps}"
    using l assms by (simp add: distinct_card complete_distinct)
  ultimately have "set sched = {..<length ps}"
    by (intro card_subset_eq) simp_all
  with ful show "\<forall>i < length ps. \<exists>x. ps ! i = Fulfilled x"
    by auto
qed

lemma all_fulfilled_slots:
  assumes "complete ps sched" and "\<forall>i < length ps. \<exists>x. ps ! i = Fulfilled x"
  shows "ps = map Fulfilled (map the (slots_after ps sched))"
proof (rule nth_equalityI)
  fix i assume "i < length ps"
  with assms show "ps ! i = map Fulfilled (map the (slots_after ps sched)) ! i"
    by (auto simp: slots_after_nth complete_set)
qed simp


section \<open>The result of a complete order\<close>

lemma verdict_Rejected:
  assumes "complete ps sched" and "rejs ps sched = e # es"
  shows "promise_all_at (arrival sched (length ps)) ps = Rejected e"
proof -
  let ?ts = "arrival sched (length ps)"
  from rejs_first [OF assms(2)] obtain i0 where i0: "i0 \<in> set sched" "ps ! i0 = Rejected e"
    and first: "\<forall>j \<in> set sched. (\<exists>e'. ps ! j = Rejected e') \<longrightarrow>
      position i0 sched \<le> position j sched"
    by blast
  from i0 assms(1) have less: "i0 < length ps"
    by (simp add: complete_set)
  with i0 have "Rejected e \<in> set ps"
    by (metis nth_mem)
  then obtain e' where r: "promise_all_at ?ts ps = Rejected e'"
    using promise_all_at_rejects_iff [of ?ts ps] promise_all_rejects_iff [of ps] by blast
  from promise_all_at_first [OF r] obtain i where i: "i < length ps" "ps ! i = Rejected e'"
    and least: "\<forall>j < length ps. \<forall>e''. ps ! j = Rejected e'' \<longrightarrow> ?ts ! i \<le> ?ts ! j"
    by auto
  from i assms(1) have mem: "i \<in> set sched"
    by (simp add: complete_set)
  with first i have "position i0 sched \<le> position i sched"
    by blast
  moreover from least i0 less i have "position i sched \<le> position i0 sched"
    by auto
  ultimately have "i = i0"
    using position_inj [OF mem i0(1)] by simp
  with i i0 r show ?thesis
    by simp
qed

lemma verdict_promise_all_at:
  assumes "complete ps sched"
  shows "verdict ps sched = promise_all_at (arrival sched (length ps)) ps"
proof (cases "rejs ps sched")
  case (Cons e es)
  with verdict_Rejected [OF assms Cons] show ?thesis
    by (simp add: verdict_def)
next
  case Nil
  with assms have norej: "\<forall>e. Rejected e \<notin> set ps"
    by (auto simp: rejs_Nil_iff complete_set in_set_conv_nth)
  then have at: "promise_all_at (arrival sched (length ps)) ps = promise_all ps"
    by (rule promise_all_at_no_rejection)
  show ?thesis
  proof (cases "length (fuls ps sched) = length ps")
    case True
    with assms have "\<forall>i < length ps. \<exists>x. ps ! i = Fulfilled x"
      by (simp add: complete_all_fulfilled_iff)
    then have "promise_all ps = Fulfilled (map the (slots_after ps sched))"
      unfolding promise_all_Fulfilled_iff by (rule all_fulfilled_slots [OF assms])
    with Nil True at show ?thesis
      by (simp add: verdict_def)
  next
    case False
    with assms obtain i where i: "i < length ps" "\<forall>x. ps ! i \<noteq> Fulfilled x"
      by (auto simp: complete_all_fulfilled_iff)
    with norej have "ps ! i = Pending"
      by (cases "ps ! i") (auto simp: in_set_conv_nth)
    with i have "Pending \<in> set ps"
      by (metis nth_mem)
    with norej have "promise_all ps = Pending"
      by (simp add: promise_all_Pending_iff)
    with Nil False at show ?thesis
      by (simp add: verdict_def)
  qed
qed


lemma settled_verdict: "complete ps sched \<Longrightarrow> settled (run_all ps sched) = verdict ps sched"
  by (simp add: run_all_state_after complete_def state_after_def)

lemma complete_first:
  assumes "i < length ps" and "ps ! i \<noteq> Pending"
  shows "complete ps (i # removeAll i (in_order ps))"
  using assms by (auto simp: complete_def valid_def in_order_def list_all_iff distinct_removeAll)

lemma any_rejection_wins:
  assumes "Rejected e \<in> set ps"
  shows "\<exists>sched. complete ps sched \<and> settled (run_all ps sched) = Rejected e"
proof -
  from assms obtain i where i: "i < length ps" "ps ! i = Rejected e"
    by (auto simp: in_set_conv_nth)
  let ?sched = "i # removeAll i (in_order ps)"
  from i have "complete ps ?sched"
    by (intro complete_first) simp_all
  moreover from i have "verdict ps ?sched = Rejected e"
    by (simp add: verdict_def)
  ultimately show ?thesis
    by (metis settled_verdict)
qed

lemma settled_complete:
  "complete ps sched \<Longrightarrow>
   settled (run_all ps sched) = promise_all_at (arrival sched (length ps)) ps"
  by (simp add: settled_verdict verdict_promise_all_at)

lemma settled_in_order:
  "settled (run_all ps (in_order ps)) = promise_all_at (arrival (in_order ps) (length ps)) ps"
  by (simp add: settled_verdict complete_in_order verdict_promise_all_at)

lemma promise_all_at_realised:
  "\<exists>sched. complete ps sched \<and> settled (run_all ps sched) = promise_all_at ts ps"
proof (cases "promise_all_at ts ps")
  case (Rejected e)
  then show ?thesis
    using any_rejection_wins [of e ps] by (auto dest: promise_all_at_Rejected_mem)
next
  case (Fulfilled xs)
  then have "promise_all_at (arrival (in_order ps) (length ps)) ps = Fulfilled xs"
    by (simp add: promise_all_at_Fulfilled_iff)
  with Fulfilled show ?thesis
    using settled_in_order [of ps] complete_in_order [of ps] by metis
next
  case Pending
  then have "promise_all_at (arrival (in_order ps) (length ps)) ps = Pending"
    by (simp add: promise_all_at_Pending_iff)
  with Pending show ?thesis
    using settled_in_order [of ps] complete_in_order [of ps] by metis
qed

lemma all_tasks_by_apply [task_apply]:
  "all_tasks_by sched tasks s =
     (fst (start_all tasks s), settled (run_all (snd (start_all tasks s)) sched))"
  by (simp add: all_tasks_by_def split_beta)

lemma run_all_example:
  "settled (run_all [Fulfilled (1 :: nat), Rejected (JString ''a''), Rejected (JString ''b'')]
     [2, 0, 1]) = Rejected (JString ''b'')"
  by (simp add: run_all_def react_def on_fulfil_def on_reject_def all_init_def Let_def)

lemmas order_eval = complete_def valid_def arrival_def run_all_def react_def on_fulfil_def
  on_reject_def all_init_def fuls_def upt_conv_Cons Let_def

section \<open>Termination and bounds of the machine\<close>

text \<open>
  The reactions of one call of \<^verbatim>\<open>Promise.all\<close> end.  There is no infinite sequence of
  deliveries: every delivery is that of an input that had not been delivered, and there
  are \<open>length ps\<close> inputs.
\<close>

lemma deliver_terminates: "wf {(c', c). deliver ps c c'}"
proof (rule wf_subset [OF wf_measure [of "\<lambda>c. card ({..<length ps} - set (fst c))"]])
  show "{(c', c). deliver ps c c'} \<subseteq> measure (\<lambda>c. card ({..<length ps} - set (fst c)))"
    by (auto elim!: deliver.cases simp: card_unseen_less simp del: set_append)
qed

text \<open>
  In every state that one call of \<^verbatim>\<open>Promise.all\<close> over
  \<open>length ps\<close> inputs can reach, at most \<open>length ps\<close> settlements have been delivered, the
  array of values has \<open>length ps\<close> slots, and the counter is the number of inputs less the
  number of fulfilments delivered: it never goes below zero and is zero only when every
  input has been fulfilled.
\<close>

lemma reachable_bounds:
  assumes "(deliver ps)\<^sup>*\<^sup>* ([], all_init (length ps)) (seen, st)"
  shows "length seen \<le> length ps \<and> length (slots st) = length ps \<and>
    remaining st + length (fuls ps seen) = length ps"
proof -
  from deliver_star_run [OF assms] have v: "valid ps seen" and st: "st = state_after ps seen"
    by (simp_all add: run_all_state_after)
  from valid_length [OF v] fuls_length [of ps seen] st show ?thesis
    by (simp add: state_after_def)
qed

lemma reachable_bounds_example:
  "remaining (run_all [Fulfilled (1 :: nat), Pending, Fulfilled 2] [2, 0]) +
     length (fuls [Fulfilled (1 :: nat), Pending, Fulfilled 2] [2, 0]) = 3"
  using reachable_bounds [OF run_deliver_star
      [of "[Fulfilled (1 :: nat), Pending, Fulfilled 2]" "[2, 0]"]]
  by (simp add: valid_def)

end
