(* ===== verification/Schedule.thy ===== *)
theory Schedule
  imports Script Settle
begin

text \<open>
  The times at which the concurrent operations settle.

  \<^verbatim>\<open>buildMocha\<close> lists the element directories concurrently and \<^verbatim>\<open>main\<close> kills the drivers
  concurrently; \<^verbatim>\<open>Promise.all\<close> is rejected with the rejection that comes first in time.  The
  fields \<open>readdirTime\<close> and \<open>killTime\<close> of \<open>env\<close> are these times, and \<open>sessionTime\<close> is the time
  at which the session of a driver comes up or fails, for the \<^verbatim>\<open>Promise.all\<close> of the startup.  \<open>retimed\<close> changes them and
  nothing else.  \<open>alike\<close> relates two promises that end in the same way up to the choice
  among rejections with values whose \<^verbatim>\<open>stack\<close> can be read and is truthy, as that of an error
  object with a stack (\<open>proper\<close>).  The lemmas follow the
  program from the scan of the directories to \<open>main\<close>: retiming changes no event of \<open>main\<close>
  and not how the process ends, provided that the rejections of the file system and of the
  kills are proper.  The loading of the modules does not depend on the times
  (\<open>load_modules_retimed\<close>).

  \<open>scan_elements_by\<close> and \<open>kill_all_by\<close> are the two concurrent steps (lines 24-32 and lines
  81-83) with the machine of \<open>Settle\<close> in the place of \<^verbatim>\<open>Promise.all\<close>: the calls are issued in
  the order of the list, then the answers arrive in the order \<open>sched\<close>.  \<open>startup_by\<close> is
  the same for the startup (lines 57-68): the inputs of its \<^verbatim>\<open>Promise.all\<close> are the promise of
  the server and then the drivers (\<open>startup_inputs\<close>, a list of \<open>server + driver\<close>), and
  \<open>unpack\<close> is the pattern \<^verbatim>\<open>[server, ...drivers]\<close> that takes the result apart; \<open>session_time\<close>
  turns an order of arrival of these inputs into settle times of the sessions, and
  \<open>startup_by_refines\<close> and \<open>startup_realised\<close> relate the two.  \<open>order_time\<close> turns an
  order of arrival into settle times.  With it the steps of the components, which use
  settle times, do what the machine does (\<open>sessions_in_order\<close>, \<open>kills_in_order\<close>,
  \<open>scan_all_in_order\<close>): for every order in which the answers can arrive there is a choice
  of settle times under which the model does what the runtime does in that order, and
  every choice of times is the outcome of some order (\<open>kill_all_realised\<close>,
  \<open>scan_elements_realised\<close>, \<open>startup_realised\<close>).  The two properties at the end say
  what the scan of \<^verbatim>\<open>buildMocha\<close> and the startup of \<^verbatim>\<open>main\<close> do under every order of arrival,
  in terms of the answers of the outside.
\<close>

section \<open>Definitions\<close>

definition proper :: "jsval \<Rightarrow> bool" where
  "proper e \<longleftrightarrow> (case get_stack e of Inr st \<Rightarrow> truthy st | Inl t \<Rightarrow> False)"

definition alike :: "'a promise \<Rightarrow> 'a promise \<Rightarrow> bool" where
  "alike p q \<longleftrightarrow>
     (case p of
        Rejected e \<Rightarrow> (case q of Rejected e' \<Rightarrow> e = e' \<or> proper e \<and> proper e' | _ \<Rightarrow> False)
      | _ \<Rightarrow> p = q)"

definition retimed ::
  "env \<Rightarrow> (driver \<Rightarrow> nat) \<Rightarrow> (string \<Rightarrow> nat) \<Rightarrow> (driver \<Rightarrow> nat) \<Rightarrow> env" where
  "retimed env dt rt kt = env\<lparr>sessionTime := dt, readdirTime := rt, killTime := kt\<rparr>"

definition proper_fs :: "env \<Rightarrow> bool" where
  "proper_fs env \<longleftrightarrow> (\<forall>path e. readdirResult env path = Rejected e \<longrightarrow> proper e)"

definition proper_sessions :: "env \<Rightarrow> bool" where
  "proper_sessions env \<longleftrightarrow> (\<forall>d e. sessionResult env d = Rejected e \<longrightarrow> proper e)"

definition proper_kills :: "env \<Rightarrow> bool" where
  "proper_kills env \<longleftrightarrow> (\<forall>d e. killResult env d = Rejected e \<longrightarrow> proper e)"

definition order_time :: "'a list \<Rightarrow> nat list \<Rightarrow> 'a \<Rightarrow> nat" where
  "order_time xs sched x = position (position x xs) sched"

definition scan_elements_by :: "nat list \<Rightarrow> env \<Rightarrow> string list \<Rightarrow> (proc, string list) task" where
  "scan_elements_by sched env elements = all_tasks_by sched (map (scan_element env) elements)"

definition kill_all_by :: "nat list \<Rightarrow> env \<Rightarrow> driver list \<Rightarrow> (proc, unit list) task" where
  "kill_all_by sched env drivers = all_tasks_by sched (map (killWebDriver env) drivers)"

definition listening :: "env \<Rightarrow> server promise" where
  "listening env =
     map_promise (\<lambda>p. \<lparr>port = p, staticRoot = ''docs''\<rparr>) (resolved_when (listenResult env))"

definition opened :: "env \<Rightarrow> nat \<Rightarrow> driver list" where
  "opened env i = map driver_of (enumerate i (selected env))"

definition startup_inputs ::
  "server promise \<Rightarrow> driver promise list \<Rightarrow> (server + driver) promise list" where
  "startup_inputs srv ps = map_promise Inl srv # map (map_promise Inr) ps"

definition unpack :: "(server + driver) list \<Rightarrow> server \<times> driver list" where
  "unpack xs = (projl (hd xs), map projr (tl xs))"

definition startup_by :: "nat list \<Rightarrow> env \<Rightarrow> (proc, server \<times> driver list) task" where
  "startup_by sched env =
     start (startServer env) (\<lambda>srv.
     await (provision env) (\<lambda>drivers.
     awaitp (map_promise unpack
       (settled (run_all (startup_inputs srv (map (session env) drivers)) sched))) resolve))"

definition session_time :: "driver list \<Rightarrow> nat list \<Rightarrow> driver \<Rightarrow> nat" where
  "session_time ds sched d = position (Suc (position d ds)) sched"

section \<open>Promises that end alike\<close>

lemma alike_refl [simp]: "alike p p"
  by (simp add: alike_def split: promise.splits)

lemma alike_Fulfilled [simp]:
  "alike (Fulfilled x) q \<longleftrightarrow> q = Fulfilled x" "alike p (Fulfilled x) \<longleftrightarrow> p = Fulfilled x"
  by (auto simp: alike_def split: promise.splits)

lemma alike_Pending [simp]:
  "alike Pending q \<longleftrightarrow> q = Pending" "alike p Pending \<longleftrightarrow> p = Pending"
  by (auto simp: alike_def split: promise.splits)

lemma alike_Rejected:
  "alike (Rejected e) q \<longleftrightarrow> (\<exists>e'. q = Rejected e' \<and> (e = e' \<or> proper e \<and> proper e'))"
  by (auto simp: alike_def split: promise.splits)

lemma promise_all_at_alike:
  assumes "\<forall>e. Rejected e \<in> set ps \<longrightarrow> proper e"
  shows "alike (promise_all_at ts ps) (promise_all_at ts' ps)"
proof (cases "promise_all_at ts ps")
  case Pending
  then have "promise_all_at ts' ps = Pending"
    by (simp add: promise_all_at_Pending_iff)
  with Pending show ?thesis by simp
next
  case (Fulfilled xs)
  then have "promise_all_at ts' ps = Fulfilled xs"
    by (simp add: promise_all_at_Fulfilled_iff)
  with Fulfilled show ?thesis by simp
next
  case (Rejected e)
  then obtain e' where e': "promise_all_at ts' ps = Rejected e'"
    using promise_all_at_rejects_iff [of ts ps] promise_all_at_rejects_iff [of ts' ps] by blast
  with Rejected assms have "proper e" and "proper e'"
    by (auto dest: promise_all_at_Rejected_mem)
  with Rejected e' show ?thesis
    by (simp add: alike_Rejected)
qed


lemma retimed_simps [simp]:
  "moduleResult (retimed env dt rt kt) = moduleResult env"
  "localBrowsers (retimed env dt rt kt) = localBrowsers env"
  "listenResult (retimed env dt rt kt) = listenResult env"
  "driverResult (retimed env dt rt kt) = driverResult env"
  "sessionResult (retimed env dt rt kt) = sessionResult env"
  "readdirResult (retimed env dt rt kt) = readdirResult env"
  "requireResult (retimed env dt rt kt) = requireResult env"
  "runResult (retimed env dt rt kt) = runResult env"
  "killResult (retimed env dt rt kt) = killResult env"
  by (simp_all add: retimed_def)

lemma load_modules_retimed [simp]: "load_modules (retimed env dt rt kt) = load_modules env"
  by (simp add: load_modules_missing missing_def)

lemma scan_result_retimed [simp]: "scan_result (retimed env dt rt kt) = scan_result env"
  by (simp add: scan_result_def fun_eq_iff)

lemma kept_retimed [simp]: "kept (retimed env dt rt kt) = kept env"
  by (simp add: kept_def fun_eq_iff)

lemma discovered_retimed [simp]: "discovered (retimed env dt rt kt) = discovered env"
  by (simp add: discovered_def fun_eq_iff)

lemma loads_retimed [simp]: "loads (retimed env dt rt kt) = loads env"
  by (simp add: loads_def fun_eq_iff)

lemma required_retimed [simp]: "required (retimed env dt rt kt) i fs = required env i fs"
  by (induction fs) simp_all

lemma load_error_retimed [simp]: "load_error (retimed env dt rt kt) i fs = load_error env i fs"
  by (induction fs) (simp_all split: sum.splits)

lemma built_retimed [simp]: "built (retimed env dt rt kt) = built env"
  by (simp add: built_def loaded_suites_def titles_of_def fun_eq_iff)

lemma scan_all_alike:
  assumes "proper_fs env"
  shows "alike (scan_all (retimed env dt rt kt) es) (scan_all env es)"
  unfolding scan_all_def scan_result_retimed
proof (rule promise_all_at_alike, intro allI impI)
  fix e
  assume "Rejected e \<in> set (map (scan_result env) es)"
  then obtain x where "scan_result env x = Rejected e"
    by (metis imageE list.set_map)
  then have "readdirResult env (element_dir x) = Rejected e"
    by (simp add: scan_result_def)
  with assms show "proper e"
    by (auto simp: proper_fs_def)
qed

lemma alikeE:
  assumes "alike p q"
  obtains "p = q" | e e' where "p = Rejected e" and "q = Rejected e'" and "proper e" and "proper e'"
  using assms by (cases p; cases q) (auto simp: alike_def)

lemma readable_retimed [simp]: "readable (retimed env dt rt kt) = readable env"
  by (simp add: readable_def fun_eq_iff)

lemma build_events_retimed [simp]:
  assumes "proper_fs env"
  shows "build_events (retimed env dt rt kt) i = build_events env i"
proof (cases "readdirResult env ''elements''")
  case (Fulfilled es)
  from scan_all_alike [OF assms, of dt rt kt es] show ?thesis
    by (rule alikeE) (simp_all add: build_events_def Fulfilled cong: promise.case_cong)
qed (simp_all add: build_events_def)

lemma build_result_alike:
  assumes "proper_fs env"
  shows "alike (build_result (retimed env dt rt kt) i) (build_result env i)"
proof (cases "readdirResult env ''elements''")
  case (Fulfilled es)
  from scan_all_alike [OF assms, of dt rt kt es] show ?thesis
    by (rule alikeE)
      (simp_all add: build_result_def Fulfilled alike_Rejected
        cong: promise.case_cong option.case_cong)
next
  case (Rejected e)
  with assms have "proper e"
    by (auto simp: proper_fs_def)
  with Rejected show ?thesis
    by (simp add: build_result_def)
qed (simp_all add: build_result_def)

lemma drive_events_retimed [simp]:
  assumes "proper_fs env"
  shows "drive_events (retimed env dt rt kt) a d i = drive_events env a d i"
  using build_result_alike [OF assms, of dt rt kt i]
  by (rule alikeE) (simp_all add: drive_events_def assms cong: promise.case_cong)

lemma drive_result_alike:
  assumes "proper_fs env"
  shows "alike (drive_result (retimed env dt rt kt) a d i) (drive_result env a d i)"
  using build_result_alike [OF assms, of dt rt kt i]
  by (rule alikeE) (simp_all add: drive_result_def alike_Rejected cong: promise.case_cong)

lemma passes_retimed [simp]:
  "proper_fs env \<Longrightarrow> passes (retimed env dt rt kt) a d i = passes env a d i"
  using drive_result_alike [of env dt rt kt a d i] by (auto simp: passes_def)

lemma tests_events_retimed [simp]:
  "proper_fs env \<Longrightarrow> tests_events (retimed env dt rt kt) a ds i = tests_events env a ds i"
  by (induction ds arbitrary: i) simp_all

lemma tests_started_retimed [simp]:
  "proper_fs env \<Longrightarrow> tests_started (retimed env dt rt kt) a ds i = tests_started env a ds i"
  by (induction ds arbitrary: i) simp_all

lemma tests_result_alike:
  "proper_fs env \<Longrightarrow> alike (tests_result (retimed env dt rt kt) a ds i) (tests_result env a ds i)"
  by (induction ds arbitrary: i) (simp_all add: drive_result_alike)

lemma selected_retimed [simp]: "selected (retimed env dt rt kt) = selected env"
  by (simp add: selected_def)

lemma starts_retimed [simp]: "starts (retimed env dt rt kt) = starts env"
  by (simp add: starts_def fun_eq_iff)

lemma startable_retimed [simp]: "startable (retimed env dt rt kt) bs = startable env bs"
  by (induction bs) simp_all

lemma open_result_retimed [simp]: "open_result (retimed env dt rt kt) i bs = open_result env i bs"
  by (induction bs arbitrary: i) (simp_all cong: option.case_cong)

lemma startup_events_retimed [simp]:
  "startup_events (retimed env dt rt kt) i = startup_events env i"
  by (simp add: startup_events_def)

lemma sessions_alike:
  assumes "proper_sessions env"
  shows "alike (sessions (retimed env dt rt kt) ds) (sessions env ds)"
proof -
  have "alike (promise_all_at (map dt ds) (map (session env) ds))
      (promise_all_at (map (sessionTime env) ds) (map (session env) ds))"
  proof (rule promise_all_at_alike, intro allI impI)
    fix e
    assume "Rejected e \<in> set (map (session env) ds)"
    then obtain d where "session env d = Rejected e"
      by (metis imageE list.set_map)
    with assms show "proper e"
      by (auto simp: proper_sessions_def)
  qed
  then show ?thesis
    by (simp add: sessions_def session_def [abs_def] retimed_def)
qed

lemma both_alike:
  "\<forall>e. p \<noteq> Rejected e \<Longrightarrow> alike q q' \<Longrightarrow> alike (both p q) (both p q')"
  by (cases p; cases q; cases q') (auto simp: alike_Rejected)

lemma startup_result_alike:
  assumes "proper_sessions env"
  shows "alike (startup_result (retimed env dt rt kt) i) (startup_result env i)"
proof (cases "open_result env i (selected env)")
  case (Fulfilled ds)
  have "\<forall>e. map_promise (\<lambda>p. \<lparr>port = p, staticRoot = ''docs''\<rparr>)
      (resolved_when (listenResult env)) \<noteq> Rejected e"
    by simp
  from both_alike [OF this sessions_alike [OF assms, of dt rt kt ds]] Fulfilled show ?thesis
    by (simp add: startup_result_def)
qed (simp_all add: startup_result_def)

lemma kills_alike:
  assumes "proper_kills env"
  shows "alike (kills (retimed env dt rt kt) ds) (kills env ds)"
  unfolding kills_def retimed_simps
proof (rule promise_all_at_alike, intro allI impI)
  fix e
  assume "Rejected e \<in> set (map (killResult env) ds)"
  then obtain d where "killResult env d = Rejected e"
    by (metis imageE list.set_map)
  with assms show "proper e"
    by (auto simp: proper_kills_def)
qed

lemma teardown_events_retimed [simp]:
  assumes "proper_kills env"
  shows "teardown_events (retimed env dt rt kt) ds = teardown_events env ds"
  using kills_alike [OF assms, of dt rt kt ds]
  by (rule alikeE) (simp_all add: teardown_events_def)

lemma proper_stack: "proper e \<Longrightarrow> \<exists>st. get_stack e = Inr st \<and> truthy st"
  by (cases "get_stack e") (simp_all add: proper_def)

lemma final_outcome_alike: "alike p q \<Longrightarrow> final_outcome p = final_outcome q"
  by (erule alikeE) (auto simp: final_outcome_def dest!: proper_stack)

lemma guarded_result_alike:
  assumes "alike r r'"
  obtains "guarded_result r = guarded_result r'"
  | st st' where "guarded_result r = Fulfilled st"
      and "guarded_result r' = Fulfilled st'" and "truthy st" and "truthy st'"
  using assms by (rule alikeE) (auto dest!: proper_stack)

lemma after_startup_retimed:
  assumes "proper_fs env" and "proper_kills env"
  shows "after_startup_events (retimed env dt rt kt) srv ds j = after_startup_events env srv ds j"
    and "final_outcome (after_startup_result (retimed env dt rt kt) srv ds j) =
      final_outcome (after_startup_result env srv ds j)"
proof -
  let ?r' = "tests_result (retimed env dt rt kt) (address_of srv) ds j"
  let ?r = "tests_result env (address_of srv) ds j"
  have r: "alike ?r' ?r"
    using assms(1) by (rule tests_result_alike)
  have k: "alike (kills (retimed env dt rt kt) ds) (kills env ds)"
    using assms(2) by (rule kills_alike)
  from r show "after_startup_events (retimed env dt rt kt) srv ds j = after_startup_events env srv ds j"
    by (rule guarded_result_alike)
      (simp_all add: after_startup_events_def assms cong: promise.case_cong)
  from r show "final_outcome (after_startup_result (retimed env dt rt kt) srv ds j) =
      final_outcome (after_startup_result env srv ds j)"
  proof (rule guarded_result_alike)
    assume "guarded_result ?r' = guarded_result ?r"
    with k show ?thesis
      by (cases "guarded_result ?r"; elim alikeE)
        (auto simp: after_startup_result_def final_outcome_def dest!: proper_stack)
  next
    fix st st'
    assume "guarded_result ?r' = Fulfilled st" "guarded_result ?r = Fulfilled st'"
      and "truthy st" "truthy st'"
    with k show ?thesis
      by (elim alikeE; cases "kills env ds")
        (auto simp: after_startup_result_def final_outcome_def dest!: proper_stack)
  qed
qed

lemma main_retimed:
  assumes "proper_sessions env" and "proper_fs env" and "proper_kills env"
  shows "main_events (retimed env dt rt kt) i = main_events env i"
    and "main_allocs (retimed env dt rt kt) i = main_allocs env i"
    and "final_outcome (main_result (retimed env dt rt kt) i) = final_outcome (main_result env i)"
proof -
  note after = after_startup_retimed [OF assms(2,3)]
  from startup_result_alike [OF assms(1), of dt rt kt i]
  show "main_events (retimed env dt rt kt) i = main_events env i"
    by (rule alikeE)
      (simp_all add: main_events_def after split: promise.splits prod.splits)
  from startup_result_alike [OF assms(1), of dt rt kt i]
  show "main_allocs (retimed env dt rt kt) i = main_allocs env i"
    by (rule alikeE)
      (simp_all add: main_allocs_def assms split: promise.splits prod.splits)
  show "final_outcome (main_result (retimed env dt rt kt) i) = final_outcome (main_result env i)"
  proof (rule alikeE [OF startup_result_alike [OF assms(1), of dt rt kt i]])
    assume eq: "startup_result (retimed env dt rt kt) i = startup_result env i"
    show ?thesis
      by (cases "startup_result env i") (simp_all add: main_result_def eq after split: prod.splits)
  next
    fix e e'
    assume "startup_result (retimed env dt rt kt) i = Rejected e"
      and "startup_result env i = Rejected e'" and "proper e" and "proper e'"
    then show ?thesis
      by (auto simp: main_result_def final_outcome_def dest!: proper_stack)
  qed
qed

section \<open>Orders of arrival\<close>

lemma position_nth: "distinct xs \<Longrightarrow> i < length xs \<Longrightarrow> position (xs ! i) xs = i"
proof (induction xs arbitrary: i)
  case Nil
  then show ?case by simp
next
  case (Cons x xs)
  then show ?case
    by (cases i) auto
qed

lemma map_order_time:
  "distinct xs \<Longrightarrow> map (order_time xs sched) xs = arrival sched (length xs)"
  by (rule nth_equalityI) (simp_all add: order_time_def position_nth)

lemma retimed_times [simp]:
  "sessionTime (retimed env dt rt kt) = dt"
  "readdirTime (retimed env dt rt kt) = rt" "killTime (retimed env dt rt kt) = kt"
  by (simp_all add: retimed_def)

lemma kills_in_order:
  assumes "distinct ds" and "complete (map (killResult env) ds) sched"
  shows "kills (retimed env dt rt (order_time ds sched)) ds =
    settled (run_all (map (killResult env) ds) sched)"
  using assms settled_complete [of "map (killResult env) ds" sched]
  by (simp add: kills_def map_order_time)

lemma sessions_in_order:
  assumes "distinct ds" and "complete (map (session env) ds) sched"
  shows "sessions (retimed env (order_time ds sched) rt kt) ds =
    settled (run_all (map (session env) ds) sched)"
  using assms settled_complete [of "map (session env) ds" sched]
  by (simp add: sessions_def session_def [abs_def] map_order_time)

lemma element_dir_inject [simp]: "element_dir a = element_dir b \<longleftrightarrow> a = b"
  by (simp add: element_dir_def)

lemma scan_all_in_order:
  assumes "distinct es" and "complete (map (scan_result env) es) sched"
  shows "scan_all (retimed env dt (order_time (map element_dir es) sched) kt) es =
    settled (run_all (map (scan_result env) es) sched)"
proof -
  from assms(1) have "distinct (map element_dir es)"
    by (simp add: distinct_map inj_on_def)
  then have "map (order_time (map element_dir es) sched) (map element_dir es) =
      arrival sched (length es)"
    using map_order_time [of "map element_dir es" sched] by simp
  then have "map (scan_time (retimed env dt (order_time (map element_dir es) sched) kt)) es =
      arrival sched (length es)"
    by (simp add: scan_time_def [abs_def] comp_def)
  with assms(2) settled_complete [of "map (scan_result env) es" sched] show ?thesis
    by (simp add: scan_all_def)
qed

lemma scan_elements_by_apply:
  "scan_elements_by sched env es s =
     (advance 0 (map (\<lambda>e. ReadDir (element_dir e)) es) s,
      settled (run_all (map (scan_result env) es) sched))"
  by (simp add: scan_elements_by_def all_tasks_by_apply start_all_scan)

lemma kill_all_by_apply:
  "kill_all_by sched env ds s =
     (advance 0 (map (\<lambda>d. KillDriver (driverId d)) ds) s,
      settled (run_all (map (killResult env) ds) sched))"
  by (simp add: kill_all_by_def all_tasks_by_apply start_all_kill)

lemma kill_all_by_refines:
  assumes "distinct ds" and "complete (map (killResult env) ds) sched"
  shows "kill_all_by sched env ds s = kill_all (retimed env dt rt (order_time ds sched)) ds s"
  by (simp add: kill_all_by_apply kill_all_apply kills_in_order [OF assms])

lemma kill_all_realised:
  "\<exists>sched. complete (map (killResult env) ds) sched \<and>
     kill_all_by sched env ds s = kill_all env ds s"
  using promise_all_at_realised [of "map (killResult env) ds" "map (killTime env) ds"]
  by (auto simp: kill_all_by_apply kill_all_apply kills_def)

lemma scan_elements_realised:
  "\<exists>sched. complete (map (scan_result env) es) sched \<and>
     scan_elements_by sched env es s = scan_elements env es s"
  using promise_all_at_realised [of "map (scan_result env) es" "map (scan_time env) es"]
  by (auto simp: scan_elements_by_apply all_scan_apply scan_all_def)

section \<open>The startup under an order of arrival\<close>

lemma unpack_Cons [simp]: "unpack (Inl srv # map Inr ds) = (srv, ds)"
  by (simp add: unpack_def comp_def)

lemma first_rejection_startup_inputs:
  "\<forall>e. srv \<noteq> Rejected e \<Longrightarrow>
   first_rejection (zip (t0 # ts) (startup_inputs srv ps)) = first_rejection (zip ts ps)"
  by (cases srv) (simp_all add: first_rejection_def startup_inputs_def rejections_zip_map_promise)

lemma promise_all_startup_inputs:
  "promise_all (startup_inputs srv ps) =
     map_promise (\<lambda>(s, ds). Inl s # map Inr ds) (both srv (promise_all ps))"
  by (cases srv; cases "promise_all ps")
    (simp_all add: startup_inputs_def promise_all_map_promise)

lemma promise_all_at_startup_inputs:
  assumes "\<forall>e. srv \<noteq> Rejected e"
  shows "map_promise unpack (promise_all_at (t0 # ts) (startup_inputs srv ps)) =
    both srv (promise_all_at ts ps)"
proof (cases "first_rejection (zip ts ps)")
  case None
  then show ?thesis
    unfolding promise_all_at_def first_rejection_startup_inputs [OF assms]
      promise_all_startup_inputs
    by (cases "both srv (promise_all ps)") auto
next
  case (Some e)
  with assms show ?thesis
    unfolding promise_all_at_def first_rejection_startup_inputs [OF assms]
    by (cases srv) simp_all
qed

lemma listening_not_Rejected [simp]: "listening env \<noteq> Rejected e"
  by (cases "listenResult env") (simp_all add: listening_def)

lemma startup_by_apply:
  "startup_by sched env s =
     (advance (length (startable env (selected env))) (startup_events env (fresh s)) s,
      case open_result env (fresh s) (selected env) of
        Fulfilled ds \<Rightarrow>
          map_promise unpack
            (settled (run_all (startup_inputs (listening env) (map (session env) ds)) sched))
      | Rejected e \<Rightarrow> Rejected e
      | Pending \<Rightarrow> Pending)"
  by (cases "open_result env (fresh s) (selected env)")
    (simp_all add: startup_by_def start_apply await_apply startServer_apply provision_sem
      to_advance startup_events_def task_apply listening_def)

lemma distinct_opened [simp]: "distinct (opened env i)"
proof -
  have "distinct (map driverId (opened env i))"
    by (simp add: opened_def)
  then show ?thesis
    by (simp add: distinct_map)
qed

lemma map_session_time:
  "distinct ds \<Longrightarrow> position 0 sched # map (session_time ds sched) ds = arrival sched (Suc (length ds))"
  by (rule nth_equalityI)
    (auto simp: session_time_def arrival_def position_nth nth_Cons nth_append
      simp del: upt_Suc split: nat.splits)

lemma sessions_by_order:
  assumes "distinct ds" and "complete (startup_inputs srv (map (session env) ds)) sched"
    and "\<forall>e. srv \<noteq> Rejected e"
  shows "both srv (sessions (retimed env (session_time ds sched) rt kt) ds) =
    map_promise unpack (settled (run_all (startup_inputs srv (map (session env) ds)) sched))"
proof -
  have "settled (run_all (startup_inputs srv (map (session env) ds)) sched) =
      promise_all_at (position 0 sched # map (session_time ds sched) ds)
        (startup_inputs srv (map (session env) ds))"
    using settled_complete [OF assms(2)] map_session_time [OF assms(1), of sched]
    by (simp add: startup_inputs_def)
  with promise_all_at_startup_inputs [OF assms(3)] show ?thesis
    by (simp add: sessions_def session_def [abs_def])
qed

lemma startup_by_refines:
  assumes "complete (startup_inputs (listening env) (map (session env) (opened env (fresh s)))) sched"
  shows "startup_by sched env s =
    startup (retimed env (session_time (opened env (fresh s)) sched) rt kt) s"
proof (cases "open_result env (fresh s) (selected env)")
  case (Fulfilled ds)
  then have ds: "ds = opened env (fresh s)"
    by (simp add: open_result_Fulfilled_iff opened_def)
  from sessions_by_order [OF distinct_opened assms, of rt kt] Fulfilled show ?thesis
    by (simp add: startup_by_apply startup_sem startup_result_def ds listening_def)
qed (simp_all add: startup_by_apply startup_sem startup_result_def)

lemma startup_realised:
  "\<exists>sched. complete (startup_inputs (listening env) (map (session env) (opened env (fresh s)))) sched \<and>
     startup_by sched env s = startup env s"
proof (cases "open_result env (fresh s) (selected env)")
  case (Fulfilled ds)
  then have ds: "ds = opened env (fresh s)"
    by (simp add: open_result_Fulfilled_iff opened_def)
  let ?ps = "startup_inputs (listening env) (map (session env) ds)"
  from promise_all_at_realised [of ?ps "0 # map (sessionTime env) ds"]
  obtain sched where "complete ?ps sched"
    and "settled (run_all ?ps sched) = promise_all_at (0 # map (sessionTime env) ds) ?ps"
    by blast
  with Fulfilled promise_all_at_startup_inputs [of "listening env" 0 "map (sessionTime env) ds"
      "map (session env) ds"]
  show ?thesis
    by (intro exI [of _ sched])
      (simp add: startup_by_apply startup_sem startup_result_def ds sessions_def listening_def)
next
  case (Rejected e)
  then show ?thesis
    by (intro exI [of _ "in_order (startup_inputs (listening env)
        (map (session env) (opened env (fresh s))))"])
      (simp add: complete_in_order startup_by_apply startup_sem startup_result_def)
qed simp

lemma startup_by_no_session_env:
  "snd (startup_by [2, 0, 1] no_session_env init_proc) = Rejected (JError ''session not created'')"
  by (simp add: startup_by_apply order_eval startup_inputs_def listening_def selected_eq
      browserFilter_iff addArguments_def init_proc_def driver_of_def session_def starts_def)

lemma scan_elements_by_refines:
  assumes "distinct es" and "complete (map (scan_result env) es) sched"
  shows "scan_elements_by sched env es s =
    scan_elements (retimed env dt (order_time (map element_dir es) sched) kt) es s"
  by (simp add: scan_elements_by_apply all_scan_apply scan_all_in_order [OF assms]
      del: scan_result_retimed)

lemma map_promise_Pending_iff [simp]: "map_promise f p = Pending \<longleftrightarrow> p = Pending"
  by (cases p) simp_all

lemma complete_map_promise:
  "complete (map (\<lambda>x. map_promise (f x) (p x)) xs) sched \<longleftrightarrow> complete (map p xs) sched"
  by (auto simp: complete_def valid_def list_all_iff)

lemma scan_result_sublist:
  "scan_result env e =
     map_promise (\<lambda>names. if \<exists>f \<in> set names. sublist ''.e2etest.js'' f then e else [])
       (readdirResult env (element_dir e))"
  by (simp add: scan_result_def has_e2etest_iff)

lemma open_events_drivers:
  "open_events i bs =
     concat (map (\<lambda>d. [GetDriver (driverId d) (ofBrowser d), SetScriptTimeout (driverId d) 60000])
       (map driver_of (enumerate i bs)))"
  by (simp add: open_events_def driver_events_def [abs_def] driver_of_def comp_def)

section \<open>Properties\<close>

text \<open>
  C31 (the scan of a discovery under every order of arrival): let the listings of the
  element directories arrive in the order \<open>sched\<close>, an order in which every listing that
  answers arrives once.  With the settle times of that order the scan of \<^verbatim>\<open>buildMocha\<close>
  (lines 24-32) asks for the listing of every element directory, in the order of the
  elements and whatever the answers are, and its promise is that of \<^verbatim>\<open>Promise.all\<close> run as a
  machine in that order over the results of the callback: for a directory that was listed,
  the name of the element when a file name contains \<^verbatim>\<open>.e2etest.js\<close> and the empty string
  otherwise.  So the scan ends with the names in the order of the elements, with the
  rejection of the listing that failed first in time, or pending.
\<close>

theorem scan_in_any_order:
  assumes "distinct es"
    and "complete (map (\<lambda>e. readdirResult env (element_dir e)) es) sched"
  shows "scan_elements (retimed env dt (order_time (map element_dir es) sched) kt) es s =
     (advance 0 (map (\<lambda>e. ReadDir (element_dir e)) es) s,
      settled (run_all
        (map (\<lambda>e. map_promise
            (\<lambda>names. if \<exists>f \<in> set names. sublist ''.e2etest.js'' f then e else [])
            (readdirResult env (element_dir e))) es) sched))"
proof -
  from assms(2) have "complete (map (scan_result env) es) sched"
    by (simp add: scan_result_sublist [abs_def] complete_map_promise)
  from scan_all_in_order [OF assms(1) this, of dt kt] show ?thesis
    by (simp add: all_scan_apply scan_result_sublist [abs_def] del: scan_result_retimed)
qed

theorem scan_in_any_order_witness:
  "scan_elements (retimed ghost_env (\<lambda>d. 0)
       (order_time (map element_dir [''unit-a'', ''ghost'']) [1, 0]) (\<lambda>d. 0))
     [''unit-a'', ''ghost''] init_proc =
     (advance 0 [ReadDir ''elements/unit-a/'', ReadDir ''elements/ghost/''] init_proc,
      Rejected (JError ''ENOENT''))"
  using scan_in_any_order [of "[''unit-a'', ''ghost'']" ghost_env "[1, 0]" "\<lambda>d. 0" "\<lambda>d. 0"
      init_proc]
  by (simp add: order_eval element_dir_def)

text \<open>
  C32 (the startup under every order of arrival): let a driver be created for every
  selected browser, and let the listening event of the server and the sessions of the
  drivers arrive in the order \<open>sched\<close>.  With the settle times of that order the startup
  of \<^verbatim>\<open>main\<close> (lines 57-68) asks the server to listen, then opens one driver per selected
  browser and sets its script timeout, in the order of the browsers and before any answer
  is looked at; its promise is that of \<^verbatim>\<open>Promise.all\<close> run as a machine in that order over
  the array of line 58, the server first and then the drivers, taken apart by the pattern
  of line 57.  So \<^verbatim>\<open>main\<close> goes on with the server and the drivers when all have answered,
  is rejected with the rejection of the session that failed first in time, or waits.
\<close>

theorem startup_in_any_order:
  assumes "list_all (\<lambda>b. driverResult env b = None) (selected env)"
    and "ds = map driver_of (enumerate (fresh s) (selected env))"
    and "complete (startup_inputs (listening env) (map (session env) ds)) sched"
  shows "startup (retimed env (session_time ds sched) rt kt) s =
     (advance (length ds)
        (Listen ''docs'' #
         concat (map (\<lambda>d. [GetDriver (driverId d) (ofBrowser d),
           SetScriptTimeout (driverId d) 60000]) ds)) s,
      map_promise unpack
        (settled (run_all (startup_inputs (listening env) (map (session env) ds)) sched)))"
proof -
  from assms(1) have all: "list_all (starts env) (selected env)"
    by (simp add: starts_def [abs_def])
  from assms(2) have ds: "ds = opened env (fresh s)"
    by (simp add: opened_def)
  with all have "open_result env (fresh s) (selected env) = Fulfilled ds"
    by (simp add: open_result_Fulfilled_iff opened_def)
  with all have "startup_by sched env s =
     (advance (length ds)
        (Listen ''docs'' #
         concat (map (\<lambda>d. [GetDriver (driverId d) (ofBrowser d),
           SetScriptTimeout (driverId d) 60000]) ds)) s,
      map_promise unpack
        (settled (run_all (startup_inputs (listening env) (map (session env) ds)) sched)))"
    by (simp add: startup_by_apply startup_events_def startable_all open_events_drivers ds
        opened_def)
  with startup_by_refines [of env s sched rt kt] assms(3) show ?thesis
    by (simp add: ds)
qed

theorem startup_in_any_order_witness:
  "startup (retimed no_session_env (session_time [demo_driver, second_driver] [2, 0, 1])
       (\<lambda>p. 0) (\<lambda>d. 0)) init_proc =
     (advance 2
        [Listen ''docs'',
         GetDriver 0 (chrome\<lparr>arguments := [''--no-sandbox'']\<rparr>), SetScriptTimeout 0 60000,
         GetDriver 1 (chrome\<lparr>arguments := [''--no-sandbox'']\<rparr>), SetScriptTimeout 1 60000]
        init_proc,
      Rejected (JError ''session not created''))"
  using startup_in_any_order [of no_session_env "[demo_driver, second_driver]" init_proc
      "[2, 0, 1]" "\<lambda>p. 0" "\<lambda>d. 0"]
  by (simp add: order_eval startup_inputs_def listening_def selected_eq browserFilter_iff
      addArguments_def init_proc_def driver_of_def session_def demo_driver_def
      second_driver_def)

end
