(* ===== verification/Bounds.thy ===== *)
theory Bounds
  imports Script
begin

text \<open>
  How much a run can do.  The script has three loops: the map over the browsers that opens
  the drivers, the fold of \<^verbatim>\<open>runTests\<close> over the drivers, and in every discovery the map over
  the element directories; every one runs over a finite list that the outside gave.  So the
  number of calls a run makes is bounded by the sizes of these lists.

  \<open>listing\<close> is the list of the element directories (empty when \<^verbatim>\<open>elements\<close> cannot be
  listed), \<open>build_bound\<close> the bound on the events of one discovery (one listing of
  \<^verbatim>\<open>elements\<close>, one listing and at most one \<^verbatim>\<open>require\<close> per element), \<open>trace_bound\<close> the bound
  on the events of the program: six events that do not depend on the browsers (the server
  listens, the two messages of the teardown, the server closes, the last message or the
  error and the exit) and, for every selected browser, the two events of its driver, one
  discovery, one run and one kill.  The lemmas bound each part of the trace of a run; the
  property at the end bounds the trace and the identities that the file (\<open>script\<close>) hands
  out; a file that ends at a module that does not load makes no call at all.
\<close>

section \<open>Definitions\<close>

definition listing :: "env \<Rightarrow> string list" where
  "listing env = (case readdirResult env ''elements'' of Fulfilled es \<Rightarrow> es | _ \<Rightarrow> [])"

definition build_bound :: "env \<Rightarrow> nat" where
  "build_bound env = 1 + 2 * length (listing env)"

definition trace_bound :: "env \<Rightarrow> nat" where
  "trace_bound env = 6 + (4 + build_bound env) * length (selected env)"

section \<open>The parts of a run\<close>

lemma length_open_events [simp]: "length (open_events i bs) = 2 * length bs"
  by (induction bs arbitrary: i) (simp_all add: open_events_def driver_events_def)

lemma length_startable: "length (startable env bs) \<le> length bs"
  using startable_prefix [of env bs] by (rule prefix_length_le)

lemma length_selected: "length (selected env) \<le> length (localBrowsers env)"
  by (simp add: selected_eq)

lemma length_started: "length (startable env (selected env)) \<le> length (selected env)"
  by (rule length_startable)

lemma length_required: "length (required env i fs) \<le> length fs"
  using required_prefix [of env i fs] by (rule prefix_length_le)

lemma length_discovered: "length (discovered env es) \<le> length es"
  by (simp add: discovered_def)

lemma length_build_events: "length (build_events env i) \<le> build_bound env"
proof (cases "readdirResult env ''elements''")
  case (Fulfilled es)
  have "length (required env i (discovered env es)) \<le> length es"
    using length_required [of env i "discovered env es"] length_discovered [of env es] by simp
  with Fulfilled show ?thesis
    by (simp add: build_events_def build_bound_def listing_def scan_events_def
        split: promise.splits)
qed (simp_all add: build_events_def build_bound_def)

lemma length_drive_events: "length (drive_events env a d i) \<le> Suc (build_bound env)"
  using length_build_events [of env i] by (simp add: drive_events_def split: promise.splits)

lemma length_tests_events:
  "length (tests_events env a ds i) \<le> Suc (build_bound env) * length ds"
proof (induction ds arbitrary: i)
  case Nil
  show ?case by simp
next
  case (Cons d ds)
  from Cons.IH [of "Suc i"] length_drive_events [of env a d i] show ?case
    by simp
qed

lemma length_teardown_events: "length (teardown_events env ds) \<le> 3 + length ds"
  by (simp add: teardown_events_def split: promise.splits)

lemma length_final_events: "length (final_events r) \<le> 2"
  by (simp add: final_events_def split: promise.splits sum.splits)

lemma length_after_startup_events:
  "length (after_startup_events env srv ds j) \<le> 3 + (2 + build_bound env) * length ds"
  using length_tests_events [of env "address_of srv" ds j] length_teardown_events [of env ds]
  by (simp add: after_startup_events_def split: promise.splits)

lemma length_main_events:
  "length (main_events env i) \<le> 4 + (4 + build_bound env) * length (selected env)"
proof (cases "startup_result env i")
  case (Fulfilled x)
  obtain srv ds where x: "x = (srv, ds)"
    by (cases x)
  from startup_started [OF Fulfilled [unfolded x]]
  have ds: "length (selected env) = length ds"
    and st: "length (startable env (selected env)) = length ds"
    by simp_all
  then show ?thesis
    using length_after_startup_events [of env srv ds "i + length ds"] Fulfilled x
    by (simp add: main_events_def startup_events_def algebra_simps)
next
  case Pending
  with length_started [of env] show ?thesis
    by (simp add: main_events_def startup_events_def algebra_simps)
next
  case (Rejected e)
  with length_started [of env] show ?thesis
    by (simp add: main_events_def startup_events_def algebra_simps)
qed

lemma main_allocs_le: "main_allocs env i \<le> 2 * length (selected env)"
proof (cases "startup_result env i")
  case (Fulfilled x)
  obtain srv ds where x: "x = (srv, ds)"
    by (cases x)
  from startup_started [OF Fulfilled [unfolded x]]
  have "length ds = length (selected env)"
    by simp
  with Fulfilled x length_started [of env]
    tests_started_le [of env "address_of srv" ds "i + length ds"]
  show ?thesis
    by (simp add: main_allocs_def)
qed (use length_started [of env] in \<open>simp_all add: main_allocs_def\<close>)

section \<open>Properties\<close>

text \<open>
  C30 (bounds of a run): whatever the outside answers, the program hands out at most two
  identities per selected browser (its driver and the Mocha instance of its run), there are
  no more selected browsers than installed ones, and the number of events of the program
  is at most \<open>trace_bound\<close>: six, and for every selected browser four and the events of one
  discovery, which are at most one and two per element directory.
\<close>

theorem script_bounded:
  "fresh (fst (script env s)) \<le> fresh s + 2 * length (selected env) \<and>
   length (selected env) \<le> length (localBrowsers env) \<and>
   length (trace (fst (script env s))) \<le> length (trace s) + trace_bound env"
  using main_allocs_le [of env "fresh s"] length_main_events [of env "fresh s"]
    length_final_events [of "main_result env (fresh s)"] length_selected [of env]
  by (simp add: script_sem trace_bound_def split: option.splits)

end
