(* ===== verification/Lifecycle.thy ===== *)
theory Lifecycle
  imports Sequencer
begin

text \<open>
  The life cycle of a driver in \<^verbatim>\<open>runTests\<close> (lines 96-110), as the specification draws it:
  not started, discovering, running, and finished with success or with failure.

  \<open>phase\<close> is the state of one driver and a configuration is the list of the phases of
  the drivers, in their order.  \<open>lstep\<close> is the abstract machine: a driver starts its
  discovery only when every driver before it has passed, a discovery ends in a run or in a
  failure, a run ends in success or in failure, and nothing else happens; a driver that
  discovers or runs may stay so for ever.  \<open>sequential\<close> is the invariant of the machine:
  behind a prefix of drivers that have passed there is at most one driver that has
  started, and every driver behind it has not.

  \<open>driver_phases\<close> are the phases that the body of the chain (\<open>run_driver\<close>) takes a driver
  through, and \<open>lifecycle\<close> the configurations that the chain goes through, by the answers
  of the outside; \<open>final_phases\<close> is the configuration in which the chain ends.  The
  lemmas show that the chain is a run of the machine (\<open>lifecycle_steps\<close>,
  \<open>final_phases_reachable\<close>), that the machine keeps its invariant
  (\<open>reachable_sequential\<close>), and how the end of \<^verbatim>\<open>runTests\<close> reads off the configuration.
  \<open>moves\<close> and \<open>lstep_iff\<close> give the steps of one driver as a function, and \<open>next_configs\<close>
  computes the configurations that follow a configuration (\<open>lstep_next_configs\<close>).

  The phases are ordered by how far a driver has come (\<open>rank\<close>, and the instance of
  \<open>order\<close> for \<open>phase\<close>, in which \<open>Passed\<close> and \<open>Failed\<close> are both maximal): a step moves one
  driver strictly up (\<open>moves_less\<close>, \<open>lstep_advances\<close>), so no driver ever returns to an
  earlier phase and a driver that has finished stays as it is; \<open>progress\<close> sums the ranks,
  every step raises it, and so the machine has no infinite run (\<open>lstep_terminates\<close>) and
  the chain goes through at most three configurations per driver (\<open>length_lifecycle\<close>).
\<close>

section \<open>The abstract machine\<close>

datatype phase = NotStarted | Discovering | Running | Passed | Failed

inductive lstep :: "phase list \<Rightarrow> phase list \<Rightarrow> bool" where
  l_start: "k < length c \<Longrightarrow> c ! k = NotStarted \<Longrightarrow> list_all (\<lambda>p. p = Passed) (take k c) \<Longrightarrow>
    lstep c (c[k := Discovering])"
| l_built: "k < length c \<Longrightarrow> c ! k = Discovering \<Longrightarrow> lstep c (c[k := Running])"
| l_unbuilt: "k < length c \<Longrightarrow> c ! k = Discovering \<Longrightarrow> lstep c (c[k := Failed])"
| l_passed: "k < length c \<Longrightarrow> c ! k = Running \<Longrightarrow> lstep c (c[k := Passed])"
| l_failed: "k < length c \<Longrightarrow> c ! k = Running \<Longrightarrow> lstep c (c[k := Failed])"

fun moves :: "phase \<Rightarrow> phase \<Rightarrow> bool" where
  "moves NotStarted q \<longleftrightarrow> q = Discovering"
| "moves Discovering q \<longleftrightarrow> q = Running \<or> q = Failed"
| "moves Running q \<longleftrightarrow> q = Passed \<or> q = Failed"
| "moves Passed q \<longleftrightarrow> False"
| "moves Failed q \<longleftrightarrow> False"

fun rank :: "phase \<Rightarrow> nat" where
  "rank NotStarted = 0"
| "rank Discovering = 1"
| "rank Running = 2"
| "rank Passed = 3"
| "rank Failed = 3"

instantiation phase :: order
begin

definition less_eq_phase :: "phase \<Rightarrow> phase \<Rightarrow> bool" where
  "p \<le> q \<longleftrightarrow> p = q \<or> rank p < rank q"

definition less_phase :: "phase \<Rightarrow> phase \<Rightarrow> bool" where
  "p < q \<longleftrightarrow> rank p < rank q"

instance
proof
  fix p q r :: phase
  show "p < q \<longleftrightarrow> p \<le> q \<and> \<not> q \<le> p"
    by (auto simp: less_eq_phase_def less_phase_def)
  show "p \<le> p"
    by (simp add: less_eq_phase_def)
  show "p \<le> q \<Longrightarrow> q \<le> r \<Longrightarrow> p \<le> r"
    by (auto simp: less_eq_phase_def)
  show "p \<le> q \<Longrightarrow> q \<le> p \<Longrightarrow> p = q"
    by (auto simp: less_eq_phase_def)
qed

end

definition progress :: "phase list \<Rightarrow> nat" where
  "progress c = sum_list (map rank c)"

fun targets :: "phase \<Rightarrow> phase list" where
  "targets NotStarted = [Discovering]"
| "targets Discovering = [Running, Failed]"
| "targets Running = [Passed, Failed]"
| "targets Passed = []"
| "targets Failed = []"

definition may_move :: "phase list \<Rightarrow> nat \<Rightarrow> bool" where
  "may_move c k \<longleftrightarrow> c ! k \<noteq> NotStarted \<or> list_all (\<lambda>p. p = Passed) (take k c)"

definition next_configs :: "phase list \<Rightarrow> phase list list" where
  "next_configs c =
     concat (map (\<lambda>k. map (\<lambda>q. c[k := q]) (if may_move c k then targets (c ! k) else []))
       [0..<length c])"

definition sequential :: "phase list \<Rightarrow> bool" where
  "sequential c \<longleftrightarrow>
     (\<exists>k \<in> set [0..<Suc (length c)].
        list_all (\<lambda>p. p = Passed) (take k c) \<and> list_all (\<lambda>p. p = NotStarted) (drop (Suc k) c))"

section \<open>The chain as a run of the machine\<close>

definition driver_phases :: "env \<Rightarrow> string \<Rightarrow> driver \<Rightarrow> nat \<Rightarrow> phase list" where
  "driver_phases env a d i =
     Discovering #
     (case build_result env i of
        Pending \<Rightarrow> []
      | Rejected e \<Rightarrow> [Failed]
      | Fulfilled m \<Rightarrow>
          Running #
          (case runResult env (set_ctx d a m) of
             None \<Rightarrow> []
           | Some code \<Rightarrow> [if code = 0 then Passed else Failed]))"

definition config :: "nat \<Rightarrow> nat \<Rightarrow> phase \<Rightarrow> phase list" where
  "config k n p = replicate k Passed @ p # replicate n NotStarted"

fun lifecycle :: "env \<Rightarrow> string \<Rightarrow> driver list \<Rightarrow> nat \<Rightarrow> nat \<Rightarrow> phase list list" where
  "lifecycle env a [] i k = []"
| "lifecycle env a (d # ds) i k =
     map (config k (length ds)) (driver_phases env a d i) @
     (if passes env a d i then lifecycle env a ds (Suc i) (Suc k) else [])"

fun final_phases :: "env \<Rightarrow> string \<Rightarrow> driver list \<Rightarrow> nat \<Rightarrow> phase list" where
  "final_phases env a [] i = []"
| "final_phases env a (d # ds) i =
     last (driver_phases env a d i) #
     (if passes env a d i then final_phases env a ds (Suc i)
      else replicate (length ds) NotStarted)"

section \<open>Steps\<close>

lemma lstep_iff:
  "lstep c c' \<longleftrightarrow>
     (\<exists>k q. k < length c \<and> moves (c ! k) q \<and> c' = c[k := q] \<and>
        (c ! k = NotStarted \<longrightarrow> list_all (\<lambda>p. p = Passed) (take k c)))"
proof
  assume "lstep c c'"
  then show "\<exists>k q. k < length c \<and> moves (c ! k) q \<and> c' = c[k := q] \<and>
      (c ! k = NotStarted \<longrightarrow> list_all (\<lambda>p. p = Passed) (take k c))"
    by (induction rule: lstep.induct) fastforce+
next
  assume "\<exists>k q. k < length c \<and> moves (c ! k) q \<and> c' = c[k := q] \<and>
      (c ! k = NotStarted \<longrightarrow> list_all (\<lambda>p. p = Passed) (take k c))"
  then obtain k q where "k < length c" and "moves (c ! k) q" and "c' = c[k := q]"
    and "c ! k = NotStarted \<longrightarrow> list_all (\<lambda>p. p = Passed) (take k c)"
    by blast
  then show "lstep c c'"
    by (cases "c ! k") (auto intro: lstep.intros)
qed

lemma lstepI:
  "k < length c \<Longrightarrow> moves (c ! k) q \<Longrightarrow>
   (c ! k = NotStarted \<Longrightarrow> list_all (\<lambda>p. p = Passed) (take k c)) \<Longrightarrow> lstep c (c[k := q])"
  unfolding lstep_iff by blast

lemma length_lstep: "lstep c c' \<Longrightarrow> length c' = length c"
  by (auto simp: lstep_iff)

lemma lstepE [consumes 1]:
  assumes "lstep c c'"
  obtains k q where "k < length c" and "moves (c ! k) q" and "c' = c[k := q]"
    and "c ! k = NotStarted \<Longrightarrow> list_all (\<lambda>p. p = Passed) (take k c)"
  using assms unfolding lstep_iff by blast

lemma lstep_append:
  assumes "lstep c c'"
  shows "lstep (c @ zs) (c' @ zs)"
  using assms
proof (rule lstepE)
  fix k q
  assume k: "k < length c" "moves (c ! k) q" "c' = c[k := q]"
    "c ! k = NotStarted \<Longrightarrow> list_all (\<lambda>p. p = Passed) (take k c)"
  then have "lstep (c @ zs) ((c @ zs)[k := q])"
    by (intro lstepI) (simp_all add: nth_append)
  with k show ?thesis
    by (simp add: list_update_append)
qed

lemma lstep_Passed:
  assumes "lstep c c'"
  shows "lstep (Passed # c) (Passed # c')"
  using assms
proof (rule lstepE)
  fix k q
  assume k: "k < length c" "moves (c ! k) q" "c' = c[k := q]"
    "c ! k = NotStarted \<Longrightarrow> list_all (\<lambda>p. p = Passed) (take k c)"
  then have "lstep (Passed # c) ((Passed # c)[Suc k := q])"
    by (intro lstepI) simp_all
  with k show ?thesis
    by simp
qed

lemma lsteps_append: "rtranclp lstep c c' \<Longrightarrow> rtranclp lstep (c @ zs) (c' @ zs)"
  by (induction rule: rtranclp_induct) (auto intro: rtranclp.rtrancl_into_rtrancl lstep_append)

lemma lsteps_Passed: "rtranclp lstep c c' \<Longrightarrow> rtranclp lstep (Passed # c) (Passed # c')"
  by (induction rule: rtranclp_induct) (auto intro: rtranclp.rtrancl_into_rtrancl lstep_Passed)

lemma lstep_head:
  "lstep (NotStarted # c) (Discovering # c)" "lstep (Discovering # c) (Running # c)"
  "lstep (Discovering # c) (Failed # c)" "lstep (Running # c) (Passed # c)"
  "lstep (Running # c) (Failed # c)"
  using l_start [of 0 "NotStarted # c"] l_built [of 0 "Discovering # c"]
    l_unbuilt [of 0 "Discovering # c"] l_passed [of 0 "Running # c"]
    l_failed [of 0 "Running # c"]
  by simp_all

lemma lsteps_head:
  "rtranclp lstep (NotStarted # c) (Discovering # c)"
  "rtranclp lstep (NotStarted # c) (Running # c)"
  "rtranclp lstep (NotStarted # c) (Failed # c)"
  "rtranclp lstep (NotStarted # c) (Passed # c)"
proof -
  show 1: "rtranclp lstep (NotStarted # c) (Discovering # c)"
    by (rule r_into_rtranclp) (rule lstep_head)
  from 1 show 2: "rtranclp lstep (NotStarted # c) (Running # c)"
    by (rule rtranclp.rtrancl_into_rtrancl) (rule lstep_head)
  from 1 show "rtranclp lstep (NotStarted # c) (Failed # c)"
    by (rule rtranclp.rtrancl_into_rtrancl) (rule lstep_head)
  from 2 show "rtranclp lstep (NotStarted # c) (Passed # c)"
    by (rule rtranclp.rtrancl_into_rtrancl) (rule lstep_head)
qed

lemma driver_phases_reachable:
  "rtranclp lstep (NotStarted # c) (last (driver_phases env a d i) # c)"
  by (simp add: driver_phases_def lsteps_head split: promise.splits option.splits)

lemma last_driver_phases_Passed_iff:
  "last (driver_phases env a d i) = Passed \<longleftrightarrow> passes env a d i"
  by (auto simp: driver_phases_def passes_def drive_result_def run_verdict_def
      split: promise.splits option.splits)

lemma final_phases_reachable:
  "rtranclp lstep (replicate (length ds) NotStarted) (final_phases env a ds i)"
proof (induction ds arbitrary: i)
  case Nil
  show ?case by simp
next
  case (Cons d ds)
  let ?p = "last (driver_phases env a d i)"
  have 1: "rtranclp lstep (replicate (length (d # ds)) NotStarted)
      (?p # replicate (length ds) NotStarted)"
    using driver_phases_reachable [of "replicate (length ds) NotStarted" env a d i] by simp
  show ?case
  proof (cases "passes env a d i")
    case True
    then have "?p = Passed"
      by (simp add: last_driver_phases_Passed_iff)
    with 1 lsteps_Passed [OF Cons.IH [of "Suc i"]] True show ?thesis
      by simp
  next
    case False
    with 1 show ?thesis
      by simp
  qed
qed

section \<open>The invariant of the machine\<close>

lemma sequential_nth:
  "sequential c \<longleftrightarrow>
     (\<exists>k \<le> length c. (\<forall>i < k. c ! i = Passed) \<and>
        (\<forall>i. k < i \<and> i < length c \<longrightarrow> c ! i = NotStarted))"
proof -
  have behind: "list_all (\<lambda>p. p = NotStarted) (drop (Suc k) c) \<longleftrightarrow>
      (\<forall>i. k < i \<and> i < length c \<longrightarrow> c ! i = NotStarted)" for k
  proof (intro iffI allI impI)
    fix i
    assume "list_all (\<lambda>p. p = NotStarted) (drop (Suc k) c)" and "k < i \<and> i < length c"
    then show "c ! i = NotStarted"
      by (auto simp: list_all_length dest!: spec [of _ "i - Suc k"])
  qed (simp add: list_all_length)
  have before: "list_all (\<lambda>p. p = Passed) (take k c) \<longleftrightarrow> (\<forall>i < k. c ! i = Passed)"
    if "k \<le> length c" for k
    using that by (simp add: list_all_length min_def)
  have "sequential c \<longleftrightarrow>
      (\<exists>k \<le> length c. list_all (\<lambda>p. p = Passed) (take k c) \<and>
         list_all (\<lambda>p. p = NotStarted) (drop (Suc k) c))"
    by (auto simp: sequential_def Bex_def less_Suc_eq_le simp del: upt_Suc)
  then show ?thesis
    using before by (auto simp: behind)
qed

lemma sequential_replicate [simp]: "sequential (replicate n NotStarted)"
  unfolding sequential_nth by (intro exI [of _ 0]) simp

lemma sequential_step:
  assumes "lstep c c'" and "sequential c"
  shows "sequential c'"
  using assms(1)
proof (rule lstepE)
  fix j q
  assume j: "j < length c" "moves (c ! j) q" "c' = c[j := q]"
    "c ! j = NotStarted \<Longrightarrow> list_all (\<lambda>p. p = Passed) (take j c)"
  from assms(2) obtain k where k: "k \<le> length c" "\<forall>i < k. c ! i = Passed"
    "\<forall>i. k < i \<and> i < length c \<longrightarrow> c ! i = NotStarted"
    unfolding sequential_nth by blast
  from j(2) k(2) have "k \<le> j"
    by (cases "j < k") auto
  have "\<forall>i < j. c ! i = Passed"
  proof (cases "c ! j = NotStarted")
    case True
    from j(4) [OF this] j(1) show ?thesis
      by (simp add: list_all_length)
  next
    case False
    with k(3) j(1) \<open>k \<le> j\<close> have "j = k"
      by (cases "k < j") auto
    with k(2) show ?thesis
      by simp
  qed
  with k(3) \<open>k \<le> j\<close> j(1) have "\<forall>i < j. c' ! i = Passed"
    and "\<forall>i. j < i \<and> i < length c' \<longrightarrow> c' ! i = NotStarted"
    by (simp_all add: j(3))
  with j(1) show ?thesis
    unfolding sequential_nth by (intro exI [of _ j]) (simp add: j(3))
qed

lemma reachable_sequential:
  "rtranclp lstep (replicate n NotStarted) c \<Longrightarrow> sequential c"
  by (induction rule: rtranclp_induct) (auto intro: sequential_step)

section \<open>Progress and termination\<close>

lemma moves_less: "moves p q \<Longrightarrow> p < q"
  by (cases p) (auto simp: less_phase_def)

lemma less_eq_iff_moves: "p \<le> q \<longleftrightarrow> rtranclp moves p q"
proof
  assume "p \<le> q"
  have steps: "rtranclp moves NotStarted Discovering" "rtranclp moves Discovering Running"
    "rtranclp moves Discovering Failed" "rtranclp moves Running Passed"
    "rtranclp moves Running Failed"
    by (rule r_into_rtranclp, simp)+
  note chain = rtranclp_trans [of moves]
  from \<open>p \<le> q\<close> show "rtranclp moves p q"
    by (cases p; cases q) (auto simp: less_eq_phase_def intro: steps chain [OF steps(1)]
        chain [OF steps(2)] chain [OF chain [OF steps(1) steps(2)]])
next
  assume "rtranclp moves p q"
  then show "p \<le> q"
    by (induction rule: rtranclp_induct) (auto dest: moves_less)
qed

lemma rank_le_3 [simp]: "rank p \<le> 3"
  by (cases p) simp_all

lemma progress_le: "progress c \<le> 3 * length c"
  unfolding progress_def by (induction c) (simp_all add: le_trans [OF add_mono [OF rank_le_3]])

lemma progress_update:
  "k < length c \<Longrightarrow> progress (c[k := q]) + rank (c ! k) = progress c + rank q"
  unfolding progress_def
  by (induction c arbitrary: k) (auto simp: nth_Cons' split: nat.splits if_splits)

lemma lstep_progress:
  assumes "lstep c c'"
  shows "progress c < progress c'"
  using assms
proof (rule lstepE)
  fix k q
  assume k: "k < length c" "moves (c ! k) q" "c' = c[k := q]"
  from moves_less [OF k(2)] have "rank (c ! k) < rank q"
    by (simp add: less_phase_def)
  with progress_update [OF k(1), of q] show ?thesis
    by (simp add: k(3))
qed

lemma lstep_advances: "lstep c c' \<Longrightarrow> list_all2 (\<le>) c c'"
  by (erule lstepE)
    (auto simp: list_all2_conv_all_nth nth_list_update dest: moves_less less_imp_le)

lemma lsteps_advance: "rtranclp lstep c c' \<Longrightarrow> list_all2 (\<le>) c c'"
proof (induction rule: rtranclp_induct)
  case base
  show ?case by (simp add: list_all2_conv_all_nth)
next
  case (step c' c'')
  from step.IH lstep_advances [OF step.hyps(2)] show ?case
    by (rule list_all2_trans [rotated]) (rule order_trans)
qed

lemma lstep_terminates: "wf {(c', c). lstep c c'}"
proof (rule wf_subset [OF wf_measure [of "\<lambda>c. 3 * length c - progress c"]], clarify)
  fix c c'
  assume step: "lstep c c'"
  with progress_le [of c'] lstep_progress [OF step] length_lstep [OF step]
  show "(c', c) \<in> measure (\<lambda>c. 3 * length c - progress c)"
    by simp
qed

lemma moves_targets: "moves p q \<longleftrightarrow> q \<in> set (targets p)"
  by (cases p) auto

lemma set_next_configs:
  "set (next_configs c) =
     {c[k := q] | k q. k < length c \<and> may_move c k \<and> q \<in> set (targets (c ! k))}"
  unfolding next_configs_def set_concat set_map
  by (rule set_eqI) (simp add: image_iff Bex_def, blast)

lemma lstep_next_configs: "lstep c c' \<longleftrightarrow> c' \<in> set (next_configs c)"
  unfolding lstep_iff set_next_configs moves_targets may_move_def by blast

lemma length_driver_phases: "length (driver_phases env a d i) \<le> 3"
  by (simp add: driver_phases_def split: promise.splits option.splits)

lemma length_lifecycle: "length (lifecycle env a ds i k) \<le> 3 * length ds"
proof (induction ds arbitrary: i k)
  case Nil
  show ?case by simp
next
  case (Cons d ds)
  from Cons.IH [of "Suc i" "Suc k"] length_driver_phases [of env a d i] show ?case
    by simp
qed

lemma next_configs_example:
  "next_configs [Passed, NotStarted, NotStarted] = [[Passed, Discovering, NotStarted]]"
  "next_configs [Passed, Running, NotStarted] =
     [[Passed, Passed, NotStarted], [Passed, Failed, NotStarted]]"
  "next_configs [Failed, NotStarted] = []"
  by (simp_all add: next_configs_def may_move_def upt_conv_Cons)

section \<open>The end of the chain\<close>

lemma length_final_phases [simp]: "length (final_phases env a ds i) = length ds"
  by (induction ds arbitrary: i) simp_all

lemma last_driver_phases_cases:
  "last (driver_phases env a d i) =
     (case drive_result env a d i of
        Fulfilled u \<Rightarrow> Passed
      | Rejected e \<Rightarrow> Failed
      | Pending \<Rightarrow> (case build_result env i of Fulfilled m \<Rightarrow> Running | _ \<Rightarrow> Discovering))"
  by (simp add: driver_phases_def drive_result_def run_verdict_def
      split: promise.splits option.splits)

lemma final_phases_Passed_iff:
  "final_phases env a ds i = replicate (length ds) Passed \<longleftrightarrow>
     tests_result env a ds i = Fulfilled ()"
  by (induction ds arbitrary: i)
    (auto simp: last_driver_phases_cases passes_def split: promise.splits)

lemma final_phases_Failed_iff:
  "Failed \<in> set (final_phases env a ds i) \<longleftrightarrow> (\<exists>e. tests_result env a ds i = Rejected e)"
  by (induction ds arbitrary: i)
    (auto simp: last_driver_phases_cases passes_def split: promise.splits)

lemma final_phases_active_iff:
  "Discovering \<in> set (final_phases env a ds i) \<or> Running \<in> set (final_phases env a ds i) \<longleftrightarrow>
     tests_result env a ds i = Pending"
  by (induction ds arbitrary: i)
    (auto simp: last_driver_phases_cases passes_def split: promise.splits)

lemma final_phases_started:
  "length (filter (\<lambda>p. p \<noteq> NotStarted) (final_phases env a ds i)) = tests_started env a ds i"
  by (induction ds arbitrary: i)
    (auto simp: last_driver_phases_cases split: promise.splits)

section \<open>The configurations of the chain\<close>

lemma successively_snoc_Cons:
  "successively P (xs @ [x]) \<Longrightarrow> successively P (x # ys) \<Longrightarrow> successively P (xs @ x # ys)"
  by (cases xs rule: rev_cases; cases ys) (auto simp: successively_append_iff)

lemma moves_driver_phases: "successively moves (NotStarted # driver_phases env a d i)"
  by (simp add: driver_phases_def split: promise.splits option.splits)

lemma lstep_config: "moves p q \<Longrightarrow> lstep (config k n p) (config k n q)"
  using lstepI [of k "config k n p" q]
  by (simp add: config_def nth_append list_update_append list_all_length)

lemma successively_config:
  "successively moves ps \<Longrightarrow> successively lstep (map (config k n) ps)"
  unfolding successively_map by (erule successively_mono) (rule lstep_config)

lemma config_NotStarted: "replicate k Passed @ replicate (Suc n) NotStarted = config k n NotStarted"
  by (simp add: config_def)

lemma config_Passed: "replicate (Suc k) Passed @ replicate n NotStarted = config k n Passed"
  by (simp add: config_def replicate_append_same)

lemma driver_phases_passes:
  "passes env a d i \<Longrightarrow> driver_phases env a d i = [Discovering, Running, Passed]"
  by (auto simp: passes_def drive_result_Fulfilled_iff driver_phases_def)

lemma driver_phases_not_Nil [simp]: "driver_phases env a d i \<noteq> []"
  by (simp add: driver_phases_def)

lemma lifecycle_steps:
  "successively lstep
     ((replicate k Passed @ replicate (length ds) NotStarted) # lifecycle env a ds i k)"
proof (induction ds arbitrary: i k)
  case Nil
  show ?case by simp
next
  case (Cons d ds)
  show ?case
  proof (cases "passes env a d i")
    case True
    with Cons.IH [of "Suc k" "Suc i"] show ?thesis
      by (simp add: driver_phases_passes config_NotStarted config_Passed lstep_config
          del: replicate_Suc)
  next
    case False
    with successively_config [OF moves_driver_phases, of k "length ds" env a d i]
    show ?thesis
      by (simp add: config_NotStarted del: replicate_Suc)
  qed
qed

lemma last_lifecycle:
  "last ((replicate k Passed @ replicate (length ds) NotStarted) # lifecycle env a ds i k) =
     replicate k Passed @ final_phases env a ds i"
proof (induction ds arbitrary: i k)
  case Nil
  show ?case by simp
next
  case (Cons d ds)
  show ?case
  proof (cases "passes env a d i")
    case True
    with Cons.IH [of "Suc k" "Suc i"] show ?thesis
      by (simp add: driver_phases_passes config_def replicate_app_Cons_same)
  next
    case False
    then show ?thesis
      by (simp add: last_map config_def)
  qed
qed

lemma Running_config [simp]: "Running \<in> set (config k n p) \<longleftrightarrow> p = Running"
  by (auto simp: config_def)

lemma running_driver_phases:
  "length (filter (\<lambda>p. p = Running) (driver_phases env a d i)) =
     length (runs (drive_events env a d i))"
  by (simp add: driver_phases_def runs_drive_events split: promise.splits option.splits)

lemma running_lifecycle:
  "length (filter (\<lambda>c. Running \<in> set c) (lifecycle env a ds i k)) =
     length (runs (tests_events env a ds i))"
  by (induction ds arbitrary: i k) (simp_all add: filter_map comp_def running_driver_phases)

section \<open>A run that fails at the first of two drivers\<close>

lemma final_phases_failing_env:
  "final_phases failing_env a [demo_driver, second_driver] 0 = [Failed, NotStarted]"
  "lifecycle failing_env a [demo_driver, second_driver] 0 0 =
     [[Discovering, NotStarted], [Running, NotStarted], [Failed, NotStarted]]"
  by (simp_all add: driver_phases_def passes_def drive_result_def discovery_eval config_def)

section \<open>Properties\<close>

text \<open>
  C23 (Execution Sequencer, the life cycle of the drivers): the chain of \<^verbatim>\<open>runTests\<close> is a run
  of the machine of the specification.  From the configuration in which no driver has
  started, the configurations that the chain goes through are steps of the machine, and
  the last of them is \<open>final_phases\<close>.  \<^verbatim>\<open>runTests\<close> fulfils exactly when every driver has
  passed there, it is rejected exactly when a driver has failed, and it stays pending
  exactly when a driver is left discovering or running; it has created one Mocha instance
  for every driver that has started, and it has called \<^verbatim>\<open>mocha.run\<close> once for every
  configuration in which a driver is running.
\<close>

theorem runTests_follows_lifecycle:
  "successively lstep (replicate (length ds) NotStarted # lifecycle env a ds (fresh s) 0) \<and>
   last (replicate (length ds) NotStarted # lifecycle env a ds (fresh s) 0) =
     final_phases env a ds (fresh s) \<and>
   (snd (runTests env a ds s) = Fulfilled () \<longleftrightarrow>
     final_phases env a ds (fresh s) = replicate (length ds) Passed) \<and>
   ((\<exists>e. snd (runTests env a ds s) = Rejected e) \<longleftrightarrow>
     Failed \<in> set (final_phases env a ds (fresh s))) \<and>
   (snd (runTests env a ds s) = Pending \<longleftrightarrow>
     Discovering \<in> set (final_phases env a ds (fresh s)) \<or>
     Running \<in> set (final_phases env a ds (fresh s))) \<and>
   fresh (fst (runTests env a ds s)) =
     fresh s + length (filter (\<lambda>p. p \<noteq> NotStarted) (final_phases env a ds (fresh s))) \<and>
   length (runs (added s (fst (runTests env a ds s)))) =
     length (filter (\<lambda>c. Running \<in> set c) (lifecycle env a ds (fresh s) 0))"
  using lifecycle_steps [of 0 ds env a "fresh s"] last_lifecycle [of 0 ds env a "fresh s"]
  by (simp add: runTests_sem final_phases_Passed_iff final_phases_Failed_iff
      final_phases_active_iff final_phases_started running_lifecycle)

theorem runTests_follows_lifecycle_witness:
  "final_phases failing_env ''http://localhost:8080'' [demo_driver, second_driver] 0 =
     [Failed, NotStarted] \<and>
   (\<exists>e. snd (runTests failing_env ''http://localhost:8080'' [demo_driver, second_driver]
      init_proc) = Rejected e) \<and>
   fresh (fst (runTests failing_env ''http://localhost:8080'' [demo_driver, second_driver]
      init_proc)) = 1"
  using runTests_follows_lifecycle [of "[demo_driver, second_driver]" failing_env
      "''http://localhost:8080''" init_proc]
  by (simp add: final_phases_failing_env init_proc_def del: final_phases.simps lifecycle.simps)

end
