(* ===== verification/Spec2Isabelle.thy ===== *)
theory Spec2Isabelle
  imports Conformance Schedule Bounds Lifecycle
begin

text \<open>
  A verification development for \<^verbatim>\<open>src/run-e2e-tests.js\<close>, the script that runs the
  end-to-end test suites of the elements against the locally installed browsers.

  \<^bold>\<open>The program.\<close>  The script binds its five modules (lines 1-5), starts a static file server on the directory \<^verbatim>\<open>docs\<close>
  (\<^verbatim>\<open>startServer\<close>), opens one webdriver per installed stable Chrome (\<^verbatim>\<open>browserFilter\<close>,
  \<^verbatim>\<open>unsandboxChrome\<close> and the pipeline at the head of \<^verbatim>\<open>main\<close>), and then, for one driver after
  the other (\<^verbatim>\<open>runTests\<close>), builds a fresh Mocha instance from the element directories that
  hold an e2e test (\<^verbatim>\<open>buildMocha\<close>), puts the driver and the address of the server into the
  context of every top-level suite, and runs the instance (\<^verbatim>\<open>runMocha\<close>).  After the runs
  \<^verbatim>\<open>main\<close> kills the drivers and closes the server, and the last statement of the file turns
  the result of \<^verbatim>\<open>main\<close> into the exit code of the process.

  \<^bold>\<open>The model.\<close>  Everything outside the script (the installed browsers, the file system,
  the module loader, what a Mocha run reports, whether the server comes up, whether a kill
  succeeds) is a parameter: the record \<open>env\<close> of \<open>World\<close> holds one answer per library call
  whose result the script depends on, and every theorem holds for every \<open>env\<close>.  The state of
  the process is \<open>proc\<close>: the trace of the calls that are visible outside, oldest first, and
  a counter from which new objects (drivers, Mocha instances) get their identity.  An
  asynchronous function is a \<open>task\<close>: a function from the state to the state it leaves and
  the state in which its promise ends, which is fulfilled, rejected or pending for ever.  A
  \<^verbatim>\<open>throw\<close> is a rejection.  \<^verbatim>\<open>await\<close>, \<^verbatim>\<open>try\<close>/\<^verbatim>\<open>catch\<close> and \<^verbatim>\<open>Promise.all\<close> are the combinators
  \<open>await\<close>, \<open>try_catch\<close> and \<open>all_tasks_at\<close> of \<open>JS_Prelude\<close>.

  \<^bold>\<open>Theories and the code they model.\<close>
  \<^item> \<open>JS_Prelude\<close>: the part of the language the script uses: values with \<open>truthy\<close> and the
    property read \<open>get_stack\<close>, promises, tasks, the pattern test \<open>re_test\<close>, decimal numbers.
  \<^item> \<open>World\<close>: the objects of the libraries (\<open>browser\<close>, \<open>driver\<close>, \<open>suite\<close>, \<open>mocha\<close>, \<open>server\<close>),
    the events, \<open>proc\<close>, \<open>env\<close>, and one definition per library call.
  \<^item> \<open>Scenario\<close>: concrete worlds: the scenario with the elements \<^verbatim>\<open>unit-a\<close> and \<^verbatim>\<open>unit-b\<close>, and
    variants of it in which one answer differs.
  \<^item> \<open>Browser\<close>: \<^verbatim>\<open>browserFilter\<close> (lines 7-10), \<^verbatim>\<open>unsandboxChrome\<close> (lines 42-50), the pipeline
    of lines 60-67 (\<open>provision\<close>, with the callback \<open>open_driver\<close>).
  \<^item> \<open>Server\<close>: \<^verbatim>\<open>startServer\<close> (lines 12-19), the address of line 71 (\<open>address_of\<close>).
  \<^item> \<open>Discovery\<close>: \<^verbatim>\<open>buildMocha\<close> (lines 21-40) with \<open>scan_elements\<close> (lines 24-32),
    \<open>scan_element\<close> (lines 25-31), \<open>has_e2etest\<close> (line 27), \<open>register\<close> and \<open>suite_file\<close>
    (lines 33-36).
  \<^item> \<open>Sequencer\<close>: \<^verbatim>\<open>runMocha\<close> (lines 89-94) with \<open>run_done\<close>, \<^verbatim>\<open>runTests\<close> (lines 96-110) with
    \<open>run_driver\<close> and \<open>set_ctx\<close>.
  \<^item> \<open>Lifecycle\<close>: the state machine of the specification for the drivers of \<^verbatim>\<open>runTests\<close>
    (not started, discovering, running, passed, failed) as the step relation \<open>lstep\<close>, and
    the configurations that the chain of \<^verbatim>\<open>runTests\<close> goes through (\<open>lifecycle\<close>); the
    phases as an order (\<open>rank\<close>), the measure \<open>progress\<close> of a configuration and the
    executable successor function \<open>next_configs\<close> of the step relation.
  \<^item> \<open>Orchestration\<close>: \<^verbatim>\<open>main\<close> (lines 52-87) as \<open>startup\<close> (lines 57-68: the server, the
    drivers, and the wait for the server and the sessions), \<open>run_guarded\<close> with \<open>catch_stack\<close>, and
    \<open>teardown\<close> with \<open>kill_all\<close> (lines 81-83); the last statement (lines 112-120) as \<open>toplevel\<close> with the handlers
    \<open>on_fulfilled\<close> and \<open>on_rejected\<close>.
  \<^item> \<open>Script\<close>: the file as a whole: the bindings of lines 1-5 (\<open>modules\<close>, \<open>load_modules\<close>)
    and then the last statement (\<open>script\<close>); the predicate \<open>configured\<close> of a Mocha instance.
  \<^item> \<open>Protocol\<close>: the protocol of the server and the drivers as a labelled transition
    relation \<open>mstep\<close> on monitor states, with its invariant and an executable checker
    (\<open>accepts\<close>, with the traces it refuses in \<open>refused_traces\<close>).
  \<^item> \<open>Conformance\<close>: every run of the program is a trace of the protocol.
  \<^item> \<open>Settle\<close>: \<^verbatim>\<open>Promise.all\<close> as the runtime executes it: the state of a call (\<open>all_state\<close>), its
    reactions \<open>on_fulfil\<close> and \<open>on_reject\<close>, the step relation \<open>deliver\<close> of the settlements
    that arrive, and the run \<open>run_all\<close> over an order of arrival.
  \<^item> \<open>Schedule\<close>: the program under a change of the times at which the concurrent
    sessions, directory listings and kills settle; the three concurrent steps with the
    machine of \<open>Settle\<close> in the place of the settle times (\<open>startup_by\<close> for lines 57-68
    with the array \<open>startup_inputs\<close> and the pattern \<open>unpack\<close>, \<open>scan_elements_by\<close>,
    \<open>kill_all_by\<close>), a second rendering of the same lines through which the properties on
    the orders of arrival are proved of \<open>startup\<close>, \<open>scan_elements\<close> and \<open>teardown\<close>.
  \<^item> \<open>Bounds\<close>: the number of calls and of identities of a run.
  \<^item> this theory: the properties of the whole program.

  \<^bold>\<open>What the lemmas show.\<close>  Each component theory defines, next to the operations, reference
  functions that compute the events and the result of an operation from \<open>env\<close> alone, and
  proves that the operation does exactly that on every path, failures included
  (\<open>provision_sem\<close>, \<open>buildMocha_sem\<close>, \<open>run_driver_sem\<close>, \<open>runTests_sem\<close>, \<open>startup_sem\<close>,
  \<open>teardown_sem\<close>, \<open>main_sem\<close>, \<open>toplevel_sem\<close>, \<open>script_sem\<close>).  On top of these: which browsers are
  provisioned and how; which files a discovery registers; that the chain of \<^verbatim>\<open>runTests\<close> is a
  sequential loop that stops at the first run that is not fulfilled, and a run of the state
  machine that the specification draws for the drivers; what the process does
  and how it ends after a passing run, after a run that reports failures, after a thrown
  error, after a thrown value without a stack, when a driver cannot be created, when the
  session of a driver fails, when the server never listens, when a kill fails; that every
  run follows the protocol of the resources, in which the server is closed only when the
  kill of every open driver has been requested; that the process ends when the outside
  answers; when the exit code is 0, and when the process is left with an unhandled
  rejection; that the schedule of the concurrent operations does not change the run; what
  the startup, the scan of a discovery and the teardown do under every order in which the
  answers of their concurrent calls can arrive, with \<^verbatim>\<open>Promise.all\<close> as the machine of
  \<open>Settle\<close>; that a run of Mocha that never calls back leaves the process hanging with
  its resources; that under the module cache of the runtime only the first driver gets
  suites; how many calls a run can make; that a module that does not load, and nothing
  else, ends the file with an uncaught exception before anything is started; and that
  every Mocha instance that is run has its timeout,
  the address of the listening server and an open driver of a stable Chrome in the context
  of its suites.  The properties of the whole program are stated of \<open>script\<close>, the file;
  the properties of one path of a run are stated of \<open>toplevel\<close>, the last statement, from
  the state in which that path starts.

  The component theories keep, as lemmas, the facts that hold by the construction of the
  model and say nothing of the script on their own: that the fold of \<^verbatim>\<open>runTests\<close> is a
  sequential loop (\<open>runTests_Cons\<close>), that every operation keeps the identities of the
  trace below the counter (\<open>wf_proc\<close>), that the machine of \<^verbatim>\<open>Promise.all\<close> agrees with its
  summary by settle times, ends and stays within its bounds (\<open>settled_complete\<close>,
  \<open>promise_all_at_realised\<close>, \<open>deliver_terminates\<close>, \<open>reachable_bounds\<close>).  The
  properties are stated of the operations of the script.

  The main finding is that the teardown is skipped after a run that reports failures:
  \<^verbatim>\<open>runMocha\<close> rejects with \<^verbatim>\<open>undefined\<close>, and the \<^verbatim>\<open>catch\<close> block of \<^verbatim>\<open>main\<close> reads
  \<^verbatim>\<open>undefined.stack\<close>, which throws.  The comments of lines 55 and 56 do not describe the
  code: the startup loads no test suite, and it opens the stable Chromes only, not all
  stable browsers.

  \<^bold>\<open>Bounds and termination.\<close>  Every definition is a total function by structural
  recursion over a list (the browsers, the directories, the files, the drivers); no fuel is
  needed.  A computation of the script that never ends is a promise that stays \<open>Pending\<close>,
  and the process then ends as \<open>Hung\<close>: this happens when the server never listens, when a
  session, a listing, a run of Mocha or a kill never answers, and in no other case
  (\<open>main_result_Pending\<close>, \<open>script_Hung_iff\<close>).
  The loops of the script run over the lists that the outside gave, so the trace of a run
  is bounded by their sizes (\<open>Bounds\<close>).  The step relation of \<open>Settle\<close> is well founded: a
  call of \<^verbatim>\<open>Promise.all\<close> reacts at most once per input.  The step relation of
  \<open>Lifecycle\<close> is well founded too: every step moves one driver strictly up in the order
  of the phases, so a chain of \<open>n\<close> drivers makes at most \<open>3 * n\<close> steps
  (\<open>lstep_terminates\<close>, \<open>progress_le\<close>).  Strings are lists of characters,
  numbers of milliseconds, ports and exit codes are natural numbers; no arithmetic of the
  script can overflow.

  \<^bold>\<open>Choices and limits of the model.\<close>
  \<^item> The event loop is modelled as far as the script can observe it.  Callbacks run in
    program order; \<open>all_tasks_at\<close> starts every task, in order, before it looks at a result,
    and \<open>promise_all_at\<close> reports the rejection that settles first, by the settle times
    \<open>sessionTime\<close>, \<open>readdirTime\<close> and \<open>killTime\<close> of \<open>env\<close> (the first of the list among equal
    times).  The order
    in which the library calls of concurrent operations are issued is the order of the list;
    the order in which their answers arrive is free, and \<open>Settle\<close> and \<open>Schedule\<close> show that
    the settle times cover every such order and nothing else.
  \<^item> A driver that cannot be created is \<^verbatim>\<open>getSeleniumDriver\<close> throwing, which ends the
    pipeline at that browser, or a driver whose session fails or never comes up
    (\<open>sessionResult\<close>): the driver is a thenable, the pipeline goes on, and \<^verbatim>\<open>Promise.all\<close>
    waits for the session.  The call that sets the script timeout is issued at once in
    both cases; that its own promise is rejected when the session fails, unhandled, is
    not modelled.
  \<^item> A Mocha run is one answer of the outside: the number of failures it reports to the
    callback, or no call of the callback at all.  What the suites do with the driver is
    not modelled.
  \<^item> The module cache is an assumption on the outside, not a part of the state:
    \<open>requireResult\<close> takes the identity of the instance, so a world may yield suites again
    for a second instance or not; \<open>cached_after\<close> singles out the worlds that behave like
    a loader that evaluates a file once.
  \<^item> The file system does not change during a run: the answer of a listing depends on the
    path only.  In the same way the answer of \<^verbatim>\<open>getSeleniumDriver\<close> depends on the browser
    object only, so two installed browsers that agree in every field get the same answer.
  \<^item> A process whose last handler returns without calling \<^verbatim>\<open>process.exit\<close> has the
    outcome \<open>Exit 0\<close>: after the teardown nothing is left that keeps the event loop of
    the runtime alive.  On this path the trace has no \<open>ProcessExit\<close> event.
  \<^item> \<^verbatim>\<open>startServer\<close> has two answers, a server that listens or one that never does.  An
    \<^verbatim>\<open>error\<close> event of the server (a bind that fails), which no listener of the script
    takes, is not modelled; neither is a synchronous throw of \<^verbatim>\<open>killWebDriver\<close>.
  \<^item> A module is loaded or its \<^verbatim>\<open>require\<close> throws (\<open>moduleResult\<close>).  What a module
    exports is not a value of the model: the names \<^verbatim>\<open>http\<close>, \<^verbatim>\<open>fs\<close>, \<^verbatim>\<open>express\<close>,
    \<^verbatim>\<open>seleniumAssistant\<close> and \<^verbatim>\<open>Mocha\<close> stand for the library calls of \<open>World\<close>.  An exception
    that leaves the module body is the outcome \<open>Uncaught\<close>, a rejection that no handler
    takes is \<open>Unhandled\<close>; what the runtime prints and which code it gives the process in
    these two cases is its own business and not in the trace, which holds the calls of
    the script.

  \<^bold>\<open>Not modelled.\<close>
  \<^item> The libraries themselves (selenium-assistant, selenium-webdriver, mocha, express,
    mz/fs): their code is not in the repository.  The definitions of \<open>World\<close> say what a
    call to them appends to the trace and which answer of \<open>env\<close> it returns.
  \<^item> The job queue of the runtime between the settlement of a promise and the run of its
    reactions.  The script has one chain of control, and the only concurrent steps are
    the three calls of \<^verbatim>\<open>Promise.all\<close>, whose reactions \<open>Settle\<close> models; no other
    interleaving can change what the script does.
  \<^item> Of the values of the language: symbols and big integers, which behave as a string
    or a number in the two places where the script inspects a value (\<^verbatim>\<open>if (err)\<close> and
    \<^verbatim>\<open>e.stack\<close>); fractions and \<^verbatim>\<open>NaN\<close>, which are truthy like a non-zero integer and falsy
    like zero; the fields of an object other than \<^verbatim>\<open>stack\<close>, which the script never
    reads; a \<^verbatim>\<open>stack\<close> that is an accessor whose getter throws.
  \<^item> Every line of the file that holds code is modelled; the lines that are not in the
    map are blank.
\<close>

section \<open>A run that reports failures\<close>

text \<open>
  C1 (main, teardown after a failed run): when the server and the drivers have started and
  \<^verbatim>\<open>runTests\<close> is rejected with \<^verbatim>\<open>undefined\<close>, which is what \<^verbatim>\<open>runMocha\<close> rejects with when a
  run reports failures, the \<^verbatim>\<open>catch\<close> block of \<^verbatim>\<open>main\<close> reads \<^verbatim>\<open>e.stack\<close> of \<^verbatim>\<open>undefined\<close> and
  throws: \<^verbatim>\<open>main\<close> is rejected with that TypeError in the state in which \<^verbatim>\<open>runTests\<close> ended.
  No driver is killed and the server is not closed.
\<close>

theorem failed_run_skips_teardown:
  assumes "startup env s = (s1, Fulfilled (srv, drivers))"
    and "runTests env (address_of srv) drivers s1 = (s2, Rejected JUndefined)"
  shows "main env s = (s2, Rejected type_error)"
  by (simp add: main_after_tests [OF assms] guarded_result_def)

theorem failed_run_skips_teardown_witness:
  "main failing_env init_proc = (demo_tested, Rejected type_error) \<and>
   \<not> list_ex is_teardown (trace demo_tested)"
  using failed_run_skips_teardown [OF startup_failing_env runTests_failing_env]
  by (simp add: demo_tested_def demo_started_def
      demo_build_def)

text \<open>
  C2 (exit code of a failed run): in the same situation the process prints the stack of
  the TypeError, not a report of the failed tests, and exits with code 1.
\<close>

theorem failed_run_exits_1:
  assumes "startup env s = (s1, Fulfilled (srv, drivers))"
    and "runTests env (address_of srv) drivers s1 = (s2, Rejected JUndefined)"
  shows "toplevel env s =
     (logs [ConsoleError (JString ''TypeError: Cannot read property stack''), ProcessExit 1] s2,
      Exit 1)"
  by (simp add: toplevel_apply main_after_tests [OF assms] guarded_result_def final_events_def
      final_outcome_def type_error_def to_advance)

theorem failed_run_exits_1_witness:
  "toplevel failing_env init_proc =
     (logs [ConsoleError (JString ''TypeError: Cannot read property stack''), ProcessExit 1]
        demo_tested,
      Exit 1)"
  using failed_run_exits_1 [OF startup_failing_env runTests_failing_env]
  by simp

section \<open>A run that passes\<close>

text \<open>
  C3 (teardown and exit code of a passing run): when the server and the drivers have
  started, \<^verbatim>\<open>runTests\<close> fulfils and every kill fulfils, the process logs that it kills the
  browsers, kills every driver once in the order of the drivers, closes the server, logs
  \<^verbatim>\<open>Done.\<close> and \<^verbatim>\<open>e2e tests done.\<close> and ends with exit code 0.
\<close>

theorem passing_run_exits_0:
  assumes "startup env s = (s1, Fulfilled (srv, drivers))"
    and "runTests env (address_of srv) drivers s1 = (s2, Fulfilled ())"
    and "list_all (\<lambda>d. killResult env d = Fulfilled ()) drivers"
  shows "toplevel env s =
     (logs (ConsoleLog ''Killing all browser instances...'' #
          map (\<lambda>d. KillDriver (driverId d)) drivers @
          [CloseServer, ConsoleLog ''Done.'', ConsoleLog ''e2e tests done.'']) s2,
      Exit 0)"
  using assms(3)
  by (simp add: toplevel_after_tests [OF assms, of JUndefined] guarded_result_def
      teardown_events_all_killed final_events_def final_outcome_def to_advance)

theorem passing_run_exits_0_witness:
  "toplevel demo_env init_proc =
     (logs [ConsoleLog ''Killing all browser instances...'', KillDriver 0, CloseServer,
        ConsoleLog ''Done.'', ConsoleLog ''e2e tests done.''] demo_tested,
      Exit 0)"
  using passing_run_exits_0 [OF startup_demo_env runTests_demo_env]
  by simp

section \<open>A run that throws\<close>

text \<open>
  C8 (a thrown error): when \<^verbatim>\<open>runTests\<close> is rejected with a value whose \<^verbatim>\<open>stack\<close> is truthy (an
  error object with its stack: a test file that throws when it is loaded, a directory that
  cannot be read) and every kill fulfils, the teardown runs as after a passing run and the
  process exits with code 1, without printing the stack.
\<close>

theorem thrown_error_exits_1:
  assumes "startup env s = (s1, Fulfilled (srv, drivers))"
    and "runTests env (address_of srv) drivers s1 = (s2, Rejected e)"
    and "list_all (\<lambda>d. killResult env d = Fulfilled ()) drivers"
    and "get_stack e = Inr st" and "truthy st"
  shows "toplevel env s =
     (logs (ConsoleLog ''Killing all browser instances...'' #
          map (\<lambda>d. KillDriver (driverId d)) drivers @
          [CloseServer, ConsoleLog ''Done.'', ProcessExit 1]) s2,
      Exit 1)"
  using assms(3-5)
  by (simp add: toplevel_after_tests [OF assms(1-3), of st] guarded_result_def
      teardown_events_all_killed final_events_def final_outcome_def to_advance)

theorem thrown_error_exits_1_witness:
  "toplevel thrown_error_env init_proc =
     (logs [ConsoleLog ''Killing all browser instances...'', KillDriver 0, CloseServer,
        ConsoleLog ''Done.'', ProcessExit 1] demo_required,
      Exit 1)"
  using thrown_error_exits_1 [OF startup_thrown_error_env runTests_thrown_error_env,
      of "JString ''Error: boom''"]
  by simp

text \<open>
  C9 (a thrown value without a stack): when \<^verbatim>\<open>runTests\<close> is rejected with a value whose
  \<^verbatim>\<open>stack\<close> can be read and is falsy (a test file that executes \<^verbatim>\<open>throw 'boom'\<close> or
  \<^verbatim>\<open>throw 42\<close>, a rejection with an object that is no error, an error with an empty stack),
  \<^verbatim>\<open>main\<close> returns a falsy value: after the teardown the process logs \<^verbatim>\<open>e2e tests done.\<close> and
  exits with code 0, although no test ran.
\<close>

theorem stackless_rejection_exits_0:
  assumes "startup env s = (s1, Fulfilled (srv, drivers))"
    and "runTests env (address_of srv) drivers s1 = (s2, Rejected e)"
    and "list_all (\<lambda>d. killResult env d = Fulfilled ()) drivers"
    and "get_stack e = Inr st" and "\<not> truthy st"
  shows "toplevel env s =
     (logs (ConsoleLog ''Killing all browser instances...'' #
          map (\<lambda>d. KillDriver (driverId d)) drivers @
          [CloseServer, ConsoleLog ''Done.'', ConsoleLog ''e2e tests done.'']) s2,
      Exit 0)"
  using assms(3-5)
  by (simp add: toplevel_after_tests [OF assms(1-3), of st] guarded_result_def
      teardown_events_all_killed final_events_def final_outcome_def to_advance)

theorem stackless_rejection_exits_0_witness:
  "toplevel thrown_string_env init_proc =
     (logs [ConsoleLog ''Killing all browser instances...'', KillDriver 0, CloseServer,
        ConsoleLog ''Done.'', ConsoleLog ''e2e tests done.''] demo_required,
      Exit 0) \<and>
   runs (trace demo_required) = []"
  using stackless_rejection_exits_0 [OF startup_thrown_string_env runTests_thrown_string_env,
      of JUndefined]
  by (simp add:
      demo_required_def demo_started_def demo_build_def)

text \<open>
  The three ways in which a thrown value ends the process, in one world for every value: when a test file
  throws the value \<open>v\<close> while it is loaded, the browser is killed and the server closed
  unless \<open>v\<close> is \<^verbatim>\<open>undefined\<close> or \<^verbatim>\<open>null\<close>, and the exit code is 0 exactly when the
  property \<^verbatim>\<open>stack\<close> of \<open>v\<close> can be read and is falsy.
\<close>

theorem thrown_value_run:
  "script (thrown_env v) init_proc =
     (case get_stack v of
        Inl t \<Rightarrow>
          (logs [ConsoleError (JString ''TypeError: Cannot read property stack''),
             ProcessExit 1] demo_required, Exit 1)
      | Inr st \<Rightarrow>
          (logs ([ConsoleLog ''Killing all browser instances...'', KillDriver 0, CloseServer,
               ConsoleLog ''Done.''] @
             (if truthy st then [ProcessExit 1] else [ConsoleLog ''e2e tests done.'']))
             demo_required,
           if truthy st then Exit 1 else Exit 0))"
  by (cases "get_stack v")
    (auto simp add: script_loaded toplevel_apply main_thrown_env final_events_def
      final_outcome_def to_advance dest: get_stack_Inl)

text \<open>
  The run with two browsers: with two stable Chromes installed, the second driver gets its
  own Mocha instance, built by a second discovery after the run of the first has ended;
  both drivers are killed before the server is closed, and the exit code is 0.
\<close>

theorem two_browser_run:
  "toplevel two_chrome_env init_proc =
     (\<lparr>trace =
        [Listen ''docs'',
         GetDriver 0 (chrome\<lparr>arguments := [''--no-sandbox'']\<rparr>), SetScriptTimeout 0 60000,
         GetDriver 1 (chrome\<lparr>arguments := [''--no-sandbox'']\<rparr>), SetScriptTimeout 1 60000] @
        demo_build 2 @
        [Run (set_ctx demo_driver ''http://localhost:8080'' (demo_mocha 2))] @
        demo_build 3 @
        [Run (set_ctx (demo_driver\<lparr>driverId := 1\<rparr>) ''http://localhost:8080'' (demo_mocha 3))] @
        [ConsoleLog ''Killing all browser instances...'', KillDriver 0, KillDriver 1,
         CloseServer, ConsoleLog ''Done.'', ConsoleLog ''e2e tests done.''],
      fresh = 4\<rparr>,
      Exit 0)"
  by (simp add: toplevel_sem run_eval demo_build_def demo_mocha_def demo_driver_def)

section \<open>Failures outside the tests\<close>

text \<open>
  C12 (a driver that cannot be created): when the browsers \<open>bs\<close> at the head of the selection
  start and the next selected browser \<open>b\<close> throws \<open>e\<close> from \<^verbatim>\<open>getSeleniumDriver\<close>, \<^verbatim>\<open>main\<close> is
  rejected with \<open>e\<close> right there: the server has been asked to listen and the drivers of
  \<open>bs\<close> are open, and nothing kills them or closes the server.
\<close>

theorem driver_failure_leaks:
  assumes "map unsandboxChrome (filter browserFilter (localBrowsers env)) = bs @ b # cs"
    and "list_all (\<lambda>b. driverResult env b = None) bs"
    and "driverResult env b = Some e"
  shows "main env s =
     (advance (length bs) (Listen ''docs'' # open_events (fresh s) bs) s, Rejected e)"
proof -
  from assms have "startable env (selected env) = bs"
    and "open_result env (fresh s) (selected env) = Rejected e"
    by (simp_all add: selected_def startable_append_failed open_result_append_failed
        starts_def [abs_def])
  then show ?thesis
    by (simp add: main_sem main_allocs_def main_events_def main_result_def startup_result_def
        startup_events_def)
qed

theorem driver_failure_leaks_witness:
  "main no_driver_env init_proc =
     (\<lparr>trace = [Listen ''docs'', GetDriver 0 (chrome\<lparr>arguments := [''--no-sandbox'']\<rparr>),
         SetScriptTimeout 0 60000], fresh = 1\<rparr>,
      Rejected (JError ''no driver''))"
  using driver_failure_leaks [of no_driver_env "[unsandboxChrome chrome]"
      "unsandboxChrome chrome_headless" "[]" "JError ''no driver''" init_proc]
  by (simp add: browserFilter_iff unsandboxChrome_eq addArguments_def init_proc_def
      driver_events_def advance_def)

text \<open>
  C13 (a server that never listens): when the \<^verbatim>\<open>listening\<close> event never comes, a driver is
  created for every selected browser and no session of a driver is rejected, the promise of
  \<^verbatim>\<open>startServer\<close> stays pending, so does \<^verbatim>\<open>main\<close>, and neither handler of the last statement
  runs: the process neither exits nor tears down, with all drivers open.
\<close>

theorem server_never_listening_hangs:
  assumes "listenResult env = None"
    and "list_all (\<lambda>b. driverResult env b = None) (selected env)"
    and "\<forall>d e. sessionResult env d \<noteq> Rejected e"
  shows "toplevel env s =
     (advance (length (selected env)) (Listen ''docs'' # open_events (fresh s) (selected env)) s,
      Hung)"
proof -
  from assms(2) have "list_all (starts env) (selected env)"
    by (simp add: starts_def [abs_def])
  then have "startable env (selected env) = selected env"
    and "\<exists>ds. open_result env (fresh s) (selected env) = Fulfilled ds"
    by (simp_all add: startable_all open_result_Fulfilled_iff)
  with assms(1) show ?thesis
    by (auto simp: toplevel_sem main_allocs_def main_events_def main_result_def
        startup_result_def startup_events_def final_events_def final_outcome_def
        sessions_not_Rejected [OF assms(3)])
qed

theorem server_never_listening_hangs_witness:
  "toplevel deaf_server_env init_proc =
     (\<lparr>trace = [Listen ''docs'', GetDriver 0 (chrome\<lparr>arguments := [''--no-sandbox'']\<rparr>),
         SetScriptTimeout 0 60000], fresh = 1\<rparr>,
      Hung)"
  using server_never_listening_hangs [of deaf_server_env init_proc]
  by (simp add: selected_eq browserFilter_iff addArguments_def init_proc_def driver_events_def
      advance_def)

text \<open>
  C14 (a kill that fails): when the tests have passed and \<^verbatim>\<open>Promise.all\<close> over the kills is
  rejected with \<open>e\<close> (the rejection of the kill that fails first), every kill has been
  requested, the server is not closed, and \<^verbatim>\<open>main\<close> is rejected with \<open>e\<close>.
\<close>

theorem kill_rejection_leaves_server:
  assumes "startup env s = (s1, Fulfilled (srv, drivers))"
    and "runTests env (address_of srv) drivers s1 = (s2, Fulfilled ())"
    and "promise_all_at (map (killTime env) drivers) (map (killResult env) drivers) = Rejected e"
  shows "main env s =
     (logs (ConsoleLog ''Killing all browser instances...'' #
        map (\<lambda>d. KillDriver (driverId d)) drivers) s2, Rejected e)"
  using assms(3)
  by (simp add: main_after_tests [OF assms(1,2)] guarded_result_def teardown_events_def
      kills_def to_advance)

theorem kill_rejection_leaves_server_witness:
  "main stuck_kill_env init_proc =
     (logs [ConsoleLog ''Killing all browser instances...'', KillDriver 0] demo_tested,
      Rejected (JError ''kill failed''))"
  using kill_rejection_leaves_server [OF startup_stuck_kill_env runTests_stuck_kill_env,
      of "JError ''kill failed''"]
  by (simp add: promise_all_at_def first_rejection_def)

text \<open>
  C15 (no browser passes the filter): when no installed browser is a stable Chrome and the
  server listens, no driver is opened and no Mocha instance is built; the teardown still
  runs, and the process exits with code 0.
\<close>

theorem no_browser_run:
  assumes "filter browserFilter (localBrowsers env) = []"
    and "listenResult env = Some p"
  shows "toplevel env s =
     (logs [Listen ''docs'', ConsoleLog ''Killing all browser instances...'', CloseServer,
        ConsoleLog ''Done.'', ConsoleLog ''e2e tests done.''] s, Exit 0)"
  using assms
  by (simp add: toplevel_sem main_allocs_def main_events_def main_result_def
      startup_result_def startup_events_def after_startup_events_def after_startup_result_def
      selected_def guarded_result_def teardown_events_def kills_def final_events_def
      final_outcome_def to_advance)

theorem no_browser_run_witness:
  "toplevel no_browser_env init_proc =
     (\<lparr>trace = [Listen ''docs'', ConsoleLog ''Killing all browser instances...'', CloseServer,
         ConsoleLog ''Done.'', ConsoleLog ''e2e tests done.''], fresh = 0\<rparr>, Exit 0)"
  using no_browser_run [of no_browser_env 8080 init_proc]
  by (simp add: browserFilter_iff init_proc_def logs_def)

section \<open>The whole program\<close>

text \<open>
  C7 (refinement): started in the initial state, the file ends at once with the exception
  of the first module that does not load (\<open>missing\<close>), and when every module loads it
  leaves the trace \<open>program_trace\<close> and ends with \<open>program_outcome\<close>, two functions of the
  answers of the outside that are defined without promises or state: the events of the
  startup, then of the runs as long as they pass, then of the teardown if the \<^verbatim>\<open>catch\<close>
  block did not throw, then of the handler of the last statement.
\<close>

theorem script_refines_program:
  "script env init_proc =
     (case missing env of
        Some e \<Rightarrow> (init_proc, Uncaught e)
      | None \<Rightarrow>
          (\<lparr>trace = program_trace env, fresh = main_allocs env 0\<rparr>, program_outcome env))"
  by (simp add: script_sem program_trace_def program_outcome_def init_proc_def advance_def
      split: option.splits)

section \<open>The protocol of the resources\<close>

text \<open>
  C16 (safety, every run follows the protocol): whatever the outside answers, the trace of
  the program is a trace of the protocol monitor: a driver is opened once and killed at
  most once, a Mocha instance runs only while the server listens and is not closed and
  with a driver in its context that is open and not killed, the server is closed at most
  once and only when the kill of every driver that was opened has been requested
  (\<open>m_close\<close>), and no event follows \<^verbatim>\<open>process.exit\<close>.  The
  monitor ends in \<open>program_monitor\<close>, and where it started when a module did not load.
\<close>

theorem program_follows_protocol:
  "msteps init_monitor (trace (fst (script env init_proc)))
     (if loaded env then program_monitor env else init_monitor)"
  by (rule msteps_script_trace)

text \<open>
  C17 (exit code 0 means released resources): when the process ends with exit code 0, every
  driver that was opened has been killed and the server is closed.  (With exit code 1 this
  can fail: after a failed run, when a driver cannot be created, when a kill fails.)
\<close>

theorem clean_exit_releases_resources:
  assumes "snd (script env init_proc) = Exit 0"
    and "msteps init_monitor (trace (fst (script env init_proc))) m"
  shows "alive m = [] \<and> closed m \<and> \<not> exited m"
proof -
  from assms(1) have loaded: "loaded env" and exit: "program_outcome env = Exit 0"
    by (simp_all add: script_Exit_iff outcome_toplevel_init)
  from assms(2) loaded have "m = program_monitor env"
    by (simp add: trace_script_init msteps_deterministic [OF msteps_program_trace])
  with exit show ?thesis
    by (simp add: clean_exit_monitor)
qed

theorem clean_exit_releases_resources_witness:
  "alive (program_monitor demo_env) = [] \<and> closed (program_monitor demo_env) \<and>
   \<not> exited (program_monitor demo_env)"
  using clean_exit_releases_resources [of demo_env "program_monitor demo_env"]
  by (simp add: trace_script_init script_Exit_iff outcome_toplevel_init msteps_program_trace
      program_outcome_demo_env)

section \<open>The end of the process\<close>

text \<open>
  C18 (liveness): when the server comes up, the session of every driver answers, every
  listing of a directory answers, every run of Mocha calls back and every kill answers, the
  script comes to its end and is never left waiting for an answer: the process exits with
  a code, or the last handler throws (an unhandled rejection), or a module did not load
  (an uncaught exception).
\<close>

theorem script_ends:
  assumes "listenResult env \<noteq> None" and "\<forall>d. sessionResult env d \<noteq> Pending"
    and "\<forall>path. readdirResult env path \<noteq> Pending"
    and "\<forall>m. runResult env m \<noteq> None" and "\<forall>d. killResult env d \<noteq> Pending"
  shows "snd (script env s) \<noteq> Hung"
proof
  assume "snd (script env s) = Hung"
  then have "main_result env (fresh s) = Pending"
    by (simp add: script_Hung_iff toplevel_sem final_outcome_Hung_iff)
  from main_result_Pending [OF this] assms show False
    by blast
qed

theorem script_ends_witness: "snd (script failing_env init_proc) \<noteq> Hung"
  using script_ends [of failing_env init_proc]
  by (simp add: demo_fs_def)

text \<open>
  C19 (when the exit code is 0): the process ends with exit code 0 exactly when the five
  modules load, the server
  listens, every selected browser starts, every kill fulfils, and \<^verbatim>\<open>runTests\<close> either fulfils
  or is rejected with a value whose \<^verbatim>\<open>stack\<close> can be read and is falsy: a boolean, a number,
  a string, an object without the property or with a falsy one, an error with an empty
  stack.  A rejection with \<^verbatim>\<open>undefined\<close>, which is how a failed test run ends, and a
  rejection with an error are the cases with another outcome.
\<close>

theorem exit_0_iff:
  "snd (script env init_proc) = Exit 0 \<longleftrightarrow>
     loaded env \<and>
     (\<exists>srv ds. startup_result env 0 = Fulfilled (srv, ds) \<and> killed_all env ds \<and>
        (case tests_result env (address_of srv) ds (length ds) of
           Fulfilled u \<Rightarrow> True
         | Rejected e \<Rightarrow> (\<exists>st. get_stack e = Inr st \<and> \<not> truthy st)
         | Pending \<Rightarrow> False))"
  unfolding script_Exit_iff outcome_toplevel_init program_outcome_def final_outcome_Exit_0_iff
    guarded_falsy_iff [symmetric]
  by (auto simp: main_result_Fulfilled_iff)

section \<open>Startup and the value of main\<close>

text \<open>
  C24 (startup): the startup of \<^verbatim>\<open>main\<close> fulfils exactly when the server comes up, a driver
  is created for every selected browser and the session of every driver comes up; its
  value is the server on the port that was chosen and one driver per selected browser, in
  the order of the selection, with fresh identities.
\<close>

theorem startup_fulfils_iff:
  "snd (startup env s) = Fulfilled (srv, ds) \<longleftrightarrow>
     (\<exists>p. listenResult env = Some p \<and> srv = \<lparr>port = p, staticRoot = ''docs''\<rparr>) \<and>
     list_all (\<lambda>b. driverResult env b = None) (selected env) \<and>
     ds = map driver_of (enumerate (fresh s) (selected env)) \<and>
     list_all (\<lambda>d. sessionResult env d = Fulfilled ()) ds"
  by (auto simp: startup_sem startup_result_Fulfilled_iff starts_def [abs_def])

text \<open>
  C25 (the value of main): when \<^verbatim>\<open>main\<close> fulfils, the startup has fulfilled and \<^verbatim>\<open>runTests\<close> has
  settled, and the value of \<^verbatim>\<open>main\<close> is \<^verbatim>\<open>undefined\<close> when \<^verbatim>\<open>runTests\<close> fulfilled and what
  \<^verbatim>\<open>e.stack\<close> read from the rejection otherwise: the stack of an error object, \<^verbatim>\<open>undefined\<close>
  for a primitive.  It is never the value that was thrown, and the \<^verbatim>\<open>null\<close> that \<^verbatim>\<open>err\<close> is
  initialised with never survives.
\<close>

theorem main_returns_stack_or_undefined:
  assumes "main env s = (t, Fulfilled err)"
  shows "\<exists>s1 srv ds. startup env s = (s1, Fulfilled (srv, ds)) \<and>
    (case snd (runTests env (address_of srv) ds s1) of
       Fulfilled u \<Rightarrow> err = JUndefined
     | Rejected e \<Rightarrow> get_stack e = Inr err \<and> err \<noteq> e
     | Pending \<Rightarrow> False)"
proof -
  from assms obtain s1 srv ds where st: "startup env s = (s1, Fulfilled (srv, ds))"
    and g: "guarded_result (snd (runTests env (address_of srv) ds s1)) = Fulfilled err"
    by (rule main_value)
  from g have "case snd (runTests env (address_of srv) ds s1) of
       Fulfilled u \<Rightarrow> err = JUndefined
     | Rejected e \<Rightarrow> get_stack e = Inr err \<and> err \<noteq> e
     | Pending \<Rightarrow> False"
    by (auto simp: guarded_result_Fulfilled_iff get_stack_not_self)
  with st show ?thesis
    by blast
qed

theorem main_returns_stack_or_undefined_witness:
  "\<exists>s1 srv ds. startup thrown_error_env init_proc = (s1, Fulfilled (srv, ds)) \<and>
    (case snd (runTests thrown_error_env (address_of srv) ds s1) of
       Fulfilled u \<Rightarrow> JString ''Error: boom'' = JUndefined
     | Rejected e \<Rightarrow> get_stack e = Inr (JString ''Error: boom'') \<and> JString ''Error: boom'' \<noteq> e
     | Pending \<Rightarrow> False)"
  using main_returns_stack_or_undefined [of thrown_error_env init_proc
      "fst (main thrown_error_env init_proc)" "JString ''Error: boom''"]
  by (simp add: main_after_tests [OF startup_thrown_error_env runTests_thrown_error_env]
      kills_all_Fulfilled)

section \<open>The schedule\<close>

text \<open>
  C26 (the schedule does not matter): when every rejection of a session, of a directory
  listing and of a kill is a value whose \<^verbatim>\<open>stack\<close> can be read and is truthy (an error object
  with a stack), neither the events of the file nor the
  way the process ends depend on the times at which the sessions, the listings and the
  kills settle.  (What is printed after a kill that fails is the stack of the rejection
  that came first.)
\<close>

theorem schedule_independent:
  assumes "proper_sessions env" and "proper_fs env" and "proper_kills env"
  shows "fst (main (retimed env dt rt kt) s) = fst (main env s) \<and>
    snd (script (retimed env dt rt kt) s) = snd (script env s)"
  by (simp add: main_sem script_def toplevel_sem main_retimed [OF assms] split: sum.splits)

theorem schedule_independent_witness:
  "fst (main (retimed ghost_env (\<lambda>d. 7) length (\<lambda>d. 5)) init_proc) =
     fst (main ghost_env init_proc) \<and>
   snd (script (retimed ghost_env (\<lambda>d. 7) length (\<lambda>d. 5)) init_proc) =
     snd (script ghost_env init_proc)"
  using schedule_independent [of ghost_env "\<lambda>d. 7" length "\<lambda>d. 5" init_proc]
  by (simp add: proper_sessions_def proper_fs_def proper_kills_def proper_def ghost_env_def
      demo_fs_def)

section \<open>The order in which the kills answer\<close>

text \<open>
  C27 (the teardown under every order of arrival): let the answers to the kills arrive in
  the order \<open>sched\<close>, an order in which every kill that answers arrives once.  With the settle
  times of that order the teardown does what the machine of \<^verbatim>\<open>Promise.all\<close> does: every kill
  is requested, in the order of the drivers; the server is closed and \<^verbatim>\<open>Done.\<close> is logged
  exactly when the machine ends fulfilled; and the teardown is rejected with the rejection
  that arrived first, or stays pending when a kill that never answers keeps the machine
  from settling.
\<close>

theorem teardown_in_any_order:
  assumes "distinct ds" and "complete (map (killResult env) ds) sched"
  shows "teardown (retimed env (sessionTime env) (readdirTime env) (order_time ds sched)) srv ds s =
     (advance 0
        (ConsoleLog ''Killing all browser instances...'' # map (\<lambda>d. KillDriver (driverId d)) ds @
         (case settled (run_all (map (killResult env) ds) sched) of
            Fulfilled us \<Rightarrow> [CloseServer, ConsoleLog ''Done.'']
          | _ \<Rightarrow> [])) s,
      map_promise (\<lambda>us. ()) (settled (run_all (map (killResult env) ds) sched)))"
  by (simp add: teardown_sem teardown_events_def kills_in_order [OF assms])

theorem teardown_in_any_order_witness:
  "teardown (retimed race_kill_env (sessionTime race_kill_env)
      (readdirTime race_kill_env)
      (order_time [demo_driver, second_driver] [1, 0])) demo_server
      [demo_driver, second_driver] init_proc =
     (advance 0 [ConsoleLog ''Killing all browser instances...'', KillDriver 0, KillDriver 1]
        init_proc,
      Rejected (JError ''second kill failed''))"
  using teardown_in_any_order [of "[demo_driver, second_driver]" race_kill_env "[1, 0]"
      demo_server init_proc]
  by (simp add: order_eval demo_driver_def second_driver_def)

section \<open>A run of Mocha that never calls back\<close>

text \<open>
  C28 (a silent run): when the drivers have started, the discovery for the first driver
  has built its instance and the run of that instance never calls back, the process stops
  right after it has started the run: \<^verbatim>\<open>runTests\<close> and \<^verbatim>\<open>main\<close> stay pending, no later driver
  gets a run, no driver is killed, the server is not closed, and the process does not exit.
\<close>

theorem silent_run_hangs:
  assumes "startup env s = (s1, Fulfilled (srv, d # ds))"
    and "buildMocha env s1 = (s2, Fulfilled m)"
    and "runResult env (set_ctx d (address_of srv) m) = None"
  shows "toplevel env s = (log (Run (set_ctx d (address_of srv) m)) s2, Hung)"
proof -
  from assms(2,3) have "run_driver env (address_of srv) d s1 =
      (log (Run (set_ctx d (address_of srv) m)) s2, Pending)"
    by (simp add: run_driver_def await_apply runMocha_apply to_advance)
  then have "runTests env (address_of srv) (d # ds) s1 =
      (log (Run (set_ctx d (address_of srv) m)) s2, Pending)"
    by (simp add: runTests_Cons await_apply)
  from main_after_tests [OF assms(1) this] show ?thesis
    by (simp add: toplevel_apply final_events_def final_outcome_def)
qed

theorem silent_run_hangs_witness:
  "toplevel silent_run_env init_proc = (demo_tested, Hung) \<and>
   \<not> list_ex is_teardown (trace demo_tested)"
  using silent_run_hangs [OF startup_silent_run_env buildMocha_silent_run_env]
  by (simp add: demo_tested_def demo_started_def demo_build_def to_advance advance_def)

section \<open>The module cache\<close>

text \<open>
  C29 (later instances are empty under the module cache): \<^verbatim>\<open>runTests\<close> builds a new Mocha
  instance for every driver, and every discovery registers and loads the same files.  When
  the module loader evaluates a file only the first time it is loaded (\<open>cached_after\<close>, from
  the first instance of the run on) and \<^verbatim>\<open>runTests\<close> fulfils, there has been one run per
  driver, and every instance but the first was run without any suite: only the first driver
  is ever used by a test.
\<close>

theorem later_instances_have_no_suites:
  assumes "cached_after env (fresh s)" and "runTests env a ds s = (t, Fulfilled ())"
  shows "length (runs (added s t)) = length ds \<and>
    list_all (\<lambda>m. suites m = []) (tl (runs (added s t)))"
proof (cases ds)
  case Nil
  with assms(2) show ?thesis
    by (simp add: task_apply)
next
  case (Cons d ds')
  from assms(2) have r: "tests_result env a ds (fresh s) = Fulfilled ()"
    and t: "added s t = tests_events env a ds (fresh s)"
    by (auto simp: runTests_sem)
  have "length (runs (added s t)) = length ds"
    using runs_tests_events_ids [OF r] t by (metis length_map length_upt add_diff_cancel_left')
  with runs_tests_events_cached [OF assms(1) r [unfolded Cons]] t Cons show ?thesis
    by simp
qed

theorem later_instances_have_no_suites_witness:
  "map (map title \<circ> suites)
     (runs (added \<lparr>trace = [], fresh = 2\<rparr>
       (fst (runTests cached_env ''http://localhost:8080'' [demo_driver, second_driver]
          \<lparr>trace = [], fresh = 2\<rparr>)))) = [[''unit-a e2e''], []]"
  using later_instances_have_no_suites [of cached_env "\<lparr>trace = [], fresh = 2\<rparr>"
      "''http://localhost:8080''" "[demo_driver, second_driver]"
      "fst (runTests cached_env ''http://localhost:8080'' [demo_driver, second_driver]
          \<lparr>trace = [], fresh = 2\<rparr>)"]
  by (simp add: runTests_sem run_eval cached_after_def added_def)

section \<open>A driver whose session fails\<close>

text \<open>
  C33 (a session that fails): when a driver has been created for every selected browser
  and \<^verbatim>\<open>Promise.all\<close> is rejected because the session of a driver fails, \<^verbatim>\<open>main\<close> is rejected
  with the rejection of the session that failed first, whether the server listens or not.
  The server has been asked to listen and every selected browser has got its driver and
  its timeout; nothing kills the drivers, the other sessions included, or closes the server.
\<close>

theorem session_failure_leaks:
  assumes "list_all (\<lambda>b. driverResult env b = None) (selected env)"
    and "sessions env (map driver_of (enumerate (fresh s) (selected env))) = Rejected e"
  shows "main env s =
     (advance (length (selected env)) (Listen ''docs'' # open_events (fresh s) (selected env)) s,
      Rejected e)"
proof -
  from assms(1) have "list_all (starts env) (selected env)"
    by (simp add: starts_def [abs_def])
  then have "startable env (selected env) = selected env"
    and "open_result env (fresh s) (selected env) =
      Fulfilled (map driver_of (enumerate (fresh s) (selected env)))"
    by (simp_all add: startable_all open_result_Fulfilled_iff)
  with assms(2) show ?thesis
    by (cases "listenResult env")
      (simp_all add: main_sem main_allocs_def main_events_def main_result_def
        startup_result_def startup_events_def)
qed

theorem session_failure_leaks_witness:
  "main no_session_env init_proc =
     (\<lparr>trace = [Listen ''docs'', GetDriver 0 (chrome\<lparr>arguments := [''--no-sandbox'']\<rparr>),
         SetScriptTimeout 0 60000, GetDriver 1 (chrome\<lparr>arguments := [''--no-sandbox'']\<rparr>),
         SetScriptTimeout 1 60000], fresh = 2\<rparr>,
      Rejected (JError ''session not created''))"
  using session_failure_leaks [of no_session_env init_proc "JError ''session not created''"]
  by (simp add: selected_eq browserFilter_iff addArguments_def init_proc_def driver_events_def
      open_events_def driver_of_def sessions_def session_def promise_all_at_def
      first_rejection_def advance_def)

section \<open>A module that does not load\<close>

text \<open>
  C34 (error, a module that does not load): the file ends with an uncaught exception
  exactly when one of its five modules does not load, and then in the state in which it
  started: nothing was started, neither the server nor a driver, and nothing was printed by
  the script.  The modules are required in the order of lines 1-5, \<^verbatim>\<open>http\<close>, \<^verbatim>\<open>mz/fs\<close>,
  \<^verbatim>\<open>express\<close>, \<^verbatim>\<open>selenium-assistant\<close>, \<^verbatim>\<open>mocha\<close>, and the exception is that of the first one
  that throws; no failure of \<^verbatim>\<open>main\<close> or of the handlers of the last statement ends the file
  in this way.
\<close>

theorem missing_module_stops_script:
  "script env s = (s', Uncaught e) \<longleftrightarrow>
     s' = s \<and>
     (moduleResult env ''http'' = Some e \<or>
      moduleResult env ''http'' = None \<and>
      (moduleResult env ''mz/fs'' = Some e \<or>
       moduleResult env ''mz/fs'' = None \<and>
       (moduleResult env ''express'' = Some e \<or>
        moduleResult env ''express'' = None \<and>
        (moduleResult env ''selenium-assistant'' = Some e \<or>
         moduleResult env ''selenium-assistant'' = None \<and>
         moduleResult env ''mocha'' = Some e))))"
proof -
  have "script env s = (s', Uncaught e) \<longleftrightarrow> s' = s \<and> load_modules env = Inl e"
    using script_Uncaught_iff [of env s e] by (auto simp: script_missing)
  then show ?thesis
    by (simp only: load_modules_Inl_names)
qed

theorem missing_module_stops_script_witness:
  "script no_module_env init_proc =
     (init_proc, Uncaught (JError ''Error: Cannot find module selenium-assistant''))"
  using missing_module_stops_script [of no_module_env init_proc init_proc
      "JError ''Error: Cannot find module selenium-assistant''"]
  by simp

section \<open>A rejection without a value\<close>

text \<open>
  C20 (error, the last handler throws): the \<^verbatim>\<open>catch\<close> handler of the last statement reads
  \<^verbatim>\<open>err.stack\<close> (line 118), which throws when \<^verbatim>\<open>main\<close> was rejected with \<^verbatim>\<open>undefined\<close> or
  \<^verbatim>\<open>null\<close>: nothing is printed, \<^verbatim>\<open>process.exit(1)\<close> is not called, and the process is left
  with an unhandled rejection.  This happens exactly when the startup is rejected with such
  a value (a driver that cannot be created or a session that fails), or when the tests
  have settled without it and \<^verbatim>\<open>Promise.all\<close> over the kills is rejected with it.  A test
  run that fails or throws never ends in this way: the \<^verbatim>\<open>catch\<close> block of \<^verbatim>\<open>main\<close> turns its
  rejection into a value or into a TypeError, which has a stack.
\<close>

theorem unhandled_rejection_iff:
  "snd (script env init_proc) = Unhandled t \<longleftrightarrow>
     loaded env \<and> t = type_error \<and>
     (\<exists>e. (e = JUndefined \<or> e = JNull) \<and>
        (startup_result env 0 = Rejected e \<or>
         (\<exists>srv ds. startup_result env 0 = Fulfilled (srv, ds) \<and>
            kills env ds = Rejected e \<and>
            (case tests_result env (address_of srv) ds (length ds) of
               Fulfilled u \<Rightarrow> True
             | Rejected e' \<Rightarrow> e' \<noteq> JUndefined \<and> e' \<noteq> JNull
             | Pending \<Rightarrow> False))))"
proof -
  have "snd (script env init_proc) = Unhandled t \<longleftrightarrow>
      loaded env \<and> final_outcome (main_result env 0) = Unhandled t"
    by (rule script_cases [of env init_proc])
      (simp_all add: outcome_toplevel_init program_outcome_def)
  then show ?thesis
    unfolding final_outcome_Unhandled_iff main_result_Rejected_iff
      guarded_result_settles_iff [symmetric]
    by auto
qed

theorem unhandled_rejection_iff_witness:
  "snd (script void_kill_env init_proc) = Unhandled type_error"
  using unhandled_rejection_iff [of void_kill_env type_error]
  by (simp add: run_eval)

text \<open>
  The run in that world: the kill is requested, the server is not closed, and the process
  prints nothing and does not call \<^verbatim>\<open>process.exit\<close>.
\<close>

lemma toplevel_void_kill_env:
  "toplevel void_kill_env init_proc =
     (logs [ConsoleLog ''Killing all browser instances...'', KillDriver 0] demo_tested,
      Unhandled type_error)"
  by (simp add: toplevel_sem run_eval demo_tested_def demo_started_def demo_build_def
      demo_mocha_def logs_def)

section \<open>What a run is given\<close>

text \<open>
  C35 (safety, every run is configured): whatever the outside answers, every Mocha instance
  that the file runs has the suite timeout of 60000 ms, and every top-level suite of it has
  in its context the address \<^verbatim>\<open>http://localhost:\<close> with the port on which the server listens
  and a driver that the file has opened before, for an installed stable Chrome, with the
  argument \<^verbatim>\<open>--no-sandbox\<close> and the script timeout of 60000 ms.
\<close>

theorem every_run_is_configured:
  assumes "m \<in> set (runs (added s (fst (script env s))))"
  shows "configured env (added s (fst (script env s))) m"
proof -
  let ?i = "fresh s"
  from assms have loaded: "loaded env"
    and m: "m \<in> set (runs (main_events env ?i))"
    by (simp_all add: added_script split: if_splits)
  from m obtain srv ds where st: "startup_result env ?i = Fulfilled (srv, ds)"
    and run: "m \<in> set (runs (tests_events env (address_of srv) ds (?i + length ds)))"
    by (cases "startup_result env ?i") (auto simp: runs_main_events)
  from runs_tests_events_built [OF run] obtain d j m0 where d: "d \<in> set ds"
    and m0: "build_result env j = Fulfilled m0" and eq: "m = set_ctx d (address_of srv) m0"
    by blast
  from st obtain p where p: "listenResult env = Some p" "port srv = p"
    and ds: "ds = map driver_of (enumerate ?i (selected env))"
    by (auto simp: startup_result_Fulfilled_iff)
  note sel = selected_driver [OF d [unfolded ds]]
  from sel(4) startup_started(1) [OF st]
  have "GetDriver (driverId d) (ofBrowser d) \<in> set (added s (fst (script env s)))"
    by (simp add: added_script loaded main_events_def startup_events_def)
  with m0 p sel(1-3) show ?thesis
    by (auto simp: configured_def eq suites_set_ctx address_of_def list_all_iff
        build_result_Fulfilled_iff)
qed

theorem every_run_is_configured_witness:
  "set_ctx demo_driver ''http://localhost:8080'' (demo_mocha 1) \<in>
     set (runs (added init_proc (fst (script demo_env init_proc)))) \<and>
   configured demo_env (added init_proc (fst (script demo_env init_proc)))
     (set_ctx demo_driver ''http://localhost:8080'' (demo_mocha 1))"
  using every_run_is_configured [of "set_ctx demo_driver ''http://localhost:8080'' (demo_mocha 1)"
      init_proc demo_env]
  by (simp add: added_script main_events_def after_startup_events_def run_eval demo_build_def
      demo_mocha_def demo_driver_def)

end
